theory Spec2Isabelle
  imports Main "HOL-Library.Sublist"
begin

section \<open>Values of the Go runtime\<close>

text \<open>
  A \<^verbatim>\<open>time.Duration\<close> counts nanoseconds in an int64. Every duration and instant of
  this development is non-negative and far below \<open>2 ^ 63\<close>, so they are natural numbers.
  Instants are readings of the monotonic clock.
\<close>

definition Nanosecond :: nat where
  "Nanosecond = 1"

definition Microsecond :: nat where
  "Microsecond = 1000 * Nanosecond"

definition Millisecond :: nat where
  "Millisecond = 1000 * Microsecond"

definition Second :: nat where
  "Second = 1000 * Millisecond"

definition Minute :: nat where
  "Minute = 60 * Second"

text \<open>
  An \<^verbatim>\<open>error\<close> value. \<open>Canceled\<close> and \<open>DeadlineExceeded\<close> are the two sentinel values
  that \<^verbatim>\<open>ctx.Err()\<close> returns once the context is done. \<open>Remote\<close> is an error produced
  by the SDK client or by the operating system. \<open>Errorf msg\<close> is \<^verbatim>\<open>fmt.Errorf\<close> with no
  \<^verbatim>\<open>%w\<close> verb, its arguments already formatted into \<open>msg\<close>; \<open>Wrapf msg err\<close> is
  \<^verbatim>\<open>fmt.Errorf(msg + "%w", err)\<close>.
\<close>

datatype error =
    Canceled
  | DeadlineExceeded
  | Remote string
  | Errorf string
  | Wrapf string error

text \<open>The message of an error, \<^verbatim>\<open>err.Error()\<close>.\<close>

fun Error :: "error \<Rightarrow> string" where
  "Error Canceled = ''context canceled''"
| "Error DeadlineExceeded = ''context deadline exceeded''"
| "Error (Remote msg) = msg"
| "Error (Errorf msg) = msg"
| "Error (Wrapf msg err) = msg @ Error err"

text \<open>
  A slice is \<open>None\<close> when it is \<^verbatim>\<open>nil\<close> and \<open>Some xs\<close> when it is allocated;
  \<open>Some []\<close> is the empty slice that is not nil. \<^verbatim>\<open>append\<close> allocates on a nil slice.
\<close>

type_synonym 'a slice = "'a list option"

definition append_slice :: "'a slice \<Rightarrow> 'a \<Rightarrow> 'a slice" where
  "append_slice s x = (case s of None \<Rightarrow> Some [x] | Some xs \<Rightarrow> Some (xs @ [x]))"

definition elems :: "'a slice \<Rightarrow> 'a list" where
  "elems s = (case s of None \<Rightarrow> [] | Some xs \<Rightarrow> xs)"

definition len :: "'a slice \<Rightarrow> nat" where
  "len s = length (elems s)"

text \<open>\<^verbatim>\<open>aws.ToString\<close>: the string behind a \<^verbatim>\<open>*string\<close>, empty for a nil pointer.\<close>

definition ToString :: "string option \<Rightarrow> string" where
  "ToString p = (case p of None \<Rightarrow> [] | Some s \<Rightarrow> s)"

section \<open>Types and constants of the CloudFormation SDK\<close>

text \<open>
  The parts of \<^verbatim>\<open>cloudformation/types\<close> that \<^verbatim>\<open>deployer.go\<close> reads. A \<^verbatim>\<open>*string\<close> field
  is a \<open>string option\<close>; the enumerations are string types, kept as strings because the
  code converts them with \<^verbatim>\<open>string(...)\<close> and compares them as such.
\<close>

record Output =
  OutputKey :: "string option"
  OutputValue :: "string option"

record StackDriftInformation =
  StackDriftStatus :: string

record Stack =
  StackStatus :: string
  Outputs :: "Output list"
  DriftInformation :: "StackDriftInformation option"

record PropertyDifference =
  PropertyPath :: "string option"
  ExpectedValue :: "string option"
  ActualValue :: "string option"
  DifferenceType :: string

record StackResourceDrift =
  LogicalResourceId :: "string option"
  PhysicalResourceId :: "string option"
  ResourceType :: "string option"
  StackResourceDriftStatus :: string
  PropertyDifferences :: "PropertyDifference list"

definition StackStatusCreateComplete :: string where
  "StackStatusCreateComplete = ''CREATE_COMPLETE''"

definition StackStatusUpdateComplete :: string where
  "StackStatusUpdateComplete = ''UPDATE_COMPLETE''"

definition StackStatusCreateFailed :: string where
  "StackStatusCreateFailed = ''CREATE_FAILED''"

definition StackStatusRollbackComplete :: string where
  "StackStatusRollbackComplete = ''ROLLBACK_COMPLETE''"

definition StackStatusRollbackFailed :: string where
  "StackStatusRollbackFailed = ''ROLLBACK_FAILED''"

definition StackStatusUpdateRollbackComplete :: string where
  "StackStatusUpdateRollbackComplete = ''UPDATE_ROLLBACK_COMPLETE''"

definition StackStatusUpdateRollbackFailed :: string where
  "StackStatusUpdateRollbackFailed = ''UPDATE_ROLLBACK_FAILED''"

definition StackStatusDeleteComplete :: string where
  "StackStatusDeleteComplete = ''DELETE_COMPLETE''"

definition StackStatusDeleteFailed :: string where
  "StackStatusDeleteFailed = ''DELETE_FAILED''"

definition StackDriftDetectionStatusDetectionComplete :: string where
  "StackDriftDetectionStatusDetectionComplete = ''DETECTION_COMPLETE''"

definition StackDriftDetectionStatusDetectionFailed :: string where
  "StackDriftDetectionStatusDetectionFailed = ''DETECTION_FAILED''"

definition StackResourceDriftStatusModified :: string where
  "StackResourceDriftStatusModified = ''MODIFIED''"

definition StackResourceDriftStatusDeleted :: string where
  "StackResourceDriftStatusDeleted = ''DELETED''"

definition StackResourceDriftStatusNotChecked :: string where
  "StackResourceDriftStatusNotChecked = ''NOT_CHECKED''"

definition CapabilityCapabilityIam :: string where
  "CapabilityCapabilityIam = ''CAPABILITY_IAM''"

definition CapabilityCapabilityNamedIam :: string where
  "CapabilityCapabilityNamedIam = ''CAPABILITY_NAMED_IAM''"

definition CapabilityCapabilityAutoExpand :: string where
  "CapabilityCapabilityAutoExpand = ''CAPABILITY_AUTO_EXPAND''"

definition OnFailureRollback :: string where
  "OnFailureRollback = ''ROLLBACK''"

section \<open>Result types of the package (types.go)\<close>

record StackOutput =
  Key :: string
  Value :: string

record DeployResult =
  StackName :: string
  StackID :: string
  Status :: string
  Outputs :: "StackOutput slice"

record PropertyDiff =
  PropertyPath :: string
  ExpectedValue :: string
  ActualValue :: string
  DifferenceType :: string

record DriftedResource =
  LogicalID :: string
  PhysicalID :: string
  ResourceType :: string
  DriftStatus :: string
  PropertyDiffs :: "PropertyDiff slice"

record DriftResult =
  StackName :: string
  DriftStatus :: string
  DriftedResources :: "DriftedResource slice"

section \<open>The world outside the process\<close>

text \<open>
  The requests that the code sends through \<^verbatim>\<open>d.cfnClient\<close>, with the fields it sets.
\<close>

datatype request =
    DescribeStacksInput string
  | CreateStackInput string string "string list" string
  | UpdateStackInput string string "string list"
  | DetectStackDriftInput string
  | DescribeStackDriftDetectionStatusInput string
  | DescribeStackResourceDriftsInput string "string list"

text \<open>
  What the remote service holds for a request at the moment it answers. \<open>Fails err\<close> makes
  the client method return \<open>err\<close>. \<open>ResourceDrifts\<close> carries the drift records of all the
  resources of the stack: the status filter of the request is applied to them by
  \<open>DescribeStackResourceDrifts\<close> below, as the service does.
\<close>

datatype answer =
    Fails error
  | Stacks "Stack list"
  | StackId "string option"
  | StackDriftDetectionId "string option"
  | DetectionStatus string "string option"
  | ResourceDrifts "StackResourceDrift list"

text \<open>
  The context's cancellation cause: the value of \<^verbatim>\<open>ctx.Err()\<close> once \<^verbatim>\<open>ctx.Done()\<close> is closed.
\<close>

datatype cause = CauseCanceled | CauseDeadlineExceeded

text \<open>
  The state that the methods of \<^verbatim>\<open>Deployer\<close> run against: the receiver \<^verbatim>\<open>d\<close>, the
  context \<^verbatim>\<open>ctx\<close> and everything outside the process.
  \<^item> \<open>now\<close>: the clock.
  \<^item> \<open>cancel_at\<close>: the instant at which \<^verbatim>\<open>ctx.Done()\<close> is closed, if ever; \<open>ctx_cause\<close>:
    what \<^verbatim>\<open>ctx.Err()\<close> is from then on.
  \<^item> \<open>script\<close>: for each client call still to come, how long the remote service takes
    and what it answers. To a call made when the script is empty it never answers.
  \<^item> \<open>calls\<close>: the calls of client methods so far, each with its request and the
    instant it was made at.
  \<^item> \<open>sched\<close>, \<open>nsel\<close>: the pseudo-random number that the \<open>n\<close>-th \<^verbatim>\<open>select\<close>
    statement draws to choose among the cases that are ready, and the number of
    \<^verbatim>\<open>select\<close> statements executed so far.
  \<^item> \<open>outputDir\<close>, \<open>readFile\<close>: the synthesizer's output directory, and the result of
    \<^verbatim>\<open>os.ReadFile(filepath.Join(dir, name))\<close> for a directory and a file name.
  A function of the model returns \<open>None\<close> when the Go function does not return:
  it waits for an answer that never comes, or it panics. A script whose next answer
  belongs to another operation than the one called describes no run, and gives \<open>None\<close>
  as well. What the code prints with \<^verbatim>\<open>fmt.Printf\<close> is left out.
\<close>

record world =
  now :: nat
  cancel_at :: "nat option"
  ctx_cause :: cause
  script :: "(nat \<times> answer) list"
  calls :: "(nat \<times> request) list"
  sched :: "nat \<Rightarrow> nat"
  nsel :: nat
  outputDir :: string
  readFile :: "string \<Rightarrow> string \<Rightarrow> error + string"

definition ctx_Err :: "world \<Rightarrow> error" where
  "ctx_Err w = (case ctx_cause w of CauseCanceled \<Rightarrow> Canceled
                | CauseDeadlineExceeded \<Rightarrow> DeadlineExceeded)"

text \<open>
  Every client method takes \<^verbatim>\<open>ctx\<close>, and the SDK gives up a request when its context is
  done: the method then returns an error that wraps \<^verbatim>\<open>ctx.Err()\<close>. A call whose answer
  takes \<open>latency\<close> is given up when the context is cancelled already as the call is made,
  or is cancelled before the answer is there.
\<close>

definition aborted :: "world \<Rightarrow> nat \<Rightarrow> bool" where
  "aborted w latency =
     (case cancel_at w of None \<Rightarrow> False | Some c \<Rightarrow> c \<le> now w \<or> c < now w + latency)"

text \<open>The instant at which such a call returns: with the answer, or as it is given up.\<close>

definition returns_at :: "world \<Rightarrow> nat \<Rightarrow> nat" where
  "returns_at w latency =
     (case cancel_at w of
        None \<Rightarrow> now w + latency
      | Some c \<Rightarrow> if c \<le> now w \<or> c < now w + latency then max (now w) c else now w + latency)"

fun operation :: "request \<Rightarrow> string" where
  "operation (DescribeStacksInput n) = ''DescribeStacks''"
| "operation (CreateStackInput n b cs f) = ''CreateStack''"
| "operation (UpdateStackInput n b cs) = ''UpdateStack''"
| "operation (DetectStackDriftInput n) = ''DetectStackDrift''"
| "operation (DescribeStackDriftDetectionStatusInput i) = ''DescribeStackDriftDetectionStatus''"
| "operation (DescribeStackResourceDriftsInput n fs) = ''DescribeStackResourceDrifts''"

text \<open>The error of a call that was given up: the SDK's operation error around \<^verbatim>\<open>ctx.Err()\<close>.\<close>

definition canceled :: "world \<Rightarrow> request \<Rightarrow> error" where
  "canceled w rq =
     Wrapf (''operation error CloudFormation: '' @ operation rq @ '', '')
       (Wrapf ''canceled, '' (ctx_Err w))"

text \<open>
  One call of a client method: the call is logged with the instant it is made at, and the
  next entry of the script gives the latency and the answer, unless the call is given up.
  With nothing left in the script the call returns only when the context is cancelled.
\<close>

definition call :: "world \<Rightarrow> request \<Rightarrow> (answer \<times> world) option" where
  "call w rq =
     (case script w of
        [] \<Rightarrow>
          (case cancel_at w of
             None \<Rightarrow> None
           | Some c \<Rightarrow>
               Some (Fails (canceled w rq),
                     w\<lparr>now := max (now w) c, calls := calls w @ [(now w, rq)]\<rparr>))
      | (latency, a) # rest \<Rightarrow>
          Some (if aborted w latency then Fails (canceled w rq) else a,
                w\<lparr>now := returns_at w latency, script := rest,
                  calls := calls w @ [(now w, rq)]\<rparr>))"

text \<open>The context is not cancelled up to the instant \<open>t\<close>.\<close>

definition alive :: "world \<Rightarrow> nat \<Rightarrow> bool" where
  "alive w t = (case cancel_at w of None \<Rightarrow> True | Some c \<Rightarrow> t < c)"

definition DescribeStacks :: "world \<Rightarrow> string \<Rightarrow> ((error + Stack list) \<times> world) option" where
  "DescribeStacks w stackName =
     (case call w (DescribeStacksInput stackName) of
        None \<Rightarrow> None
      | Some (a, w') \<Rightarrow>
          (case a of
             Fails err \<Rightarrow> Some (Inl err, w')
           | Stacks ss \<Rightarrow> Some (Inr ss, w')
           | _ \<Rightarrow> None))"

definition CreateStack ::
  "world \<Rightarrow> string \<Rightarrow> string \<Rightarrow> string list \<Rightarrow> string \<Rightarrow> ((error + string option) \<times> world) option" where
  "CreateStack w stackName templateBody capabilities onFailure =
     (case call w (CreateStackInput stackName templateBody capabilities onFailure) of
        None \<Rightarrow> None
      | Some (a, w') \<Rightarrow>
          (case a of
             Fails err \<Rightarrow> Some (Inl err, w')
           | StackId sid \<Rightarrow> Some (Inr sid, w')
           | _ \<Rightarrow> None))"

definition UpdateStack ::
  "world \<Rightarrow> string \<Rightarrow> string \<Rightarrow> string list \<Rightarrow> ((error + string option) \<times> world) option" where
  "UpdateStack w stackName templateBody capabilities =
     (case call w (UpdateStackInput stackName templateBody capabilities) of
        None \<Rightarrow> None
      | Some (a, w') \<Rightarrow>
          (case a of
             Fails err \<Rightarrow> Some (Inl err, w')
           | StackId sid \<Rightarrow> Some (Inr sid, w')
           | _ \<Rightarrow> None))"

definition DetectStackDrift :: "world \<Rightarrow> string \<Rightarrow> ((error + string option) \<times> world) option" where
  "DetectStackDrift w stackName =
     (case call w (DetectStackDriftInput stackName) of
        None \<Rightarrow> None
      | Some (a, w') \<Rightarrow>
          (case a of
             Fails err \<Rightarrow> Some (Inl err, w')
           | StackDriftDetectionId i \<Rightarrow> Some (Inr i, w')
           | _ \<Rightarrow> None))"

definition DescribeStackDriftDetectionStatus ::
  "world \<Rightarrow> string \<Rightarrow> ((error + string \<times> string option) \<times> world) option" where
  "DescribeStackDriftDetectionStatus w driftDetectionId =
     (case call w (DescribeStackDriftDetectionStatusInput driftDetectionId) of
        None \<Rightarrow> None
      | Some (a, w') \<Rightarrow>
          (case a of
             Fails err \<Rightarrow> Some (Inl err, w')
           | DetectionStatus st reason \<Rightarrow> Some (Inr (st, reason), w')
           | _ \<Rightarrow> None))"

definition DescribeStackResourceDrifts ::
  "world \<Rightarrow> string \<Rightarrow> string list \<Rightarrow> ((error + StackResourceDrift list) \<times> world) option" where
  "DescribeStackResourceDrifts w stackName filters =
     (case call w (DescribeStackResourceDriftsInput stackName filters) of
        None \<Rightarrow> None
      | Some (a, w') \<Rightarrow>
          (case a of
             Fails err \<Rightarrow> Some (Inl err, w')
           | ResourceDrifts rds \<Rightarrow>
               Some (Inr (filter (\<lambda>rd. StackResourceDriftStatus rd \<in> set filters) rds), w')
           | _ \<Rightarrow> None))"

section \<open>Timers and the select statement\<close>

text \<open>
  The three channels that the polling loops wait on, in the order of their cases.
\<close>

datatype chan = CtxDone | Timeout | Ticker

text \<open>
  The instant from which a receive on the channel succeeds: \<^verbatim>\<open>ctx.Done()\<close> from the
  cancellation on, the channel of \<^verbatim>\<open>time.After\<close> from the deadline \<open>tmo\<close> on, the ticker's
  channel from its next tick \<open>ntk\<close> on (the channel buffers one tick).
\<close>

fun ready :: "world \<Rightarrow> nat \<Rightarrow> nat \<Rightarrow> nat \<Rightarrow> chan \<Rightarrow> bool" where
  "ready w tmo ntk t CtxDone = (case cancel_at w of None \<Rightarrow> False | Some c \<Rightarrow> c \<le> t)"
| "ready w tmo ntk t Timeout = (tmo \<le> t)"
| "ready w tmo ntk t Ticker = (ntk \<le> t)"

text \<open>
  The instant at which a \<^verbatim>\<open>select\<close> entered at \<open>now w\<close> goes on: at once when a case is
  ready, otherwise when the first of them becomes ready.
\<close>

definition wake :: "world \<Rightarrow> nat \<Rightarrow> nat \<Rightarrow> nat" where
  "wake w tmo ntk =
     max (now w) (case cancel_at w of None \<Rightarrow> min tmo ntk | Some c \<Rightarrow> min c (min tmo ntk))"

text \<open>
  \<^verbatim>\<open>select\<close> over the three channels: it takes one of the cases that are ready when it
  goes on, chosen by the pseudo-random number when there are several.
\<close>

definition select_chan :: "world \<Rightarrow> nat \<Rightarrow> nat \<Rightarrow> chan \<times> world" where
  "select_chan w tmo ntk =
     (let t = wake w tmo ntk;
          rs = filter (ready w tmo ntk t) [CtxDone, Timeout, Ticker]
      in (rs ! (sched w (nsel w) mod length rs), w\<lparr>now := t, nsel := Suc (nsel w)\<rparr>))"

text \<open>
  The ticker sends at \<open>ntk\<close>, \<open>ntk + d\<close>, \<open>ntk + 2 * d\<close>, ... and drops a tick when its
  buffer is full. After a receive at instant \<open>t\<close> (with \<open>ntk \<le> t\<close>) the buffer is empty, and
  the channel is ready again from the first of these instants after \<open>t\<close>.
\<close>

definition next_tick :: "nat \<Rightarrow> nat \<Rightarrow> nat \<Rightarrow> nat" where
  "next_tick d ntk t = ntk + ((t - ntk) div d + 1) * d"

text \<open>What one pass through the body of a \<^verbatim>\<open>for\<close> loop does: return, or go round again.\<close>

datatype 'a iter = Return 'a | Continue nat

section \<open>The deployer (deployer.go)\<close>

definition GetTemplateBody :: "world \<Rightarrow> string \<Rightarrow> error + string" where
  "GetTemplateBody w stackName =
     (case readFile w (outputDir w) (stackName @ ''.template.json'') of
        Inl err \<Rightarrow> Inl (Wrapf (''failed to read template for stack '' @ stackName @ '': '') err)
      | Inr data \<Rightarrow> Inr data)"

definition stackExists :: "world \<Rightarrow> string \<Rightarrow> ((bool \<times> error option) \<times> world) option" where
  "stackExists w stackName =
     (case DescribeStacks w stackName of
        None \<Rightarrow> None
      | Some (Inl err, w') \<Rightarrow> Some ((False, None), w')
      | Some (Inr ss, w') \<Rightarrow> Some ((True, None), w'))"

definition createStack ::
  "world \<Rightarrow> string \<Rightarrow> string \<Rightarrow> ((string \<times> error option) \<times> world) option" where
  "createStack w stackName templateBody =
     (case CreateStack w stackName templateBody
             [CapabilityCapabilityIam, CapabilityCapabilityNamedIam, CapabilityCapabilityAutoExpand]
             OnFailureRollback of
        None \<Rightarrow> None
      | Some (Inl err, w') \<Rightarrow> Some (([], Some (Wrapf ''failed to create stack: '' err)), w')
      | Some (Inr sid, w') \<Rightarrow> Some ((ToString sid, None), w'))"

definition updateStack ::
  "world \<Rightarrow> string \<Rightarrow> string \<Rightarrow> ((string \<times> error option) \<times> world) option" where
  "updateStack w stackName templateBody =
     (case UpdateStack w stackName templateBody
             [CapabilityCapabilityIam, CapabilityCapabilityNamedIam, CapabilityCapabilityAutoExpand] of
        None \<Rightarrow> None
      | Some (Inl err, w') \<Rightarrow> Some (([], Some (Wrapf ''failed to update stack: '' err)), w')
      | Some (Inr sid, w') \<Rightarrow> Some ((ToString sid, None), w'))"

definition getStackStatus :: "world \<Rightarrow> string \<Rightarrow> ((string \<times> error option) \<times> world) option" where
  "getStackStatus w stackName =
     (case DescribeStacks w stackName of
        None \<Rightarrow> None
      | Some (Inl err, w') \<Rightarrow> Some (([], Some (Wrapf ''failed to describe stack: '' err)), w')
      | Some (Inr ss, w') \<Rightarrow>
          (case ss of
             [] \<Rightarrow> Some (([], Some (Errorf (''stack '' @ stackName @ '' not found''))), w')
           | s # _ \<Rightarrow> Some ((StackStatus s, None), w')))"

text \<open>The two sets of statuses in the \<^verbatim>\<open>switch\<close> of \<open>waitForStack\<close>.\<close>

definition success_statuses :: "string set" where
  "success_statuses = {StackStatusCreateComplete, StackStatusUpdateComplete}"

definition failure_statuses :: "string set" where
  "failure_statuses =
     {StackStatusCreateFailed, StackStatusRollbackComplete, StackStatusRollbackFailed,
      StackStatusUpdateRollbackComplete, StackStatusUpdateRollbackFailed,
      StackStatusDeleteComplete, StackStatusDeleteFailed}"

definition waitForStack_interval :: nat where
  "waitForStack_interval = 10 * Second"

definition waitForStack_deadline :: nat where
  "waitForStack_deadline = 30 * Minute"

text \<open>
  One pass through the \<^verbatim>\<open>for\<close> loop of \<open>waitForStack\<close>: \<open>tmo\<close> is the instant at which the
  channel of \<^verbatim>\<open>time.After\<close> becomes ready, \<open>ntk\<close> the next tick of the ticker.
\<close>

definition waitForStack_iter ::
  "world \<Rightarrow> string \<Rightarrow> nat \<Rightarrow> nat \<Rightarrow> ((string \<times> error option) iter \<times> world) option" where
  "waitForStack_iter w stackName tmo ntk =
     (case select_chan w tmo ntk of
        (CtxDone, w1) \<Rightarrow> Some (Return ([], Some (ctx_Err w1)), w1)
      | (Timeout, w1) \<Rightarrow>
          Some (Return ([], Some (Errorf (''timeout waiting for stack '' @ stackName))), w1)
      | (Ticker, w1) \<Rightarrow>
          (case getStackStatus w1 stackName of
             None \<Rightarrow> None
           | Some ((status, Some err), w2) \<Rightarrow> Some (Return ([], Some err), w2)
           | Some ((status, None), w2) \<Rightarrow>
               if status = StackStatusCreateComplete \<or> status = StackStatusUpdateComplete
               then Some (Return (status, None), w2)
               else if status = StackStatusCreateFailed
                     \<or> status = StackStatusRollbackComplete
                     \<or> status = StackStatusRollbackFailed
                     \<or> status = StackStatusUpdateRollbackComplete
                     \<or> status = StackStatusUpdateRollbackFailed
                     \<or> status = StackStatusDeleteComplete
                     \<or> status = StackStatusDeleteFailed
               then Some (Return (status,
                        Some (Errorf (''stack operation failed with status: '' @ status))), w2)
               else Some (Continue (next_tick waitForStack_interval ntk (now w1)), w2)))"

lemma call_script_less:
  "call w rq = Some (a, w') \<Longrightarrow> (\<exists>err. a = Fails err) \<or> length (script w') < length (script w)"
  by (auto simp: call_def split: list.splits option.splits if_splits)

lemma select_chan_script: "script (snd (select_chan w tmo ntk)) = script w"
  by (simp add: select_chan_def Let_def)

lemma DescribeStacks_script_less:
  "DescribeStacks w n = Some (Inr ss, w') \<Longrightarrow> length (script w') < length (script w)"
  by (auto simp: DescribeStacks_def split: option.splits answer.splits dest: call_script_less)

lemma getStackStatus_script_less:
  "getStackStatus w n = Some ((st, None), w') \<Longrightarrow> length (script w') < length (script w)"
  by (auto simp: getStackStatus_def split: option.splits sum.splits list.splits
           dest: DescribeStacks_script_less)

lemma waitForStack_iter_script_less:
  assumes "waitForStack_iter w n tmo ntk = Some (Continue k, w')"
  shows "length (script w') < length (script w)"
proof -
  obtain c w1 where s: "select_chan w tmo ntk = (c, w1)"
    by (cases "select_chan w tmo ntk")
  then have "script w1 = script w"
    using select_chan_script [of w tmo ntk] by simp
  with assms s show ?thesis
    by (cases c)
       (auto simp: waitForStack_iter_def
             split: option.splits if_splits dest!: getStackStatus_script_less)
qed

function waitForStack_loop ::
  "world \<Rightarrow> string \<Rightarrow> nat \<Rightarrow> nat \<Rightarrow> ((string \<times> error option) \<times> world) option" where
  "waitForStack_loop w stackName tmo ntk =
     (case waitForStack_iter w stackName tmo ntk of
        None \<Rightarrow> None
      | Some (Return r, w') \<Rightarrow> Some (r, w')
      | Some (Continue ntk', w') \<Rightarrow> waitForStack_loop w' stackName tmo ntk')"
  by pat_completeness auto
termination
  by (relation "measure (\<lambda>(w, n, tmo, ntk). length (script w))")
     (auto dest: waitForStack_iter_script_less)

text \<open>
  \<open>waitForStack\<close>: the ticker and the timer are created on entry, so the first tick is
  one interval after entry and the deadline 30 minutes after it.
\<close>

definition waitForStack :: "world \<Rightarrow> string \<Rightarrow> ((string \<times> error option) \<times> world) option" where
  "waitForStack w stackName =
     waitForStack_loop w stackName (now w + waitForStack_deadline) (now w + waitForStack_interval)"

text \<open>
  \<open>getStackOutputs\<close>: \<^verbatim>\<open>var outputs []StackOutput\<close> starts as the nil slice, and the loop
  appends one element for each output of the first stack described.
\<close>

text \<open>The element that the loop of \<open>getStackOutputs\<close> appends for one output.\<close>

definition stackOutput :: "Output \<Rightarrow> StackOutput" where
  "stackOutput out = \<lparr>Key = ToString (OutputKey out), Value = ToString (OutputValue out)\<rparr>"

definition getStackOutputs ::
  "world \<Rightarrow> string \<Rightarrow> ((StackOutput slice \<times> error option) \<times> world) option" where
  "getStackOutputs w stackName =
     (case DescribeStacks w stackName of
        None \<Rightarrow> None
      | Some (Inl err, w') \<Rightarrow> Some ((None, Some (Wrapf ''failed to describe stack: '' err)), w')
      | Some (Inr ss, w') \<Rightarrow>
          (case ss of
             [] \<Rightarrow> Some ((None, None), w')
           | s # _ \<Rightarrow>
               Some ((foldl (\<lambda>outputs out. append_slice outputs (stackOutput out))
                        None (Stack.Outputs s), None), w')))"

definition Deploy :: "world \<Rightarrow> string \<Rightarrow> ((error + DeployResult) \<times> world) option" where
  "Deploy w stackName =
     (case GetTemplateBody w stackName of
        Inl err \<Rightarrow> Some (Inl err, w)
      | Inr templateBody \<Rightarrow>
          (case stackExists w stackName of
             None \<Rightarrow> None
           | Some ((exists, Some err), w1) \<Rightarrow> Some (Inl err, w1)
           | Some ((exists, None), w1) \<Rightarrow>
               (case (if exists then updateStack w1 stackName templateBody
                      else createStack w1 stackName templateBody) of
                  None \<Rightarrow> None
                | Some ((stackID, Some err), w2) \<Rightarrow> Some (Inl err, w2)
                | Some ((stackID, None), w2) \<Rightarrow>
                    (case waitForStack w2 stackName of
                       None \<Rightarrow> None
                     | Some ((status, Some err), w3) \<Rightarrow> Some (Inl err, w3)
                     | Some ((status, None), w3) \<Rightarrow>
                         (case getStackOutputs w3 stackName of
                            None \<Rightarrow> None
                          | Some ((outputs, Some err), w4) \<Rightarrow> Some (Inl err, w4)
                          | Some ((outputs, None), w4) \<Rightarrow>
                              Some (Inr \<lparr>DeployResult.StackName = stackName, StackID = stackID,
                                         Status = status, Outputs = outputs\<rparr>, w4))))))"

text \<open>
  \<open>DeployAll\<close>: the loop over \<open>stacks\<close>, with the slice \<open>results\<close> built so far.
\<close>

fun DeployAll_loop ::
  "world \<Rightarrow> DeployResult slice \<Rightarrow> string list
     \<Rightarrow> ((DeployResult slice \<times> error option) \<times> world) option" where
  "DeployAll_loop w results [] = Some ((results, None), w)"
| "DeployAll_loop w results (stackName # stacks) =
     (case Deploy w stackName of
        None \<Rightarrow> None
      | Some (Inl err, w') \<Rightarrow>
          Some ((results, Some (Wrapf (''failed to deploy stack '' @ stackName @ '': '') err)), w')
      | Some (Inr result, w') \<Rightarrow> DeployAll_loop w' (append_slice results result) stacks)"

definition DeployAll ::
  "world \<Rightarrow> string list \<Rightarrow> ((DeployResult slice \<times> error option) \<times> world) option" where
  "DeployAll w stacks = DeployAll_loop w None stacks"

subsection \<open>Drift detection\<close>

definition waitForDriftDetection_interval :: nat where
  "waitForDriftDetection_interval = 5 * Second"

definition waitForDriftDetection_deadline :: nat where
  "waitForDriftDetection_deadline = 10 * Minute"

definition waitForDriftDetection_iter ::
  "world \<Rightarrow> string \<Rightarrow> nat \<Rightarrow> nat \<Rightarrow> ((string \<times> error option) iter \<times> world) option" where
  "waitForDriftDetection_iter w driftDetectionId tmo ntk =
     (case select_chan w tmo ntk of
        (CtxDone, w1) \<Rightarrow> Some (Return ([], Some (ctx_Err w1)), w1)
      | (Timeout, w1) \<Rightarrow>
          Some (Return ([], Some (Errorf ''timeout waiting for drift detection'')), w1)
      | (Ticker, w1) \<Rightarrow>
          (case DescribeStackDriftDetectionStatus w1 driftDetectionId of
             None \<Rightarrow> None
           | Some (Inl err, w2) \<Rightarrow>
               Some (Return ([], Some (Wrapf ''failed to get drift detection status: '' err)), w2)
           | Some (Inr (status, statusReason), w2) \<Rightarrow>
               if status = StackDriftDetectionStatusDetectionComplete
               then Some (Return (status, None), w2)
               else if status = StackDriftDetectionStatusDetectionFailed
               then Some (Return (status,
                        Some (Errorf (''drift detection failed: '' @ ToString statusReason))), w2)
               else Some (Continue (next_tick waitForDriftDetection_interval ntk (now w1)), w2)))"

lemma DescribeStackDriftDetectionStatus_script_less:
  "DescribeStackDriftDetectionStatus w i = Some (Inr r, w') \<Longrightarrow>
     length (script w') < length (script w)"
  by (auto simp: DescribeStackDriftDetectionStatus_def split: option.splits answer.splits
           dest: call_script_less)

lemma waitForDriftDetection_iter_script_less:
  assumes "waitForDriftDetection_iter w i tmo ntk = Some (Continue k, w')"
  shows "length (script w') < length (script w)"
proof -
  obtain c w1 where s: "select_chan w tmo ntk = (c, w1)"
    by (cases "select_chan w tmo ntk")
  then have "script w1 = script w"
    using select_chan_script [of w tmo ntk] by simp
  with assms s show ?thesis
    by (cases c)
       (auto simp: waitForDriftDetection_iter_def
             split: option.splits sum.splits if_splits
             dest!: DescribeStackDriftDetectionStatus_script_less)
qed

function waitForDriftDetection_loop ::
  "world \<Rightarrow> string \<Rightarrow> nat \<Rightarrow> nat \<Rightarrow> ((string \<times> error option) \<times> world) option" where
  "waitForDriftDetection_loop w driftDetectionId tmo ntk =
     (case waitForDriftDetection_iter w driftDetectionId tmo ntk of
        None \<Rightarrow> None
      | Some (Return r, w') \<Rightarrow> Some (r, w')
      | Some (Continue ntk', w') \<Rightarrow> waitForDriftDetection_loop w' driftDetectionId tmo ntk')"
  by pat_completeness auto
termination
  by (relation "measure (\<lambda>(w, i, tmo, ntk). length (script w))")
     (auto dest: waitForDriftDetection_iter_script_less)

definition waitForDriftDetection ::
  "world \<Rightarrow> string \<Rightarrow> ((string \<times> error option) \<times> world) option" where
  "waitForDriftDetection w driftDetectionId =
     waitForDriftDetection_loop w driftDetectionId
       (now w + waitForDriftDetection_deadline) (now w + waitForDriftDetection_interval)"

text \<open>
  The bodies of the two loops of \<open>getDriftResults\<close>: the element appended for one
  property difference, and the entry built for one drift record, its property
  differences appended in their order.
\<close>

definition propertyDiff :: "PropertyDifference \<Rightarrow> PropertyDiff" where
  "propertyDiff pd =
     \<lparr>PropertyPath = ToString (PropertyDifference.PropertyPath pd),
      ExpectedValue = ToString (PropertyDifference.ExpectedValue pd),
      ActualValue = ToString (PropertyDifference.ActualValue pd),
      DifferenceType = PropertyDifference.DifferenceType pd\<rparr>"

definition driftedResource :: "StackResourceDrift \<Rightarrow> DriftedResource" where
  "driftedResource rd =
     \<lparr>LogicalID = ToString (LogicalResourceId rd),
      PhysicalID = ToString (PhysicalResourceId rd),
      ResourceType = ToString (StackResourceDrift.ResourceType rd),
      DriftStatus = StackResourceDriftStatus rd,
      PropertyDiffs =
        foldl (\<lambda>diffs pd. append_slice diffs (propertyDiff pd)) None (PropertyDifferences rd)\<rparr>"

text \<open>
  \<open>getDriftResults\<close>. \<^verbatim>\<open>stack.DriftInformation\<close> is a pointer: reading its field panics
  when it is nil, before the second request is sent.
\<close>

definition getDriftResults :: "world \<Rightarrow> string \<Rightarrow> ((error + DriftResult) \<times> world) option" where
  "getDriftResults w stackName =
     (case DescribeStacks w stackName of
        None \<Rightarrow> None
      | Some (Inl err, w1) \<Rightarrow> Some (Inl (Wrapf ''failed to describe stack: '' err), w1)
      | Some (Inr ss, w1) \<Rightarrow>
          (case ss of
             [] \<Rightarrow> Some (Inl (Errorf (''stack '' @ stackName @ '' not found'')), w1)
           | stack # _ \<Rightarrow>
               (case DriftInformation stack of
                  None \<Rightarrow> None
                | Some di \<Rightarrow>
                    (case DescribeStackResourceDrifts w1 stackName
                            [StackResourceDriftStatusModified, StackResourceDriftStatusDeleted,
                             StackResourceDriftStatusNotChecked] of
                       None \<Rightarrow> None
                     | Some (Inl err, w2) \<Rightarrow>
                         Some (Inl (Wrapf ''failed to get resource drifts: '' err), w2)
                     | Some (Inr rds, w2) \<Rightarrow>
                         Some (Inr \<lparr>DriftResult.StackName = stackName,
                                    DriftStatus = StackDriftStatus di,
                                    DriftedResources =
                                      foldl (\<lambda>rs rd. append_slice rs (driftedResource rd)) None rds\<rparr>,
                               w2)))))"

definition DetectDrift :: "world \<Rightarrow> string \<Rightarrow> ((error + DriftResult) \<times> world) option" where
  "DetectDrift w stackName =
     (case stackExists w stackName of
        None \<Rightarrow> None
      | Some ((exists, Some err), w1) \<Rightarrow> Some (Inl err, w1)
      | Some ((exists, None), w1) \<Rightarrow>
          if \<not> exists then Some (Inl (Errorf (''stack '' @ stackName @ '' does not exist'')), w1)
          else
            (case DetectStackDrift w1 stackName of
               None \<Rightarrow> None
             | Some (Inl err, w2) \<Rightarrow>
                 Some (Inl (Wrapf ''failed to initiate drift detection: '' err), w2)
             | Some (Inr detectionId, w2) \<Rightarrow>
                 (case waitForDriftDetection w2 (ToString detectionId) of
                    None \<Rightarrow> None
                  | Some ((status, Some err), w3) \<Rightarrow> Some (Inl err, w3)
                  | Some ((status, None), w3) \<Rightarrow>
                      if status \<noteq> StackDriftDetectionStatusDetectionComplete
                      then Some (Inl (Errorf (''drift detection failed with status: '' @ status)), w3)
                      else getDriftResults w3 stackName)))"

fun DetectDriftAll_loop ::
  "world \<Rightarrow> DriftResult slice \<Rightarrow> string list
     \<Rightarrow> ((DriftResult slice \<times> error option) \<times> world) option" where
  "DetectDriftAll_loop w results [] = Some ((results, None), w)"
| "DetectDriftAll_loop w results (stackName # stacks) =
     (case DetectDrift w stackName of
        None \<Rightarrow> None
      | Some (Inl err, w') \<Rightarrow>
          Some ((results,
                 Some (Wrapf (''failed to detect drift for stack '' @ stackName @ '': '') err)), w')
      | Some (Inr result, w') \<Rightarrow> DetectDriftAll_loop w' (append_slice results result) stacks)"

definition DetectDriftAll ::
  "world \<Rightarrow> string list \<Rightarrow> ((DriftResult slice \<times> error option) \<times> world) option" where
  "DetectDriftAll w stacks = DetectDriftAll_loop w None stacks"

section \<open>Derived views of the loop bodies\<close>

text \<open>
  The \<^verbatim>\<open>switch\<close> of \<open>waitForStack\<close> on its own, applied to the result of \<open>getStackStatus\<close>;
  \<open>waitForStack_iter_Ticker\<close> below shows that the loop body does exactly this.
\<close>

definition waitForStack_switch ::
  "string \<times> error option \<Rightarrow> nat \<Rightarrow> (string \<times> error option) iter" where
  "waitForStack_switch r k =
     (case r of
        (status, Some err) \<Rightarrow> Return ([], Some err)
      | (status, None) \<Rightarrow>
          if status \<in> success_statuses then Return (status, None)
          else if status \<in> failure_statuses
          then Return (status, Some (Errorf (''stack operation failed with status: '' @ status)))
          else Continue k)"

text \<open>
  The \<^verbatim>\<open>switch\<close> of \<open>waitForDriftDetection\<close> on its own, applied to the result of the
  status call; \<open>waitForDriftDetection_iter_Ticker\<close> below shows that the loop body does
  exactly this.
\<close>

definition waitForDriftDetection_switch ::
  "error + string \<times> string option \<Rightarrow> nat \<Rightarrow> (string \<times> error option) iter" where
  "waitForDriftDetection_switch r k =
     (case r of
        Inl err \<Rightarrow> Return ([], Some (Wrapf ''failed to get drift detection status: '' err))
      | Inr (status, statusReason) \<Rightarrow>
          if status = StackDriftDetectionStatusDetectionComplete then Return (status, None)
          else if status = StackDriftDetectionStatusDetectionFailed
          then Return (status, Some (Errorf (''drift detection failed: '' @ ToString statusReason)))
          else Continue k)"

section \<open>The batch, in the words of the spec\<close>

text \<open>
  The spec's words for a batch in which every identifier succeeds: the workflow \<open>f\<close>
  runs for each identifier of the list in order, each run starting in the world that
  the one before left, and each returns an outcome; the outcomes are collected in order.
\<close>

fun all_succeed ::
  "(world \<Rightarrow> string \<Rightarrow> ((error + 'a) \<times> world) option) \<Rightarrow> world \<Rightarrow> string list
     \<Rightarrow> ('a list \<times> world) option" where
  "all_succeed f w [] = Some ([], w)"
| "all_succeed f w (n # ns) =
     (case f w n of
        Some (Inr r, w1) \<Rightarrow>
          (case all_succeed f w1 ns of
             Some (rs, w2) \<Rightarrow> Some (r # rs, w2)
           | None \<Rightarrow> None)
      | _ \<Rightarrow> None)"

text \<open>The slice that \<^verbatim>\<open>append\<close> builds from the nil slice and the elements of a list.\<close>

definition slice_of :: "'a list \<Rightarrow> 'a slice" where
  "slice_of xs = foldl append_slice None xs"

text \<open>
  The two batch loops are one loop, over the workflow and the prefix of the error message.
\<close>

fun batch_loop ::
  "(world \<Rightarrow> string \<Rightarrow> ((error + 'a) \<times> world) option) \<Rightarrow> string \<Rightarrow> world \<Rightarrow> 'a slice
     \<Rightarrow> string list \<Rightarrow> (('a slice \<times> error option) \<times> world) option" where
  "batch_loop f msg w results [] = Some ((results, None), w)"
| "batch_loop f msg w results (stackName # stacks) =
     (case f w stackName of
        None \<Rightarrow> None
      | Some (Inl err, w') \<Rightarrow> Some ((results, Some (Wrapf (msg @ stackName @ '': '') err)), w')
      | Some (Inr result, w') \<Rightarrow> batch_loop f msg w' (append_slice results result) stacks)"

text \<open>
  The requests that a poller sends between two worlds: only status polls, none before the
  instant \<open>t0\<close>; the clock does not go back and the context is the same.
\<close>

definition polls_from :: "request \<Rightarrow> nat \<Rightarrow> world \<Rightarrow> world \<Rightarrow> bool" where
  "polls_from rq t0 w w' =
     (now w \<le> now w' \<and> cancel_at w' = cancel_at w \<and> ctx_cause w' = ctx_cause w
      \<and> (\<exists>ts. calls w' = calls w @ map (\<lambda>t. (t, rq)) ts \<and> list_all (\<lambda>t. t0 \<le> t) ts))"

text \<open>
  An entry of the script that a poll of \<open>waitForStack\<close> goes on after: the stack is
  described and its status is neither a success nor a failure status.
\<close>

definition pending :: "nat \<times> answer \<Rightarrow> bool" where
  "pending la =
     (case snd la of
        Stacks (s # ss) \<Rightarrow> StackStatus s \<notin> success_statuses \<and> StackStatus s \<notin> failure_statuses
      | _ \<Rightarrow> False)"

text \<open>The instants \<open>t\<close>, \<open>t + d\<close>, ..., \<open>t + (k - 1) * d\<close>: those of \<open>k\<close> ticks from \<open>t\<close> on.\<close>

fun instants :: "nat \<Rightarrow> nat \<Rightarrow> nat \<Rightarrow> nat list" where
  "instants t d 0 = []"
| "instants t d (Suc k) = t # instants (t + d) d k"

text \<open>What \<open>waitForStack\<close> returns for a success or a failure status.\<close>

definition status_result :: "string \<Rightarrow> string \<times> error option" where
  "status_result status =
     (status,
      if status \<in> success_statuses then None
      else Some (Errorf (''stack operation failed with status: '' @ status)))"

text \<open>
  An entry of the script that a poll of \<open>waitForDriftDetection\<close> goes on after: the
  detection is reported with a status that is neither complete nor failed.
\<close>

definition detecting :: "nat \<times> answer \<Rightarrow> bool" where
  "detecting la =
     (case snd la of
        DetectionStatus st reason \<Rightarrow>
          st \<noteq> StackDriftDetectionStatusDetectionComplete
          \<and> st \<noteq> StackDriftDetectionStatusDetectionFailed
      | _ \<Rightarrow> False)"

text \<open>What \<open>waitForDriftDetection\<close> returns for the complete or the failed status.\<close>

definition detection_result :: "string \<Rightarrow> string option \<Rightarrow> string \<times> error option" where
  "detection_result status statusReason =
     (status,
      if status = StackDriftDetectionStatusDetectionComplete then None
      else Some (Errorf (''drift detection failed: '' @ ToString statusReason)))"

section \<open>Example worlds\<close>

text \<open>
  A world for the examples: the clock at 0, a context that is never cancelled, the given
  script, and a synthesizer output directory in which every template reads as \<open>{}\<close>.
\<close>

definition example_world :: "(nat \<times> answer) list \<Rightarrow> world" where
  "example_world sc =
     \<lparr>now = 0, cancel_at = None, ctx_cause = CauseCanceled, script = sc, calls = [],
      sched = (\<lambda>n. 0), nsel = 0, outputDir = ''cdk.out'',
      readFile = (\<lambda>dir name. Inr ''{}'')\<rparr>"

text \<open>
  The example: stack \<open>Net\<close> does not exist, the create request is accepted, the first
  poll sees \<open>CREATE_COMPLETE\<close>, and the stack has the two outputs \<open>K1 = V1\<close> and
  \<open>K2 = V2\<close>.
\<close>

definition deploy_example :: world where
  "deploy_example =
     example_world
       [(1, Fails (Remote ''Stack with id Net does not exist'')),
        (1, StackId (Some ''arn:stack/Net'')),
        (1, Stacks [\<lparr>StackStatus = ''CREATE_COMPLETE'', Outputs = [], DriftInformation = None\<rparr>]),
        (1, Stacks [\<lparr>StackStatus = ''CREATE_COMPLETE'',
                     Outputs = [\<lparr>OutputKey = Some ''K1'', OutputValue = Some ''V1''\<rparr>,
                                \<lparr>OutputKey = Some ''K2'', OutputValue = Some ''V2''\<rparr>],
                     DriftInformation = None\<rparr>])]"

text \<open>
  The example: the stack \<open>Net\<close> has drifted; of its two resources the function is modified
  in one property and the bucket is in sync.
\<close>

definition drift_example :: world where
  "drift_example =
     example_world
       [(1, Stacks [\<lparr>StackStatus = ''UPDATE_COMPLETE'', Outputs = [],
                     DriftInformation = Some \<lparr>StackDriftStatus = ''DRIFTED''\<rparr>\<rparr>]),
        (1, ResourceDrifts
              [\<lparr>LogicalResourceId = Some ''Fn'', PhysicalResourceId = Some ''fn-1'',
                StackResourceDrift.ResourceType = Some ''AWS::Lambda::Function'',
                StackResourceDriftStatus = ''MODIFIED'',
                PropertyDifferences =
                  [\<lparr>PropertyDifference.PropertyPath = Some ''Properties.Timeout'',
                    PropertyDifference.ExpectedValue = Some ''30'',
                    PropertyDifference.ActualValue = Some ''60'',
                    PropertyDifference.DifferenceType = ''NOT_EQUAL''\<rparr>]\<rparr>,
               \<lparr>LogicalResourceId = Some ''Bucket'', PhysicalResourceId = Some ''bucket-1'',
                StackResourceDrift.ResourceType = Some ''AWS::S3::Bucket'',
                StackResourceDriftStatus = ''IN_SYNC'',
                PropertyDifferences = []\<rparr>])]"

text \<open>The example for the pollers: the first poll of stack \<open>Net\<close> sees the given status.\<close>

definition poll_example :: "string \<Rightarrow> world" where
  "poll_example status =
     example_world [(1, Stacks [\<lparr>StackStatus = status, Outputs = [], DriftInformation = None\<rparr>])]"

text \<open>
  The example for the drift poller: the first poll of the detection sees the given status
  and reason.
\<close>

definition drift_poll_example :: "string \<Rightarrow> string option \<Rightarrow> world" where
  "drift_poll_example status statusReason =
     example_world [(1, DetectionStatus status statusReason)]"

text \<open>
  The examples for the batches, over the stacks \<open>A\<close>, \<open>B\<close> and \<open>C\<close>. In the first, \<open>A\<close> is
  created and completes with no outputs, the create request for \<open>B\<close> is rejected, and one
  more answer is held ready. In the second, the drift of \<open>A\<close> is detected, with no
  resource drifted, the existence query for \<open>B\<close> fails, and one more answer is held ready.
\<close>

definition batch_example :: world where
  "batch_example =
     example_world
       [(1, Fails (Remote ''Stack with id A does not exist'')),
        (1, StackId (Some ''arn:stack/A'')),
        (1, Stacks [\<lparr>StackStatus = ''CREATE_COMPLETE'', Outputs = [], DriftInformation = None\<rparr>]),
        (1, Stacks [\<lparr>StackStatus = ''CREATE_COMPLETE'', Outputs = [], DriftInformation = None\<rparr>]),
        (1, Fails (Remote ''Stack with id B does not exist'')),
        (1, Fails (Remote ''Template format error'')),
        (1, Fails (Remote ''Stack with id C does not exist''))]"

definition drift_batch_example :: world where
  "drift_batch_example =
     example_world
       [(1, Stacks [\<lparr>StackStatus = ''CREATE_COMPLETE'', Outputs = [], DriftInformation = None\<rparr>]),
        (1, StackDriftDetectionId (Some ''d-1'')),
        (1, DetectionStatus ''DETECTION_COMPLETE'' None),
        (1, Stacks [\<lparr>StackStatus = ''CREATE_COMPLETE'', Outputs = [],
                     DriftInformation = Some \<lparr>StackDriftStatus = ''IN_SYNC''\<rparr>\<rparr>]),
        (1, ResourceDrifts []),
        (1, Fails (Remote ''Stack with id B does not exist'')),
        (1, Stacks [\<lparr>StackStatus = ''CREATE_COMPLETE'', Outputs = [], DriftInformation = None\<rparr>])]"

text \<open>
  Two runs of \<open>waitForStack\<close> on stack \<open>Net\<close>. In the first, 178 polls, answered in 200
  milliseconds each, see the creation in progress, and the poll of the tick at 1790
  seconds is answered after 15 seconds, at 1805 seconds, with \<open>CREATE_COMPLETE\<close>. In the
  second, the answer to the only poll, sent at 10 seconds, takes 200 milliseconds, and
  the context is cancelled at 10.1 seconds, while the poll is in flight.
\<close>

definition late_status_example :: world where
  "late_status_example =
     example_world
       (replicate 178
          (200 * Millisecond,
           Stacks [\<lparr>StackStatus = ''CREATE_IN_PROGRESS'', Outputs = [], DriftInformation = None\<rparr>])
        @ [(15 * Second,
            Stacks [\<lparr>StackStatus = ''CREATE_COMPLETE'', Outputs = [], DriftInformation = None\<rparr>])])"

definition cancel_in_flight_example :: world where
  "cancel_in_flight_example =
     example_world
       [(200 * Millisecond,
         Stacks [\<lparr>StackStatus = ''CREATE_COMPLETE'', Outputs = [], DriftInformation = None\<rparr>])]
       \<lparr>cancel_at := Some (10 * Second + 100 * Millisecond)\<rparr>"

text \<open>
  A run that times out: the only poll, sent at 10 seconds, is answered after 1800 seconds
  with the creation still in progress; the deadline and a tick are then both ready, and
  the \<^verbatim>\<open>select\<close> takes the first of the cases that are ready.
\<close>

definition timeout_example :: world where
  "timeout_example =
     example_world
       [(1800 * Second,
         Stacks [\<lparr>StackStatus = ''CREATE_IN_PROGRESS'', Outputs = [], DriftInformation = None\<rparr>])]"



text \<open>
  The detection \<open>d-1\<close> is reported in progress twice and then complete; and in progress
  once and then failed, for the reason \<open>access denied\<close>. Each answer takes a nanosecond.
\<close>

definition detection_scenario :: world where
  "detection_scenario =
     example_world
       [(1, DetectionStatus ''DETECTION_IN_PROGRESS'' None),
        (1, DetectionStatus ''DETECTION_IN_PROGRESS'' None),
        (1, DetectionStatus ''DETECTION_COMPLETE'' None)]"

definition detection_failed_scenario :: world where
  "detection_failed_scenario =
     example_world
       [(1, DetectionStatus ''DETECTION_IN_PROGRESS'' None),
        (1, DetectionStatus ''DETECTION_FAILED'' (Some ''access denied''))]"

section \<open>Auxiliary facts\<close>

lemma foldl_append_slice:
  "foldl (\<lambda>s x. append_slice s (f x)) s xs = (if xs = [] then s else Some (elems s @ map f xs))"
  by (induction xs arbitrary: s) (auto simp: append_slice_def elems_def split: option.splits)

lemma elems_foldl_append_slice:
  "elems (foldl (\<lambda>s x. append_slice s (f x)) None xs) = map f xs"
  by (simp add: foldl_append_slice elems_def)

lemma foldl_append_slice_nil:
  "(foldl (\<lambda>s x. append_slice s (f x)) None xs = None) = (xs = [])"
  by (simp add: foldl_append_slice)

lemmas duration_defs = Second_def Millisecond_def Microsecond_def Nanosecond_def Minute_def
  waitForStack_interval_def waitForStack_deadline_def
  waitForDriftDetection_interval_def waitForDriftDetection_deadline_def

lemmas status_defs = StackStatusCreateComplete_def StackStatusUpdateComplete_def
  StackStatusCreateFailed_def StackStatusRollbackComplete_def StackStatusRollbackFailed_def
  StackStatusUpdateRollbackComplete_def StackStatusUpdateRollbackFailed_def
  StackStatusDeleteComplete_def StackStatusDeleteFailed_def
  StackDriftDetectionStatusDetectionComplete_def StackDriftDetectionStatusDetectionFailed_def
  StackResourceDriftStatusModified_def StackResourceDriftStatusDeleted_def
  StackResourceDriftStatusNotChecked_def

text \<open>While the context is not cancelled, no call is given up.\<close>

lemma alive_call:
  assumes "alive w (now w + l)"
  shows "\<not> aborted w l" and "returns_at w l = now w + l"
  using assms by (auto simp: alive_def aborted_def returns_at_def split: option.splits)

lemma call_script:
  assumes "script w = (l, a) # rest" and "alive w (now w + l)"
  shows "call w rq = Some (a, w\<lparr>now := now w + l, script := rest,
                                calls := calls w @ [(now w, rq)]\<rparr>)"
  using assms alive_call [OF assms(2)] by (simp add: call_def)

text \<open>A client call answers from the head of the script.\<close>

lemma DescribeStacks_script:
  assumes "script w = (l, a) # rest" and "alive w (now w + l)"
  shows "DescribeStacks w n =
     (case a of
        Fails err \<Rightarrow> Some (Inl err, w\<lparr>now := now w + l, script := rest,
                                    calls := calls w @ [(now w, DescribeStacksInput n)]\<rparr>)
      | Stacks ss \<Rightarrow> Some (Inr ss, w\<lparr>now := now w + l, script := rest,
                                    calls := calls w @ [(now w, DescribeStacksInput n)]\<rparr>)
      | _ \<Rightarrow> None)"
  by (simp add: DescribeStacks_def call_script [OF assms] split: answer.splits)

lemma DescribeStackResourceDrifts_script:
  assumes "script w = (l, a) # rest" and "alive w (now w + l)"
  shows "DescribeStackResourceDrifts w n fs =
     (case a of
        Fails err \<Rightarrow> Some (Inl err, w\<lparr>now := now w + l, script := rest,
                      calls := calls w @ [(now w, DescribeStackResourceDriftsInput n fs)]\<rparr>)
      | ResourceDrifts rds \<Rightarrow>
          Some (Inr (filter (\<lambda>rd. StackResourceDriftStatus rd \<in> set fs) rds),
                w\<lparr>now := now w + l, script := rest,
                  calls := calls w @ [(now w, DescribeStackResourceDriftsInput n fs)]\<rparr>)
      | _ \<Rightarrow> None)"
  by (simp add: DescribeStackResourceDrifts_def call_script [OF assms] split: answer.splits)

lemma returns_at_ge: "now w \<le> returns_at w l"
  by (simp add: returns_at_def split: option.splits)

lemma call_facts:
  assumes "call w rq = Some (a, w')"
  shows "calls w' = calls w @ [(now w, rq)]" and "now w \<le> now w'"
    and "cancel_at w' = cancel_at w" and "ctx_cause w' = ctx_cause w"
    and "(\<exists>err. a = Fails err) \<or> (\<exists>l. script w = (l, a) # script w' \<and> now w' = now w + l)"
    and "sched w' = sched w" and "nsel w' = nsel w"
    and "outputDir w' = outputDir w" and "readFile w' = readFile w"
  using assms
  by (auto simp: call_def returns_at_def aborted_def
           split: list.splits option.splits if_splits)

lemma DescribeStacks_facts:
  assumes "DescribeStacks w n = Some (r, w')"
  shows "calls w' = calls w @ [(now w, DescribeStacksInput n)]" and "now w \<le> now w'"
    and "cancel_at w' = cancel_at w" and "ctx_cause w' = ctx_cause w"
    and "case r of Inl err \<Rightarrow> True
         | Inr ss \<Rightarrow> \<exists>l. script w = (l, Stacks ss) # script w' \<and> now w' = now w + l"
proof -
  from assms obtain a where c: "call w (DescribeStacksInput n) = Some (a, w')"
    and a: "case a of Fails err \<Rightarrow> r = Inl err | Stacks ss \<Rightarrow> r = Inr ss | _ \<Rightarrow> False"
    by (auto simp: DescribeStacks_def split: option.splits answer.splits)
  note f = call_facts [OF c]
  show "calls w' = calls w @ [(now w, DescribeStacksInput n)]" by (rule f)
  show "now w \<le> now w'" by (rule f)
  show "cancel_at w' = cancel_at w" by (rule f)
  show "ctx_cause w' = ctx_cause w" by (rule f)
  from f(5) a show "case r of Inl err \<Rightarrow> True
         | Inr ss \<Rightarrow> \<exists>l. script w = (l, Stacks ss) # script w' \<and> now w' = now w + l"
    by (auto split: answer.splits sum.splits)
qed

lemma ready_wake: "\<exists>c. ready w tmo ntk (wake w tmo ntk) c"
proof (cases "tmo \<le> wake w tmo ntk")
  case True
  then have "ready w tmo ntk (wake w tmo ntk) Timeout" by simp
  then show ?thesis ..
next
  case False
  show ?thesis
  proof (cases "ntk \<le> wake w tmo ntk")
    case True
    then have "ready w tmo ntk (wake w tmo ntk) Ticker" by simp
    then show ?thesis ..
  next
    case False
    with \<open>\<not> tmo \<le> wake w tmo ntk\<close> have "ready w tmo ntk (wake w tmo ntk) CtxDone"
      by (auto simp: wake_def split: option.splits)
    then show ?thesis ..
  qed
qed

lemma select_chan_facts:
  assumes "select_chan w tmo ntk = (c, w1)"
  shows "w1 = w\<lparr>now := wake w tmo ntk, nsel := Suc (nsel w)\<rparr>"
    and "ready w tmo ntk (wake w tmo ntk) c"
proof -
  let ?rs = "filter (ready w tmo ntk (wake w tmo ntk)) [CtxDone, Timeout, Ticker]"
  from assms show "w1 = w\<lparr>now := wake w tmo ntk, nsel := Suc (nsel w)\<rparr>"
    by (simp add: select_chan_def Let_def)
  obtain d where "ready w tmo ntk (wake w tmo ntk) d"
    using ready_wake by blast
  moreover have "d \<in> set [CtxDone, Timeout, Ticker]"
    by (cases d) simp_all
  ultimately have "d \<in> set ?rs"
    by (simp only: set_filter) blast
  then have "0 < length ?rs"
    by (cases ?rs) auto
  then have "?rs ! (sched w (nsel w) mod length ?rs) \<in> set ?rs"
    by (intro nth_mem) simp
  moreover have "c = ?rs ! (sched w (nsel w) mod length ?rs)"
    using assms by (simp add: select_chan_def Let_def)
  ultimately have "c \<in> set ?rs" by simp
  then show "ready w tmo ntk (wake w tmo ntk) c"
    by (simp only: set_filter) blast
qed

lemma now_le_wake: "now w \<le> wake w tmo ntk"
  by (simp add: wake_def)

lemma next_tick_bounds:
  assumes "0 < d" and "ntk \<le> t"
  shows "t < next_tick d ntk t" and "next_tick d ntk t \<le> t + d"
proof -
  let ?q = "(t - ntk) div d"
  have a: "?q * d \<le> t - ntk"
    by simp
  have b: "t - ntk < ?q * d + d"
    using assms(1) by (metis add.commute dividend_less_div_times mult.commute)
  have c: "next_tick d ntk t = ntk + ?q * d + d"
    by (simp add: next_tick_def)
  show "t < next_tick d ntk t"
    using assms(2) b unfolding c by linarith
  show "next_tick d ntk t \<le> t + d"
    using assms(2) a unfolding c by linarith
qed

lemma waitForStack_iter_Return:
  assumes "waitForStack_iter w n tmo ntk = Some (Return (st, e), w')"
  shows "(e = None \<longrightarrow> st \<in> success_statuses)
       \<and> (st \<noteq> [] \<longrightarrow> e \<noteq> None \<longrightarrow> st \<in> failure_statuses
              \<and> e = Some (Errorf (''stack operation failed with status: '' @ st)))"
proof -
  obtain c w1 where s: "select_chan w tmo ntk = (c, w1)"
    by (cases "select_chan w tmo ntk")
  show ?thesis
    using assms s
    by (cases c)
       (auto simp: waitForStack_iter_def success_statuses_def failure_statuses_def
             split: option.splits if_splits)
qed

lemma waitForStack_loop_Return:
  "waitForStack_loop w n tmo ntk = Some ((st, e), w') \<Longrightarrow>
     (e = None \<longrightarrow> st \<in> success_statuses)
     \<and> (st \<noteq> [] \<longrightarrow> e \<noteq> None \<longrightarrow> st \<in> failure_statuses
            \<and> e = Some (Errorf (''stack operation failed with status: '' @ st)))"
proof (induction w n tmo ntk rule: waitForStack_loop.induct)
  case (1 w n tmo ntk)
  show ?case
  proof (cases "waitForStack_iter w n tmo ntk")
    case None
    with "1.prems" show ?thesis by simp
  next
    case (Some p)
    obtain x w1 where p: "p = (x, w1)" by (cases p)
    show ?thesis
    proof (cases x)
      case (Return r)
      with Some p "1.prems" have "waitForStack_iter w n tmo ntk = Some (Return (st, e), w')"
        by simp
      then show ?thesis by (rule waitForStack_iter_Return)
    next
      case (Continue k)
      with Some p "1.prems" have "waitForStack_loop w1 n tmo k = Some ((st, e), w')"
        by simp
      with Some p Continue show ?thesis
        by (intro "1.IH") simp_all
    qed
  qed
qed

lemma getStackStatus_facts:
  assumes "getStackStatus w n = Some (r, w')"
  shows "calls w' = calls w @ [(now w, DescribeStacksInput n)]" and "now w \<le> now w'"
    and "cancel_at w' = cancel_at w" and "ctx_cause w' = ctx_cause w"
    and "(\<exists>err. r = ([], Some (Wrapf ''failed to describe stack: '' err)))
         \<or> r = ([], Some (Errorf (''stack '' @ n @ '' not found'')))
         \<or> (\<exists>l s ss. script w = (l, Stacks (s # ss)) # script w' \<and> now w' = now w + l
               \<and> r = (StackStatus s, None))"
proof -
  from assms obtain q where d: "DescribeStacks w n = Some (q, w')"
    by (auto simp: getStackStatus_def split: option.splits sum.splits list.splits)
  note f = DescribeStacks_facts [OF d]
  show "calls w' = calls w @ [(now w, DescribeStacksInput n)]" by (rule f)
  show "now w \<le> now w'" by (rule f)
  show "cancel_at w' = cancel_at w" by (rule f)
  show "ctx_cause w' = ctx_cause w" by (rule f)
  from assms d f(5)
  show "(\<exists>err. r = ([], Some (Wrapf ''failed to describe stack: '' err)))
         \<or> r = ([], Some (Errorf (''stack '' @ n @ '' not found'')))
         \<or> (\<exists>l s ss. script w = (l, Stacks (s # ss)) # script w' \<and> now w' = now w + l
               \<and> r = (StackStatus s, None))"
    by (auto simp: getStackStatus_def split: sum.splits list.splits)
qed

lemma waitForStack_iter_Ticker:
  assumes "select_chan w tmo ntk = (Ticker, w1)"
  shows "waitForStack_iter w n tmo ntk =
     (case getStackStatus w1 n of
        None \<Rightarrow> None
      | Some (r, w2) \<Rightarrow>
          Some (waitForStack_switch r (next_tick waitForStack_interval ntk (now w1)), w2))"
  using assms
  by (auto simp: waitForStack_iter_def waitForStack_switch_def success_statuses_def
        failure_statuses_def split: option.splits)

lemma waitForStack_iter_cases [consumes 1, case_names ctx timeout tick]:
  assumes "waitForStack_iter w n tmo ntk = Some (x, w')"
  obtains
    c where "cancel_at w = Some c" and "c \<le> wake w tmo ntk"
      and "x = Return ([], Some (ctx_Err w))"
      and "w' = w\<lparr>now := wake w tmo ntk, nsel := Suc (nsel w)\<rparr>"
  | "tmo \<le> wake w tmo ntk"
      and "x = Return ([], Some (Errorf (''timeout waiting for stack '' @ n)))"
      and "w' = w\<lparr>now := wake w tmo ntk, nsel := Suc (nsel w)\<rparr>"
  | r where "ntk \<le> wake w tmo ntk"
      and "getStackStatus (w\<lparr>now := wake w tmo ntk, nsel := Suc (nsel w)\<rparr>) n = Some (r, w')"
      and "x = waitForStack_switch r (next_tick waitForStack_interval ntk (wake w tmo ntk))"
proof -
  obtain c w1 where s: "select_chan w tmo ntk = (c, w1)"
    by (cases "select_chan w tmo ntk")
  note f = select_chan_facts [OF s]
  show thesis
  proof (cases c)
    case CtxDone
    with f(2) obtain t where "cancel_at w = Some t" and "t \<le> wake w tmo ntk"
      by (auto split: option.splits)
    moreover from assms s CtxDone f(1)
    have "x = Return ([], Some (ctx_Err w))" and "w' = w\<lparr>now := wake w tmo ntk, nsel := Suc (nsel w)\<rparr>"
      by (auto simp: waitForStack_iter_def ctx_Err_def)
    ultimately show thesis by (rule that(1))
  next
    case Timeout
    with f(2) have "tmo \<le> wake w tmo ntk" by simp
    moreover from assms s Timeout f(1)
    have "x = Return ([], Some (Errorf (''timeout waiting for stack '' @ n)))"
      and "w' = w\<lparr>now := wake w tmo ntk, nsel := Suc (nsel w)\<rparr>"
      by (auto simp: waitForStack_iter_def)
    ultimately show thesis by (rule that(2))
  next
    case Ticker
    with f(2) have t: "ntk \<le> wake w tmo ntk" by simp
    from assms waitForStack_iter_Ticker [OF s [unfolded Ticker], of n]
    obtain r where g: "getStackStatus w1 n = Some (r, w')"
      and "x = waitForStack_switch r (next_tick waitForStack_interval ntk (now w1))"
      by (auto split: option.splits)
    with f(1)
    have "x = waitForStack_switch r (next_tick waitForStack_interval ntk (wake w tmo ntk))"
      by simp
    with t g f(1) show thesis by (intro that(3)) simp_all
  qed
qed


lemma waitForStack_interval_pos: "0 < waitForStack_interval"
  by (simp add: duration_defs)

lemmas eval_defs = aborted_def returns_at_def example_world_def Deploy_def GetTemplateBody_def stackExists_def
  createStack_def updateStack_def CreateStack_def UpdateStack_def
  waitForStack_def waitForStack_iter_def select_chan_def wake_def next_tick_def
  getStackStatus_def getStackOutputs_def DescribeStacks_def call_def
  stackOutput_def append_slice_def ToString_def elems_def len_def
  duration_defs status_defs CapabilityCapabilityIam_def CapabilityCapabilityNamedIam_def
  CapabilityCapabilityAutoExpand_def OnFailureRollback_def



lemma DescribeStackDriftDetectionStatus_facts:
  assumes "DescribeStackDriftDetectionStatus w i = Some (r, w')"
  shows "calls w' = calls w @ [(now w, DescribeStackDriftDetectionStatusInput i)]"
    and "now w \<le> now w'"
    and "cancel_at w' = cancel_at w" and "ctx_cause w' = ctx_cause w"
    and "case r of Inl err \<Rightarrow> True
         | Inr (st, reason) \<Rightarrow>
             \<exists>l. script w = (l, DetectionStatus st reason) # script w' \<and> now w' = now w + l"
proof -
  from assms obtain a where c: "call w (DescribeStackDriftDetectionStatusInput i) = Some (a, w')"
    and a: "case a of Fails err \<Rightarrow> r = Inl err
            | DetectionStatus st reason \<Rightarrow> r = Inr (st, reason) | _ \<Rightarrow> False"
    by (auto simp: DescribeStackDriftDetectionStatus_def split: option.splits answer.splits)
  note f = call_facts [OF c]
  show "calls w' = calls w @ [(now w, DescribeStackDriftDetectionStatusInput i)]" by (rule f)
  show "now w \<le> now w'" by (rule f)
  show "cancel_at w' = cancel_at w" by (rule f)
  show "ctx_cause w' = ctx_cause w" by (rule f)
  from f(5) a show "case r of Inl err \<Rightarrow> True
         | Inr (st, reason) \<Rightarrow>
             \<exists>l. script w = (l, DetectionStatus st reason) # script w' \<and> now w' = now w + l"
    by (auto split: answer.splits sum.splits)
qed

lemma waitForDriftDetection_iter_Ticker:
  assumes "select_chan w tmo ntk = (Ticker, w1)"
  shows "waitForDriftDetection_iter w i tmo ntk =
     (case DescribeStackDriftDetectionStatus w1 i of
        None \<Rightarrow> None
      | Some (r, w2) \<Rightarrow>
          Some (waitForDriftDetection_switch r
                  (next_tick waitForDriftDetection_interval ntk (now w1)), w2))"
  using assms
  by (auto simp: waitForDriftDetection_iter_def waitForDriftDetection_switch_def
           split: option.splits sum.splits)

lemma waitForDriftDetection_iter_cases [consumes 1, case_names ctx timeout tick]:
  assumes "waitForDriftDetection_iter w i tmo ntk = Some (x, w')"
  obtains
    c where "cancel_at w = Some c" and "c \<le> wake w tmo ntk"
      and "x = Return ([], Some (ctx_Err w))"
      and "w' = w\<lparr>now := wake w tmo ntk, nsel := Suc (nsel w)\<rparr>"
  | "tmo \<le> wake w tmo ntk"
      and "x = Return ([], Some (Errorf ''timeout waiting for drift detection''))"
      and "w' = w\<lparr>now := wake w tmo ntk, nsel := Suc (nsel w)\<rparr>"
  | r where "ntk \<le> wake w tmo ntk"
      and "DescribeStackDriftDetectionStatus (w\<lparr>now := wake w tmo ntk, nsel := Suc (nsel w)\<rparr>) i
             = Some (r, w')"
      and "x = waitForDriftDetection_switch r
                 (next_tick waitForDriftDetection_interval ntk (wake w tmo ntk))"
proof -
  obtain c w1 where s: "select_chan w tmo ntk = (c, w1)"
    by (cases "select_chan w tmo ntk")
  note f = select_chan_facts [OF s]
  show thesis
  proof (cases c)
    case CtxDone
    with f(2) obtain t where "cancel_at w = Some t" and "t \<le> wake w tmo ntk"
      by (auto split: option.splits)
    moreover from assms s CtxDone f(1)
    have "x = Return ([], Some (ctx_Err w))" and "w' = w\<lparr>now := wake w tmo ntk, nsel := Suc (nsel w)\<rparr>"
      by (auto simp: waitForDriftDetection_iter_def ctx_Err_def)
    ultimately show thesis by (rule that(1))
  next
    case Timeout
    with f(2) have "tmo \<le> wake w tmo ntk" by simp
    moreover from assms s Timeout f(1)
    have "x = Return ([], Some (Errorf ''timeout waiting for drift detection''))"
      and "w' = w\<lparr>now := wake w tmo ntk, nsel := Suc (nsel w)\<rparr>"
      by (auto simp: waitForDriftDetection_iter_def)
    ultimately show thesis by (rule that(2))
  next
    case Ticker
    with f(2) have t: "ntk \<le> wake w tmo ntk" by simp
    from assms waitForDriftDetection_iter_Ticker [OF s [unfolded Ticker], of i]
    obtain r where g: "DescribeStackDriftDetectionStatus w1 i = Some (r, w')"
      and "x = waitForDriftDetection_switch r
                 (next_tick waitForDriftDetection_interval ntk (now w1))"
      by (auto split: option.splits)
    with f(1)
    have "x = waitForDriftDetection_switch r
                (next_tick waitForDriftDetection_interval ntk (wake w tmo ntk))"
      by simp
    with t g f(1) show thesis by (intro that(3)) simp_all
  qed
qed

lemma waitForDriftDetection_iter_Return:
  assumes "waitForDriftDetection_iter w i tmo ntk = Some (Return (st, e), w')"
  shows "(e = None \<longrightarrow> st = StackDriftDetectionStatusDetectionComplete)
       \<and> (st \<noteq> [] \<longrightarrow> e \<noteq> None \<longrightarrow> st = StackDriftDetectionStatusDetectionFailed
              \<and> (\<exists>reason. e = Some (Errorf (''drift detection failed: '' @ reason))))"
  using assms
  by (cases rule: waitForDriftDetection_iter_cases)
     (auto simp: waitForDriftDetection_switch_def split: sum.splits if_splits)

lemma waitForDriftDetection_loop_Return:
  "waitForDriftDetection_loop w i tmo ntk = Some ((st, e), w') \<Longrightarrow>
     (e = None \<longrightarrow> st = StackDriftDetectionStatusDetectionComplete)
     \<and> (st \<noteq> [] \<longrightarrow> e \<noteq> None \<longrightarrow> st = StackDriftDetectionStatusDetectionFailed
            \<and> (\<exists>reason. e = Some (Errorf (''drift detection failed: '' @ reason))))"
proof (induction w i tmo ntk rule: waitForDriftDetection_loop.induct)
  case (1 w i tmo ntk)
  show ?case
  proof (cases "waitForDriftDetection_iter w i tmo ntk")
    case None
    with "1.prems" show ?thesis by simp
  next
    case (Some p)
    obtain x w1 where p: "p = (x, w1)" by (cases p)
    show ?thesis
    proof (cases x)
      case (Return r)
      with Some p "1.prems"
      have "waitForDriftDetection_iter w i tmo ntk = Some (Return (st, e), w')"
        by simp
      then show ?thesis by (rule waitForDriftDetection_iter_Return)
    next
      case (Continue k)
      with Some p "1.prems" have "waitForDriftDetection_loop w1 i tmo k = Some ((st, e), w')"
        by simp
      with Some p Continue show ?thesis
        by (intro "1.IH") simp_all
    qed
  qed
qed

lemma waitForDriftDetection_interval_pos: "0 < waitForDriftDetection_interval"
  by (simp add: duration_defs)

lemma drift_poll_example_select:
  "select_chan (drift_poll_example s r) (600 * Second) (5 * Second)
     = (Ticker, drift_poll_example s r\<lparr>now := 5 * Second, nsel := 1\<rparr>)"
  by (simp add: drift_poll_example_def example_world_def select_chan_def wake_def duration_defs)

lemma drift_poll_example_status:
  "DescribeStackDriftDetectionStatus (drift_poll_example s r\<lparr>now := 5 * Second, nsel := 1\<rparr>) ''d-1''
     = Some (Inr (s, r),
         drift_poll_example s r\<lparr>now := 5 * Second + 1, nsel := 1, script := [],
           calls := [(5 * Second, DescribeStackDriftDetectionStatusInput ''d-1'')]\<rparr>)"
  by (simp add: drift_poll_example_def example_world_def
        DescribeStackDriftDetectionStatus_def call_def aborted_def returns_at_def)

lemmas drift_eval_defs = aborted_def returns_at_def example_world_def waitForDriftDetection_def
  waitForDriftDetection_iter_def select_chan_def wake_def next_tick_def
  DescribeStackDriftDetectionStatus_def call_def ToString_def duration_defs status_defs

lemma poll_example_run:
  "\<exists>v'. waitForStack (poll_example ''CREATE_COMPLETE'') ''Net''
            = Some ((''CREATE_COMPLETE'', None), v')"
  by (simp add: poll_example_def eval_defs)

lemma drift_poll_example_run:
  "\<exists>v'. waitForDriftDetection (drift_poll_example ''DETECTION_COMPLETE'' None) ''d-1''
            = Some ((''DETECTION_COMPLETE'', None), v')"
  by (simp add: drift_poll_example_def drift_eval_defs)

lemma poll_example_failed_run:
  "\<exists>e v'. waitForStack (poll_example ''UPDATE_ROLLBACK_FAILED'') ''Net''
            = Some ((''UPDATE_ROLLBACK_FAILED'', Some e), v')"
  by (simp add: poll_example_def eval_defs)

lemma drift_poll_example_failed_run:
  "\<exists>e v'. waitForDriftDetection
              (drift_poll_example ''DETECTION_FAILED'' (Some ''access denied'')) ''d-1''
            = Some ((''DETECTION_FAILED'', Some e), v')"
  by (simp add: drift_poll_example_def drift_eval_defs)

section \<open>The requests that a poller sends\<close>

lemma polls_from_refl:
  "polls_from rq t0 w (w\<lparr>now := wake w tmo ntk, nsel := k\<rparr>)"
proof -
  have "calls w = calls w @ map (\<lambda>t. (t, rq)) [] \<and> list_all (\<lambda>t. t0 \<le> t) []"
    by simp
  then show ?thesis
    unfolding polls_from_def by (auto simp: now_le_wake)
qed

lemma polls_from_trans:
  assumes "polls_from rq t0 w w1" and "polls_from rq t1 w1 w2" and "t0 \<le> t1"
  shows "polls_from rq t0 w w2"
proof -
  from assms(1) obtain ts where a: "calls w1 = calls w @ map (\<lambda>t. (t, rq)) ts"
    and b: "list_all (\<lambda>t. t0 \<le> t) ts"
    unfolding polls_from_def by blast
  from assms(2) obtain us where c: "calls w2 = calls w1 @ map (\<lambda>t. (t, rq)) us"
    and d: "list_all (\<lambda>t. t1 \<le> t) us"
    unfolding polls_from_def by blast
  from d assms(3) have "list_all (\<lambda>t. t0 \<le> t) us"
    by (auto simp: list_all_iff)
  with a b c have "calls w2 = calls w @ map (\<lambda>t. (t, rq)) (ts @ us)
      \<and> list_all (\<lambda>t. t0 \<le> t) (ts @ us)"
    by simp
  with assms(1,2) show ?thesis
    unfolding polls_from_def by (metis le_trans)
qed

lemma polls_from_one:
  assumes "calls w' = calls w1 @ [(now w1, rq)]" and "now w1 \<le> now w'"
    and "cancel_at w' = cancel_at w1" and "ctx_cause w' = ctx_cause w1"
    and "w1 = w\<lparr>now := wake w tmo ntk, nsel := k\<rparr>" and "t0 \<le> wake w tmo ntk"
  shows "polls_from rq t0 w w'"
proof -
  from assms have "calls w' = calls w @ map (\<lambda>t. (t, rq)) [wake w tmo ntk]
      \<and> list_all (\<lambda>t. t0 \<le> t) [wake w tmo ntk]"
    by simp
  then have "\<exists>ts. calls w' = calls w @ map (\<lambda>t. (t, rq)) ts \<and> list_all (\<lambda>t. t0 \<le> t) ts"
    by (rule exI)
  moreover from assms have "now w \<le> now w'"
    using now_le_wake [of w tmo ntk] by simp
  moreover from assms have "cancel_at w' = cancel_at w" and "ctx_cause w' = ctx_cause w"
    by simp_all
  ultimately show ?thesis
    unfolding polls_from_def by (intro conjI)
qed

lemma waitForStack_iter_polls:
  assumes "waitForStack_iter w n tmo ntk = Some (x, w')"
  shows "polls_from (DescribeStacksInput n) ntk w w'"
  using assms
proof (cases rule: waitForStack_iter_cases)
  case (ctx c)
  then show ?thesis by (simp add: polls_from_refl)
next
  case timeout
  then show ?thesis by (simp add: polls_from_refl)
next
  case (tick r)
  note g = getStackStatus_facts [OF tick(2)]
  show ?thesis
    by (rule polls_from_one [where ?w1.0 = "w\<lparr>now := wake w tmo ntk, nsel := Suc (nsel w)\<rparr>"])
       (use g tick(1) in simp_all)
qed

lemma waitForStack_iter_Continue:
  assumes "waitForStack_iter w n tmo ntk = Some (Continue k, w')"
  shows "ntk < k \<and> wake w tmo ntk < k \<and> wake w tmo ntk \<le> now w'"
  using assms
proof (cases rule: waitForStack_iter_cases)
  case (ctx c)
  then show ?thesis by simp
next
  case timeout
  then show ?thesis by simp
next
  case (tick r)
  from tick(3) have k: "k = next_tick waitForStack_interval ntk (wake w tmo ntk)"
    by (auto simp: waitForStack_switch_def split: prod.splits option.splits if_splits)
  note b = next_tick_bounds [OF waitForStack_interval_pos tick(1)]
  from k b(1) tick(1) getStackStatus_facts(2) [OF tick(2)] show ?thesis by simp
qed

lemma waitForStack_loop_polls:
  "waitForStack_loop w n tmo ntk = Some (r, w') \<Longrightarrow> polls_from (DescribeStacksInput n) ntk w w'"
proof (induction w n tmo ntk rule: waitForStack_loop.induct)
  case (1 w n tmo ntk)
  show ?case
  proof (cases "waitForStack_iter w n tmo ntk")
    case None
    with "1.prems" show ?thesis by simp
  next
    case (Some p)
    obtain x w1 where p: "p = (x, w1)" by (cases p)
    with Some have i: "waitForStack_iter w n tmo ntk = Some (x, w1)" by simp
    show ?thesis
    proof (cases x)
      case (Return q)
      with i "1.prems" have "w1 = w'" by simp
      with i show ?thesis using waitForStack_iter_polls by blast
    next
      case (Continue k)
      with i "1.prems" have "waitForStack_loop w1 n tmo k = Some (r, w')"
        by simp
      with Some p Continue have "polls_from (DescribeStacksInput n) k w1 w'"
        by (intro "1.IH") simp_all
      moreover from i have "polls_from (DescribeStacksInput n) ntk w w1"
        by (rule waitForStack_iter_polls)
      moreover from i Continue have "ntk \<le> k"
        using waitForStack_iter_Continue [of w n tmo ntk k w1] by simp
      ultimately show ?thesis
        using polls_from_trans by blast
    qed
  qed
qed


lemma polls_from_prefix: "polls_from rq t0 w w' \<Longrightarrow> prefix (calls w) (calls w')"
  unfolding polls_from_def by auto

lemma waitForStack_calls_prefix:
  "waitForStack w n = Some (r, w') \<Longrightarrow> prefix (calls w) (calls w')"
  unfolding waitForStack_def by (blast dest: waitForStack_loop_polls polls_from_prefix)

lemma getStackOutputs_calls_prefix:
  assumes "getStackOutputs w n = Some (r, w')"
  shows "prefix (calls w) (calls w')"
proof -
  from assms obtain q where "DescribeStacks w n = Some (q, w')"
    by (auto simp: getStackOutputs_def split: option.splits sum.splits list.splits)
  from DescribeStacks_facts(1) [OF this] show ?thesis by simp
qed

lemma createStack_calls:
  assumes "createStack w n body = Some (r, w')"
  shows "calls w' = calls w @
     [(now w, CreateStackInput n body
        [CapabilityCapabilityIam, CapabilityCapabilityNamedIam, CapabilityCapabilityAutoExpand]
        OnFailureRollback)]"
  using assms
  by (auto simp: createStack_def CreateStack_def
           split: option.splits sum.splits answer.splits dest: call_facts(1))

section \<open>Waiting and preemption\<close>

lemma waitForDriftDetection_iter_polls:
  assumes "waitForDriftDetection_iter w i tmo ntk = Some (x, w')"
  shows "polls_from (DescribeStackDriftDetectionStatusInput i) ntk w w'"
  using assms
proof (cases rule: waitForDriftDetection_iter_cases)
  case (ctx c)
  then show ?thesis by (simp add: polls_from_refl)
next
  case timeout
  then show ?thesis by (simp add: polls_from_refl)
next
  case (tick r)
  note g = DescribeStackDriftDetectionStatus_facts [OF tick(2)]
  show ?thesis
    by (rule polls_from_one [where ?w1.0 = "w\<lparr>now := wake w tmo ntk, nsel := Suc (nsel w)\<rparr>"])
       (use g tick(1) in simp_all)
qed

lemma waitForDriftDetection_iter_Continue:
  assumes "waitForDriftDetection_iter w i tmo ntk = Some (Continue k, w')"
  shows "ntk < k \<and> wake w tmo ntk < k \<and> wake w tmo ntk \<le> now w'"
  using assms
proof (cases rule: waitForDriftDetection_iter_cases)
  case (ctx c)
  then show ?thesis by simp
next
  case timeout
  then show ?thesis by simp
next
  case (tick r)
  from tick(3) have k: "k = next_tick waitForDriftDetection_interval ntk (wake w tmo ntk)"
    by (auto simp: waitForDriftDetection_switch_def split: sum.splits prod.splits if_splits)
  note b = next_tick_bounds [OF waitForDriftDetection_interval_pos tick(1)]
  from k b(1) tick(1) DescribeStackDriftDetectionStatus_facts(2) [OF tick(2)]
  show ?thesis by simp
qed

lemma waitForDriftDetection_loop_polls:
  "waitForDriftDetection_loop w i tmo ntk = Some (r, w') \<Longrightarrow>
     polls_from (DescribeStackDriftDetectionStatusInput i) ntk w w'"
proof (induction w i tmo ntk rule: waitForDriftDetection_loop.induct)
  case (1 w i tmo ntk)
  show ?case
  proof (cases "waitForDriftDetection_iter w i tmo ntk")
    case None
    with "1.prems" show ?thesis by simp
  next
    case (Some p)
    obtain x w1 where p: "p = (x, w1)" by (cases p)
    with Some have it: "waitForDriftDetection_iter w i tmo ntk = Some (x, w1)" by simp
    show ?thesis
    proof (cases x)
      case (Return q)
      with it "1.prems" have "w1 = w'" by simp
      with it show ?thesis using waitForDriftDetection_iter_polls by blast
    next
      case (Continue k)
      with it "1.prems" have "waitForDriftDetection_loop w1 i tmo k = Some (r, w')"
        by simp
      with Some p Continue have "polls_from (DescribeStackDriftDetectionStatusInput i) k w1 w'"
        by (intro "1.IH") simp_all
      moreover from it have "polls_from (DescribeStackDriftDetectionStatusInput i) ntk w w1"
        by (rule waitForDriftDetection_iter_polls)
      moreover from it Continue have "ntk \<le> k"
        using waitForDriftDetection_iter_Continue [of w i tmo ntk k w1] by simp
      ultimately show ?thesis
        using polls_from_trans by blast
    qed
  qed
qed

text \<open>A return before the next tick and the deadline is the cancellation, with no request.\<close>

lemma waitForStack_loop_early:
  assumes "waitForStack_loop w n tmo ntk = Some (r, w')" and "ntk \<le> tmo" and "now w' < ntk"
  shows "r = ([], Some (ctx_Err w)) \<and> calls w' = calls w"
proof (cases "waitForStack_iter w n tmo ntk")
  case None
  with assms(1) show ?thesis by simp
next
  case (Some p)
  obtain x w1 where p: "p = (x, w1)" by (cases p)
  with Some have it: "waitForStack_iter w n tmo ntk = Some (x, w1)" by simp
  have l: "now w1 \<le> now w'"
  proof (cases x)
    case (Return q)
    with it assms(1) show ?thesis by simp
  next
    case (Continue k)
    with it assms(1) have "waitForStack_loop w1 n tmo k = Some (r, w')" by simp
    from waitForStack_loop_polls [OF this] show ?thesis by (simp add: polls_from_def)
  qed
  from it show ?thesis
  proof (cases rule: waitForStack_iter_cases)
    case (ctx c)
    with it assms(1) show ?thesis by auto
  next
    case timeout
    with l assms(2,3) show ?thesis by simp
  next
    case (tick q)
    from getStackStatus_facts(2) [OF tick(2)] tick(1) l assms(3) show ?thesis by simp
  qed
qed

lemma waitForDriftDetection_loop_early:
  assumes "waitForDriftDetection_loop w i tmo ntk = Some (r, w')" and "ntk \<le> tmo"
    and "now w' < ntk"
  shows "r = ([], Some (ctx_Err w)) \<and> calls w' = calls w"
proof (cases "waitForDriftDetection_iter w i tmo ntk")
  case None
  with assms(1) show ?thesis by simp
next
  case (Some p)
  obtain x w1 where p: "p = (x, w1)" by (cases p)
  with Some have it: "waitForDriftDetection_iter w i tmo ntk = Some (x, w1)" by simp
  have l: "now w1 \<le> now w'"
  proof (cases x)
    case (Return q)
    with it assms(1) show ?thesis by simp
  next
    case (Continue k)
    with it assms(1) have "waitForDriftDetection_loop w1 i tmo k = Some (r, w')" by simp
    from waitForDriftDetection_loop_polls [OF this] show ?thesis by (simp add: polls_from_def)
  qed
  from it show ?thesis
  proof (cases rule: waitForDriftDetection_iter_cases)
    case (ctx c)
    with it assms(1) show ?thesis by auto
  next
    case timeout
    with l assms(2,3) show ?thesis by simp
  next
    case (tick q)
    from DescribeStackDriftDetectionStatus_facts(2) [OF tick(2)] tick(1) l assms(3)
    show ?thesis by simp
  qed
qed

text \<open>When one channel only is ready as the \<^verbatim>\<open>select\<close> goes on, its case is taken.\<close>

lemma select_chan_only:
  assumes "ready w tmo ntk (wake w tmo ntk) c"
    and "\<And>d. d \<noteq> c \<Longrightarrow> \<not> ready w tmo ntk (wake w tmo ntk) d"
  shows "select_chan w tmo ntk = (c, w\<lparr>now := wake w tmo ntk, nsel := Suc (nsel w)\<rparr>)"
proof -
  have "filter (ready w tmo ntk (wake w tmo ntk)) [CtxDone, Timeout, Ticker] = [c]"
    using assms(1) assms(2) [of CtxDone] assms(2) [of Timeout] assms(2) [of Ticker]
    by (cases c) (simp_all del: ready.simps)
  then show ?thesis
    by (simp add: select_chan_def Let_def del: ready.simps)
qed

lemma select_chan_cancelled:
  assumes "cancel_at w = Some c" and "max (now w) c < tmo" and "max (now w) c < ntk"
  shows "select_chan w tmo ntk = (CtxDone, w\<lparr>now := max (now w) c, nsel := Suc (nsel w)\<rparr>)"
proof -
  from assms have k: "wake w tmo ntk = max (now w) c"
    by (auto simp: wake_def)
  have "select_chan w tmo ntk = (CtxDone, w\<lparr>now := wake w tmo ntk, nsel := Suc (nsel w)\<rparr>)"
  proof (rule select_chan_only)
    show "ready w tmo ntk (wake w tmo ntk) CtxDone"
      using assms(1) k by simp
    fix d assume "d \<noteq> CtxDone"
    then show "\<not> ready w tmo ntk (wake w tmo ntk) d"
      using assms(2,3) k by (cases d) auto
  qed
  with k show ?thesis by simp
qed

lemma select_chan_timed_out:
  assumes "max (now w) tmo < ntk"
    and "cancel_at w = None \<or> (\<exists>c. cancel_at w = Some c \<and> max (now w) tmo < c)"
  shows "select_chan w tmo ntk = (Timeout, w\<lparr>now := max (now w) tmo, nsel := Suc (nsel w)\<rparr>)"
proof -
  from assms have k: "wake w tmo ntk = max (now w) tmo"
    by (auto simp: wake_def)
  have "select_chan w tmo ntk = (Timeout, w\<lparr>now := wake w tmo ntk, nsel := Suc (nsel w)\<rparr>)"
  proof (rule select_chan_only)
    show "ready w tmo ntk (wake w tmo ntk) Timeout"
      using k by simp
    fix d assume "d \<noteq> Timeout"
    then show "\<not> ready w tmo ntk (wake w tmo ntk) d"
      using assms k by (cases d) auto
  qed
  with k show ?thesis by simp
qed


lemma interval_le_deadline:
  "waitForStack_interval \<le> waitForStack_deadline"
  "waitForDriftDetection_interval \<le> waitForDriftDetection_deadline"
  by (simp_all add: duration_defs)

lemma waitForStack_first_wait:
  assumes "select_chan w (now w + waitForStack_deadline) (now w + waitForStack_interval) = (ch, w1)"
    and "ch \<noteq> Ticker"
  shows "waitForStack w n
      = Some (([], Some (if ch = CtxDone then ctx_Err w
                         else Errorf (''timeout waiting for stack '' @ n))), w1)
    \<and> calls w1 = calls w"
  using assms select_chan_facts(1) [OF assms(1)]
  by (cases ch) (simp_all add: waitForStack_def waitForStack_iter_def ctx_Err_def)

lemma waitForDriftDetection_first_wait:
  assumes "select_chan w (now w + waitForDriftDetection_deadline)
             (now w + waitForDriftDetection_interval) = (ch, w1)"
    and "ch \<noteq> Ticker"
  shows "waitForDriftDetection w i
      = Some (([], Some (if ch = CtxDone then ctx_Err w
                         else Errorf ''timeout waiting for drift detection'')), w1)
    \<and> calls w1 = calls w"
  using assms select_chan_facts(1) [OF assms(1)]
  by (cases ch) (simp_all add: waitForDriftDetection_def waitForDriftDetection_iter_def ctx_Err_def)

lemma waitForStack_cancelled_early:
  assumes "cancel_at w = Some c" and "c < now w + waitForStack_interval"
  shows "waitForStack w n
      = Some (([], Some (ctx_Err w)), w\<lparr>now := max (now w) c, nsel := Suc (nsel w)\<rparr>)"
proof -
  have "select_chan w (now w + waitForStack_deadline) (now w + waitForStack_interval)
      = (CtxDone, w\<lparr>now := max (now w) c, nsel := Suc (nsel w)\<rparr>)"
    using assms interval_le_deadline(1) waitForStack_interval_pos
    by (intro select_chan_cancelled) simp_all
  from waitForStack_first_wait [OF this] show ?thesis by simp
qed

lemma waitForDriftDetection_cancelled_early:
  assumes "cancel_at w = Some c" and "c < now w + waitForDriftDetection_interval"
  shows "waitForDriftDetection w i
      = Some (([], Some (ctx_Err w)), w\<lparr>now := max (now w) c, nsel := Suc (nsel w)\<rparr>)"
proof -
  have "select_chan w (now w + waitForDriftDetection_deadline)
          (now w + waitForDriftDetection_interval)
      = (CtxDone, w\<lparr>now := max (now w) c, nsel := Suc (nsel w)\<rparr>)"
    using assms interval_le_deadline(2) waitForDriftDetection_interval_pos
    by (intro select_chan_cancelled) simp_all
  from waitForDriftDetection_first_wait [OF this] show ?thesis by simp
qed

lemma select_chan_ticked:
  assumes "max (now w) ntk < tmo"
    and "cancel_at w = None \<or> (\<exists>c. cancel_at w = Some c \<and> max (now w) ntk < c)"
  shows "select_chan w tmo ntk = (Ticker, w\<lparr>now := max (now w) ntk, nsel := Suc (nsel w)\<rparr>)"
proof -
  from assms have k: "wake w tmo ntk = max (now w) ntk"
    by (auto simp: wake_def)
  have "select_chan w tmo ntk = (Ticker, w\<lparr>now := wake w tmo ntk, nsel := Suc (nsel w)\<rparr>)"
  proof (rule select_chan_only)
    show "ready w tmo ntk (wake w tmo ntk) Ticker"
      using k by simp
    fix d assume "d \<noteq> Ticker"
    then show "\<not> ready w tmo ntk (wake w tmo ntk) d"
      using assms k by (cases d) auto
  qed
  with k show ?thesis by simp
qed

section \<open>Whole runs of the operation poller\<close>

lemma alive_mono: "alive w t \<Longrightarrow> u \<le> t \<Longrightarrow> alive w u"
  by (auto simp: alive_def split: option.splits)

lemma alive_cong: "cancel_at w' = cancel_at w \<Longrightarrow> alive w' t = alive w t"
  by (simp add: alive_def)

lemma alive_select:
  assumes "alive w t" and "max (now w) ntk \<le> t"
  shows "cancel_at w = None \<or> (\<exists>c. cancel_at w = Some c \<and> max (now w) ntk < c)"
  using assms by (cases "cancel_at w") (auto simp: alive_def)

lemma getStackStatus_script:
  assumes "script w = (l, Stacks (s # ss)) # rest" and "alive w (now w + l)"
  shows "getStackStatus w n
     = Some ((StackStatus s, None),
         w\<lparr>now := now w + l, script := rest,
           calls := calls w @ [(now w, DescribeStacksInput n)]\<rparr>)"
  by (simp add: getStackStatus_def DescribeStacks_script [OF assms])

text \<open>
  One tick of \<open>waitForStack\<close> on time: the context is live, the tick comes before the
  deadline, and the stack is described.
\<close>

lemma waitForStack_iter_on_time:
  assumes "script w = (l, Stacks (s # ss)) # rest" and "alive w (ntk + l)"
    and "now w < ntk" and "ntk < tmo"
  shows "waitForStack_iter w n tmo ntk
     = Some (waitForStack_switch (StackStatus s, None) (ntk + waitForStack_interval),
         w\<lparr>now := ntk + l, nsel := Suc (nsel w), script := rest,
           calls := calls w @ [(ntk, DescribeStacksInput n)]\<rparr>)"
proof -
  let ?w1 = "w\<lparr>now := ntk, nsel := Suc (nsel w)\<rparr>"
  have m: "max (now w) ntk = ntk"
    using assms(3) by simp
  have sel: "select_chan w tmo ntk = (Ticker, ?w1)"
    using select_chan_ticked [of w ntk tmo] alive_select [OF assms(2), of ntk] assms(3,4)
    by (simp add: m)
  have "alive ?w1 (now ?w1 + l)"
    using assms(2) by (simp add: alive_def)
  with assms(1) have "getStackStatus ?w1 n
     = Some ((StackStatus s, None),
         ?w1\<lparr>now := now ?w1 + l, script := rest,
           calls := calls ?w1 @ [(now ?w1, DescribeStacksInput n)]\<rparr>)"
    by (intro getStackStatus_script) simp_all
  then show ?thesis
    by (simp add: waitForStack_iter_Ticker [OF sel] next_tick_def)
qed

lemma waitForStack_switch_pending:
  "pending (l, Stacks (s # ss)) \<Longrightarrow> waitForStack_switch (StackStatus s, None) k = Continue k"
  by (simp add: pending_def waitForStack_switch_def)

lemma waitForStack_switch_terminal:
  "st \<in> success_statuses \<union> failure_statuses \<Longrightarrow>
     waitForStack_switch (st, None) k = Return (status_result st)"
  by (auto simp: waitForStack_switch_def status_result_def)

lemma pending_Stacks: "pending (l, a) \<Longrightarrow> \<exists>s ss. a = Stacks (s # ss)"
  by (auto simp: pending_def split: answer.splits list.splits)

lemma waitForStack_loop_polls_until_terminal:
  assumes "list_all (\<lambda>la. pending la \<and> fst la < waitForStack_interval) pend"
    and "StackStatus s \<in> success_statuses \<union> failure_statuses"
  shows "script w = pend @ (l, Stacks (s # ss)) # rest \<Longrightarrow> now w < ntk \<Longrightarrow>
     ntk + length pend * waitForStack_interval < tmo \<Longrightarrow>
     alive w (ntk + length pend * waitForStack_interval + l) \<Longrightarrow>
     \<exists>w'. waitForStack_loop w n tmo ntk = Some (status_result (StackStatus s), w')
       \<and> calls w' = calls w @ map (\<lambda>t. (t, DescribeStacksInput n))
                                (instants ntk waitForStack_interval (Suc (length pend)))
       \<and> script w' = rest \<and> now w' = ntk + length pend * waitForStack_interval + l"
  using assms(1)
proof (induction pend arbitrary: w ntk)
  case Nil
  let ?w' = "w\<lparr>now := ntk + l, nsel := Suc (nsel w), script := rest,
           calls := calls w @ [(ntk, DescribeStacksInput n)]\<rparr>"
  from Nil.prems have "waitForStack_iter w n tmo ntk
     = Some (waitForStack_switch (StackStatus s, None) (ntk + waitForStack_interval), ?w')"
    by (intro waitForStack_iter_on_time) simp_all
  then have "waitForStack_loop w n tmo ntk = Some (status_result (StackStatus s), ?w')"
    by (simp add: waitForStack_switch_terminal [OF assms(2)])
  then show ?case by simp
next
  case (Cons la pend)
  obtain l0 a0 where la: "la = (l0, a0)" by (cases la)
  from Cons.prems(5) la have p: "pending (l0, a0)" and l0: "l0 < waitForStack_interval"
    and ps: "list_all (\<lambda>la. pending la \<and> fst la < waitForStack_interval) pend"
    by simp_all
  from pending_Stacks [OF p] obtain s0 ss0 where a0: "a0 = Stacks (s0 # ss0)" by blast
  let ?w1 = "w\<lparr>now := ntk + l0, nsel := Suc (nsel w),
           script := pend @ (l, Stacks (s # ss)) # rest,
           calls := calls w @ [(ntk, DescribeStacksInput n)]\<rparr>"
  let ?k = "ntk + waitForStack_interval"
  have s: "script w = (l0, Stacks (s0 # ss0)) # (pend @ (l, Stacks (s # ss)) # rest)"
    using Cons.prems(1) la a0 by simp
  have al: "alive w (ntk + l0)"
    using Cons.prems(4) l0 by (intro alive_mono [OF Cons.prems(4)]) simp
  have t: "ntk < tmo"
    using Cons.prems(3) by simp
  have "waitForStack_iter w n tmo ntk
     = Some (waitForStack_switch (StackStatus s0, None) ?k, ?w1)"
    by (rule waitForStack_iter_on_time [OF s al Cons.prems(2) t])
  then have i: "waitForStack_loop w n tmo ntk = waitForStack_loop ?w1 n tmo ?k"
    using p a0 by (simp add: waitForStack_switch_pending)
  have "\<exists>w'. waitForStack_loop ?w1 n tmo ?k = Some (status_result (StackStatus s), w')
       \<and> calls w' = calls ?w1 @ map (\<lambda>t. (t, DescribeStacksInput n))
                                (instants ?k waitForStack_interval (Suc (length pend)))
       \<and> script w' = rest \<and> now w' = ?k + length pend * waitForStack_interval + l"
  proof (rule Cons.IH [OF _ _ _ _ ps])
    show "script ?w1 = pend @ (l, Stacks (s # ss)) # rest" by simp
    show "now ?w1 < ?k" using l0 by simp
    show "?k + length pend * waitForStack_interval < tmo"
      using Cons.prems(3) by simp
    show "alive ?w1 (?k + length pend * waitForStack_interval + l)"
      using Cons.prems(4) by (simp add: alive_def add.assoc add.left_commute)
  qed
  then show ?case
    unfolding i by (auto simp: add.assoc add.left_commute)
qed



lemma waitForStack_switch_Continue:
  assumes "waitForStack_switch r k = Continue j"
  shows "\<exists>st. r = (st, None) \<and> st \<notin> success_statuses \<and> st \<notin> failure_statuses"
  using assms
  by (cases r) (auto simp: waitForStack_switch_def split: option.splits if_splits)


lemma waitForStack_iter_Continue_observed:
  assumes "waitForStack_iter w n tmo ntk = Some (Continue k, w')"
  shows "\<exists>la t. script w = la # script w' \<and> pending la
       \<and> calls w' = calls w @ [(t, DescribeStacksInput n)]"
  using assms
proof (cases rule: waitForStack_iter_cases)
  case (ctx c)
  then show ?thesis by simp
next
  case timeout
  then show ?thesis by simp
next
  case (tick r)
  from waitForStack_switch_Continue [OF tick(3) [symmetric]]
  obtain st where r: "r = (st, None)" and p: "st \<notin> success_statuses" "st \<notin> failure_statuses"
    by blast
  from getStackStatus_facts(1,5) [OF tick(2)] r
  obtain l s ss where s: "script w = (l, Stacks (s # ss)) # script w'" and "st = StackStatus s"
    and c: "calls w' = calls w @ [(wake w tmo ntk, DescribeStacksInput n)]"
    by auto
  with p have "pending (l, Stacks (s # ss))"
    by (simp add: pending_def)
  with s c show ?thesis by blast
qed


section \<open>The operation poller\<close>



section \<open>Whole runs of the drift poller\<close>

lemma DescribeStackDriftDetectionStatus_script:
  assumes "script w = (l, DetectionStatus st reason) # rest" and "alive w (now w + l)"
  shows "DescribeStackDriftDetectionStatus w i
     = Some (Inr (st, reason),
         w\<lparr>now := now w + l, script := rest,
           calls := calls w @ [(now w, DescribeStackDriftDetectionStatusInput i)]\<rparr>)"
  by (simp add: DescribeStackDriftDetectionStatus_def call_script [OF assms])

text \<open>
  One tick of \<open>waitForDriftDetection\<close> on time: the context is live, the tick comes before
  the deadline, and the detection status is reported.
\<close>

lemma waitForDriftDetection_iter_on_time:
  assumes "script w = (l, DetectionStatus st reason) # rest" and "alive w (ntk + l)"
    and "now w < ntk" and "ntk < tmo"
  shows "waitForDriftDetection_iter w i tmo ntk
     = Some (waitForDriftDetection_switch (Inr (st, reason)) (ntk + waitForDriftDetection_interval),
         w\<lparr>now := ntk + l, nsel := Suc (nsel w), script := rest,
           calls := calls w @ [(ntk, DescribeStackDriftDetectionStatusInput i)]\<rparr>)"
proof -
  let ?w1 = "w\<lparr>now := ntk, nsel := Suc (nsel w)\<rparr>"
  have m: "max (now w) ntk = ntk"
    using assms(3) by simp
  have sel: "select_chan w tmo ntk = (Ticker, ?w1)"
    using select_chan_ticked [of w ntk tmo] alive_select [OF assms(2), of ntk] assms(3,4)
    by (simp add: m)
  have "alive ?w1 (now ?w1 + l)"
    using assms(2) by (simp add: alive_def)
  with assms(1) have "DescribeStackDriftDetectionStatus ?w1 i
     = Some (Inr (st, reason),
         ?w1\<lparr>now := now ?w1 + l, script := rest,
           calls := calls ?w1 @ [(now ?w1, DescribeStackDriftDetectionStatusInput i)]\<rparr>)"
    by (intro DescribeStackDriftDetectionStatus_script) simp_all
  then show ?thesis
    by (simp add: waitForDriftDetection_iter_Ticker [OF sel] next_tick_def)
qed

lemma waitForDriftDetection_switch_detecting:
  "detecting (l, DetectionStatus st reason) \<Longrightarrow>
     waitForDriftDetection_switch (Inr (st, reason)) k = Continue k"
  by (simp add: detecting_def waitForDriftDetection_switch_def)

lemma waitForDriftDetection_switch_terminal:
  "st \<in> {StackDriftDetectionStatusDetectionComplete, StackDriftDetectionStatusDetectionFailed} \<Longrightarrow>
     waitForDriftDetection_switch (Inr (st, reason)) k = Return (detection_result st reason)"
  by (auto simp: waitForDriftDetection_switch_def detection_result_def)

lemma detecting_DetectionStatus: "detecting (l, a) \<Longrightarrow> \<exists>st reason. a = DetectionStatus st reason"
  by (auto simp: detecting_def split: answer.splits)

lemma waitForDriftDetection_loop_polls_until_terminal:
  assumes "list_all (\<lambda>la. detecting la \<and> fst la < waitForDriftDetection_interval) pend"
    and "st \<in> {StackDriftDetectionStatusDetectionComplete,
                StackDriftDetectionStatusDetectionFailed}"
  shows "script w = pend @ (l, DetectionStatus st reason) # rest \<Longrightarrow> now w < ntk \<Longrightarrow>
     ntk + length pend * waitForDriftDetection_interval < tmo \<Longrightarrow>
     alive w (ntk + length pend * waitForDriftDetection_interval + l) \<Longrightarrow>
     \<exists>w'. waitForDriftDetection_loop w i tmo ntk = Some (detection_result st reason, w')
       \<and> calls w' = calls w @ map (\<lambda>t. (t, DescribeStackDriftDetectionStatusInput i))
                                (instants ntk waitForDriftDetection_interval (Suc (length pend)))
       \<and> script w' = rest \<and> now w' = ntk + length pend * waitForDriftDetection_interval + l"
  using assms(1)
proof (induction pend arbitrary: w ntk)
  case Nil
  let ?w' = "w\<lparr>now := ntk + l, nsel := Suc (nsel w), script := rest,
           calls := calls w @ [(ntk, DescribeStackDriftDetectionStatusInput i)]\<rparr>"
  from Nil.prems have "waitForDriftDetection_iter w i tmo ntk
     = Some (waitForDriftDetection_switch (Inr (st, reason))
               (ntk + waitForDriftDetection_interval), ?w')"
    by (intro waitForDriftDetection_iter_on_time) simp_all
  then have "waitForDriftDetection_loop w i tmo ntk = Some (detection_result st reason, ?w')"
    by (simp add: waitForDriftDetection_switch_terminal [OF assms(2)])
  then show ?case by simp
next
  case (Cons la pend)
  obtain l0 a0 where la: "la = (l0, a0)" by (cases la)
  from Cons.prems(5) la have p: "detecting (l0, a0)" and l0: "l0 < waitForDriftDetection_interval"
    and ps: "list_all (\<lambda>la. detecting la \<and> fst la < waitForDriftDetection_interval) pend"
    by simp_all
  from detecting_DetectionStatus [OF p] obtain st0 r0 where a0: "a0 = DetectionStatus st0 r0"
    by blast
  let ?w1 = "w\<lparr>now := ntk + l0, nsel := Suc (nsel w),
           script := pend @ (l, DetectionStatus st reason) # rest,
           calls := calls w @ [(ntk, DescribeStackDriftDetectionStatusInput i)]\<rparr>"
  let ?k = "ntk + waitForDriftDetection_interval"
  have s: "script w = (l0, DetectionStatus st0 r0) # (pend @ (l, DetectionStatus st reason) # rest)"
    using Cons.prems(1) la a0 by simp
  have al: "alive w (ntk + l0)"
    using Cons.prems(4) l0 by (intro alive_mono [OF Cons.prems(4)]) simp
  have t: "ntk < tmo"
    using Cons.prems(3) by simp
  have "waitForDriftDetection_iter w i tmo ntk
     = Some (waitForDriftDetection_switch (Inr (st0, r0)) ?k, ?w1)"
    by (rule waitForDriftDetection_iter_on_time [OF s al Cons.prems(2) t])
  then have it: "waitForDriftDetection_loop w i tmo ntk = waitForDriftDetection_loop ?w1 i tmo ?k"
    using p a0 by (simp add: waitForDriftDetection_switch_detecting)
  have "\<exists>w'. waitForDriftDetection_loop ?w1 i tmo ?k = Some (detection_result st reason, w')
       \<and> calls w' = calls ?w1 @ map (\<lambda>t. (t, DescribeStackDriftDetectionStatusInput i))
                                (instants ?k waitForDriftDetection_interval (Suc (length pend)))
       \<and> script w' = rest \<and> now w' = ?k + length pend * waitForDriftDetection_interval + l"
  proof (rule Cons.IH [OF _ _ _ _ ps])
    show "script ?w1 = pend @ (l, DetectionStatus st reason) # rest" by simp
    show "now ?w1 < ?k" using l0 by simp
    show "?k + length pend * waitForDriftDetection_interval < tmo"
      using Cons.prems(3) by simp
    show "alive ?w1 (?k + length pend * waitForDriftDetection_interval + l)"
      using Cons.prems(4) by (simp add: alive_def add.assoc add.left_commute)
  qed
  then show ?case
    unfolding it by (auto simp: add.assoc add.left_commute)
qed

lemma waitForDriftDetection_switch_Return:
  assumes "waitForDriftDetection_switch r k = Return (st, e)" and "e = None \<or> st \<noteq> []"
  shows "\<exists>reason. r = Inr (st, reason)
       \<and> st \<in> {StackDriftDetectionStatusDetectionComplete,
                 StackDriftDetectionStatusDetectionFailed}
       \<and> (st, e) = detection_result st reason"
  using assms
  by (cases r)
     (auto simp: waitForDriftDetection_switch_def detection_result_def split: if_splits)

lemma waitForDriftDetection_switch_Continue:
  assumes "waitForDriftDetection_switch r k = Continue j"
  shows "\<exists>st reason. r = Inr (st, reason) \<and> st \<noteq> StackDriftDetectionStatusDetectionComplete
       \<and> st \<noteq> StackDriftDetectionStatusDetectionFailed"
  using assms
  by (cases r) (auto simp: waitForDriftDetection_switch_def split: if_splits)

text \<open>
  A pass that returns a status has read that status, complete or failed, and the reason
  given with it; a pass after which the loop goes on has read a status that is neither.
  Each has made one call.
\<close>

lemma waitForDriftDetection_iter_Return_observed:
  assumes "waitForDriftDetection_iter w i tmo ntk = Some (Return (st, e), w')"
    and "e = None \<or> st \<noteq> []"
  shows "\<exists>l reason t. script w = (l, DetectionStatus st reason) # script w'
       \<and> st \<in> {StackDriftDetectionStatusDetectionComplete,
                 StackDriftDetectionStatusDetectionFailed}
       \<and> (st, e) = detection_result st reason
       \<and> calls w' = calls w @ [(t, DescribeStackDriftDetectionStatusInput i)]"
  using assms(1)
proof (cases rule: waitForDriftDetection_iter_cases)
  case (ctx c)
  with assms(2) show ?thesis by simp
next
  case timeout
  with assms(2) show ?thesis by simp
next
  case (tick r)
  from waitForDriftDetection_switch_Return [OF tick(3) [symmetric] assms(2)]
  obtain reason where r: "r = Inr (st, reason)"
    and t: "st \<in> {StackDriftDetectionStatusDetectionComplete,
                 StackDriftDetectionStatusDetectionFailed}"
    and e: "(st, e) = detection_result st reason"
    by blast
  from DescribeStackDriftDetectionStatus_facts(1,5) [OF tick(2)] r
  obtain l where "script w = (l, DetectionStatus st reason) # script w'"
    and "calls w' = calls w @ [(wake w tmo ntk, DescribeStackDriftDetectionStatusInput i)]"
    by auto
  with t e show ?thesis by blast
qed

lemma waitForDriftDetection_iter_Continue_observed:
  assumes "waitForDriftDetection_iter w i tmo ntk = Some (Continue k, w')"
  shows "\<exists>la t. script w = la # script w' \<and> detecting la
       \<and> calls w' = calls w @ [(t, DescribeStackDriftDetectionStatusInput i)]"
  using assms
proof (cases rule: waitForDriftDetection_iter_cases)
  case (ctx c)
  then show ?thesis by simp
next
  case timeout
  then show ?thesis by simp
next
  case (tick r)
  from waitForDriftDetection_switch_Continue [OF tick(3) [symmetric]]
  obtain st reason where r: "r = Inr (st, reason)"
    and p: "st \<noteq> StackDriftDetectionStatusDetectionComplete"
      "st \<noteq> StackDriftDetectionStatusDetectionFailed"
    by blast
  from DescribeStackDriftDetectionStatus_facts(1,5) [OF tick(2)] r
  obtain l where s: "script w = (l, DetectionStatus st reason) # script w'"
    and c: "calls w' = calls w @ [(wake w tmo ntk, DescribeStackDriftDetectionStatusInput i)]"
    by auto
  with p have "detecting (l, DetectionStatus st reason)"
    by (simp add: detecting_def)
  with s c show ?thesis by blast
qed

lemma waitForDriftDetection_loop_observed:
  "waitForDriftDetection_loop w i tmo ntk = Some ((st, e), w') \<Longrightarrow> e = None \<or> st \<noteq> [] \<Longrightarrow>
     \<exists>used l reason ts. script w = used @ (l, DetectionStatus st reason) # script w'
       \<and> list_all detecting used
       \<and> st \<in> {StackDriftDetectionStatusDetectionComplete,
                 StackDriftDetectionStatusDetectionFailed}
       \<and> (st, e) = detection_result st reason
       \<and> calls w' = calls w @ map (\<lambda>t. (t, DescribeStackDriftDetectionStatusInput i)) ts
       \<and> length ts = Suc (length used)"
proof (induction w i tmo ntk rule: waitForDriftDetection_loop.induct)
  case (1 w i tmo ntk)
  show ?case
  proof (cases "waitForDriftDetection_iter w i tmo ntk")
    case None
    with "1.prems" show ?thesis by simp
  next
    case (Some p)
    obtain x w1 where p: "p = (x, w1)" by (cases p)
    with Some have it: "waitForDriftDetection_iter w i tmo ntk = Some (x, w1)" by simp
    show ?thesis
    proof (cases x)
      case (Return q)
      with it "1.prems"(1)
      have "waitForDriftDetection_iter w i tmo ntk = Some (Return (st, e), w')"
        by simp
      from waitForDriftDetection_iter_Return_observed [OF this "1.prems"(2)]
      obtain l reason t where "script w = [] @ (l, DetectionStatus st reason) # script w'"
        and "list_all detecting []"
        and "st \<in> {StackDriftDetectionStatusDetectionComplete,
                 StackDriftDetectionStatusDetectionFailed}"
        and "(st, e) = detection_result st reason"
        and "calls w' = calls w @ map (\<lambda>t. (t, DescribeStackDriftDetectionStatusInput i)) [t]"
        and "length [t] = Suc (length ([] :: (nat \<times> answer) list))"
        by auto
      then show ?thesis by blast
    next
      case (Continue k)
      with it "1.prems"(1) have l: "waitForDriftDetection_loop w1 i tmo k = Some ((st, e), w')"
        by simp
      from Some p Continue l "1.prems"(2)
      have "\<exists>used l reason ts. script w1 = used @ (l, DetectionStatus st reason) # script w'
         \<and> list_all detecting used
         \<and> st \<in> {StackDriftDetectionStatusDetectionComplete,
                 StackDriftDetectionStatusDetectionFailed}
         \<and> (st, e) = detection_result st reason
         \<and> calls w' = calls w1 @ map (\<lambda>t. (t, DescribeStackDriftDetectionStatusInput i)) ts
         \<and> length ts = Suc (length used)"
        by (intro "1.IH") simp_all
      then obtain used l reason ts where
        u: "script w1 = used @ (l, DetectionStatus st reason) # script w'"
        "list_all detecting used"
        "st \<in> {StackDriftDetectionStatusDetectionComplete,
                 StackDriftDetectionStatusDetectionFailed}"
        "(st, e) = detection_result st reason"
        "calls w' = calls w1 @ map (\<lambda>t. (t, DescribeStackDriftDetectionStatusInput i)) ts"
        "length ts = Suc (length used)"
        by blast
      from it Continue obtain la t where v: "script w = la # script w1" "detecting la"
        "calls w1 = calls w @ [(t, DescribeStackDriftDetectionStatusInput i)]"
        using waitForDriftDetection_iter_Continue_observed by blast
      from u v have "script w = (la # used) @ (l, DetectionStatus st reason) # script w'
         \<and> list_all detecting (la # used)
         \<and> st \<in> {StackDriftDetectionStatusDetectionComplete,
                 StackDriftDetectionStatusDetectionFailed}
         \<and> (st, e) = detection_result st reason
         \<and> calls w' = calls w @ map (\<lambda>t. (t, DescribeStackDriftDetectionStatusInput i)) (t # ts)
         \<and> length (t # ts) = Suc (length (la # used))"
        by simp
      then show ?thesis by blast
    qed
  qed
qed

section \<open>The drift poller\<close>

text \<open>
  C8. When a tick is received and the status call returns a detection status: the pass
  through the loop returns that status with no error exactly when it is
  detection-complete; it returns it with the error that carries the reason supplied by
  the remote service exactly when it is detection-failed; for every other status the
  loop goes round again, and so does the whole loop: it goes on from the world the call
  left, waiting for the next tick. The tick sends exactly one request.

  For the whole call: when \<open>waitForDriftDetection\<close> returns a status, or no error, that
  status was reported in the last answer read, it is detection-complete exactly when no
  error is returned and detection-failed, with the error carrying the reason of that
  answer, otherwise, every answer read before had a status that is neither, and one
  request was sent for each answer read. And when the answers to come report statuses
  that are neither, each within one interval, and then detection-complete or
  detection-failed, all before the deadline and with the context live,
  \<open>waitForDriftDetection\<close> returns that last status, with the error carrying its reason
  when it is detection-failed, having sent exactly one request at each tick, one
  interval apart.
\<close>

theorem waitForDriftDetection_status_outcomes:
  assumes "select_chan w tmo ntk = (Ticker, w1)"
      and "DescribeStackDriftDetectionStatus w1 driftDetectionId
             = Some (Inr (status, statusReason), w2)"
  shows "(waitForDriftDetection_iter w driftDetectionId tmo ntk = Some (Return (status, None), w2))
           = (status = StackDriftDetectionStatusDetectionComplete)
       \<and> (waitForDriftDetection_iter w driftDetectionId tmo ntk
            = Some (Return (status,
                Some (Errorf (''drift detection failed: '' @ ToString statusReason))), w2))
           = (status = StackDriftDetectionStatusDetectionFailed)
       \<and> (waitForDriftDetection_iter w driftDetectionId tmo ntk
            = Some (Continue (next_tick waitForDriftDetection_interval ntk (now w1)), w2))
           = (status \<noteq> StackDriftDetectionStatusDetectionComplete
              \<and> status \<noteq> StackDriftDetectionStatusDetectionFailed)
       \<and> waitForDriftDetection_loop w driftDetectionId tmo ntk
           = (if status = StackDriftDetectionStatusDetectionComplete
              then Some ((status, None), w2)
              else if status = StackDriftDetectionStatusDetectionFailed
              then Some ((status,
                     Some (Errorf (''drift detection failed: '' @ ToString statusReason))), w2)
              else waitForDriftDetection_loop w2 driftDetectionId tmo
                     (next_tick waitForDriftDetection_interval ntk (now w1)))
       \<and> calls w2 = calls w @ [(now w1, DescribeStackDriftDetectionStatusInput driftDetectionId)]
       \<and> (waitForDriftDetection v driftDetectionId = Some ((st, e), v')
            \<and> (e = None \<or> st \<noteq> []) \<longrightarrow>
            (\<exists>used l reason ts.
               script v = used @ (l, DetectionStatus st reason) # script v'
               \<and> list_all detecting used
               \<and> (e = None) = (st = StackDriftDetectionStatusDetectionComplete)
               \<and> (e \<noteq> None) =
                   (st = StackDriftDetectionStatusDetectionFailed
                    \<and> e = Some (Errorf (''drift detection failed: '' @ ToString reason)))
               \<and> calls v' = calls v
                     @ map (\<lambda>t. (t, DescribeStackDriftDetectionStatusInput driftDetectionId)) ts
               \<and> length ts = Suc (length used)))
       \<and> (script u = pend @ (l, DetectionStatus dst dreason) # rest
            \<and> list_all (\<lambda>la. detecting la \<and> fst la < waitForDriftDetection_interval) pend
            \<and> dst \<in> {StackDriftDetectionStatusDetectionComplete,
                       StackDriftDetectionStatusDetectionFailed}
            \<and> Suc (length pend) * waitForDriftDetection_interval < waitForDriftDetection_deadline
            \<and> alive u (now u + Suc (length pend) * waitForDriftDetection_interval + l) \<longrightarrow>
            (\<exists>u'. waitForDriftDetection u driftDetectionId
                    = Some ((dst,
                        if dst = StackDriftDetectionStatusDetectionComplete then None
                        else Some (Errorf (''drift detection failed: '' @ ToString dreason))), u')
               \<and> calls u' = calls u
                     @ map (\<lambda>t. (t, DescribeStackDriftDetectionStatusInput driftDetectionId))
                         (instants (now u + waitForDriftDetection_interval)
                            waitForDriftDetection_interval (Suc (length pend)))
               \<and> script u' = rest
               \<and> now u' = now u + Suc (length pend) * waitForDriftDetection_interval + l))"
proof -
  let ?k = "next_tick waitForDriftDetection_interval ntk (now w1)"
  let ?T = "{StackDriftDetectionStatusDetectionComplete,
             StackDriftDetectionStatusDetectionFailed}"
  note f = select_chan_facts [OF assms(1)]
  have i: "waitForDriftDetection_iter w driftDetectionId tmo ntk =
      Some (waitForDriftDetection_switch (Inr (status, statusReason)) ?k, w2)"
    using waitForDriftDetection_iter_Ticker [OF assms(1), of driftDetectionId] assms(2) by simp
  have c: "calls w2 = calls w @ [(now w1, DescribeStackDriftDetectionStatusInput driftDetectionId)]"
    using DescribeStackDriftDetectionStatus_facts(1) [OF assms(2)] f(1) by simp
  have d: "StackDriftDetectionStatusDetectionComplete \<noteq> StackDriftDetectionStatusDetectionFailed"
    by (simp add: status_defs)
  have p1: "(waitForDriftDetection_iter w driftDetectionId tmo ntk
              = Some (Return (status, None), w2))
           = (status = StackDriftDetectionStatusDetectionComplete)"
    unfolding i waitForDriftDetection_switch_def by simp
  have p2: "(waitForDriftDetection_iter w driftDetectionId tmo ntk
            = Some (Return (status,
                Some (Errorf (''drift detection failed: '' @ ToString statusReason))), w2))
           = (status = StackDriftDetectionStatusDetectionFailed)"
    unfolding i waitForDriftDetection_switch_def using d by auto
  have p3: "(waitForDriftDetection_iter w driftDetectionId tmo ntk = Some (Continue ?k, w2))
           = (status \<noteq> StackDriftDetectionStatusDetectionComplete
              \<and> status \<noteq> StackDriftDetectionStatusDetectionFailed)"
    unfolding i waitForDriftDetection_switch_def by simp
  have p4: "waitForDriftDetection_loop w driftDetectionId tmo ntk
           = (if status = StackDriftDetectionStatusDetectionComplete
              then Some ((status, None), w2)
              else if status = StackDriftDetectionStatusDetectionFailed
              then Some ((status,
                     Some (Errorf (''drift detection failed: '' @ ToString statusReason))), w2)
              else waitForDriftDetection_loop w2 driftDetectionId tmo ?k)"
    by (subst waitForDriftDetection_loop.simps)
       (simp add: i waitForDriftDetection_switch_def)
  have p5: "waitForDriftDetection v driftDetectionId = Some ((st, e), v')
            \<and> (e = None \<or> st \<noteq> []) \<longrightarrow>
            (\<exists>used l reason ts.
               script v = used @ (l, DetectionStatus st reason) # script v'
               \<and> list_all detecting used
               \<and> (e = None) = (st = StackDriftDetectionStatusDetectionComplete)
               \<and> (e \<noteq> None) =
                   (st = StackDriftDetectionStatusDetectionFailed
                    \<and> e = Some (Errorf (''drift detection failed: '' @ ToString reason)))
               \<and> calls v' = calls v
                     @ map (\<lambda>t. (t, DescribeStackDriftDetectionStatusInput driftDetectionId)) ts
               \<and> length ts = Suc (length used))"
  proof
    assume a: "waitForDriftDetection v driftDetectionId = Some ((st, e), v')
       \<and> (e = None \<or> st \<noteq> [])"
    then have "waitForDriftDetection_loop v driftDetectionId
        (now v + waitForDriftDetection_deadline) (now v + waitForDriftDetection_interval)
          = Some ((st, e), v')"
      by (simp add: waitForDriftDetection_def)
    from waitForDriftDetection_loop_observed [OF this] a
    obtain used l reason ts where
      o: "script v = used @ (l, DetectionStatus st reason) # script v'"
      "list_all detecting used"
      "calls v' = calls v
         @ map (\<lambda>t. (t, DescribeStackDriftDetectionStatusInput driftDetectionId)) ts"
      "length ts = Suc (length used)"
      and m: "st \<in> ?T" and r: "(st, e) = detection_result st reason"
      by blast
    from m r d have "(e = None) = (st = StackDriftDetectionStatusDetectionComplete)"
      and "(e \<noteq> None) =
             (st = StackDriftDetectionStatusDetectionFailed
              \<and> e = Some (Errorf (''drift detection failed: '' @ ToString reason)))"
      unfolding detection_result_def by auto
    with o show "\<exists>used l reason ts.
               script v = used @ (l, DetectionStatus st reason) # script v'
               \<and> list_all detecting used
               \<and> (e = None) = (st = StackDriftDetectionStatusDetectionComplete)
               \<and> (e \<noteq> None) =
                   (st = StackDriftDetectionStatusDetectionFailed
                    \<and> e = Some (Errorf (''drift detection failed: '' @ ToString reason)))
               \<and> calls v' = calls v
                     @ map (\<lambda>t. (t, DescribeStackDriftDetectionStatusInput driftDetectionId)) ts
               \<and> length ts = Suc (length used)"
      by blast
  qed
  have p6: "script u = pend @ (l, DetectionStatus dst dreason) # rest
            \<and> list_all (\<lambda>la. detecting la \<and> fst la < waitForDriftDetection_interval) pend
            \<and> dst \<in> ?T
            \<and> Suc (length pend) * waitForDriftDetection_interval < waitForDriftDetection_deadline
            \<and> alive u (now u + Suc (length pend) * waitForDriftDetection_interval + l) \<longrightarrow>
            (\<exists>u'. waitForDriftDetection u driftDetectionId
                    = Some ((dst,
                        if dst = StackDriftDetectionStatusDetectionComplete then None
                        else Some (Errorf (''drift detection failed: '' @ ToString dreason))), u')
               \<and> calls u' = calls u
                     @ map (\<lambda>t. (t, DescribeStackDriftDetectionStatusInput driftDetectionId))
                         (instants (now u + waitForDriftDetection_interval)
                            waitForDriftDetection_interval (Suc (length pend)))
               \<and> script u' = rest
               \<and> now u' = now u + Suc (length pend) * waitForDriftDetection_interval + l)"
  proof
    assume a: "script u = pend @ (l, DetectionStatus dst dreason) # rest
            \<and> list_all (\<lambda>la. detecting la \<and> fst la < waitForDriftDetection_interval) pend
            \<and> dst \<in> ?T
            \<and> Suc (length pend) * waitForDriftDetection_interval < waitForDriftDetection_deadline
            \<and> alive u (now u + Suc (length pend) * waitForDriftDetection_interval + l)"
    have "\<exists>u'. waitForDriftDetection_loop u driftDetectionId
                 (now u + waitForDriftDetection_deadline) (now u + waitForDriftDetection_interval)
                   = Some (detection_result dst dreason, u')
       \<and> calls u' = calls u
             @ map (\<lambda>t. (t, DescribeStackDriftDetectionStatusInput driftDetectionId))
                 (instants (now u + waitForDriftDetection_interval)
                    waitForDriftDetection_interval (Suc (length pend)))
       \<and> script u' = rest
       \<and> now u' = now u + waitForDriftDetection_interval
                    + length pend * waitForDriftDetection_interval + l"
    proof (rule waitForDriftDetection_loop_polls_until_terminal)
      from a show "list_all (\<lambda>la. detecting la \<and> fst la < waitForDriftDetection_interval) pend"
        and "dst \<in> ?T"
        and "script u = pend @ (l, DetectionStatus dst dreason) # rest"
        by simp_all
      show "now u < now u + waitForDriftDetection_interval"
        using waitForDriftDetection_interval_pos by simp
      from a show "now u + waitForDriftDetection_interval
            + length pend * waitForDriftDetection_interval
          < now u + waitForDriftDetection_deadline"
        by simp
      from a show "alive u (now u + waitForDriftDetection_interval
            + length pend * waitForDriftDetection_interval + l)"
        by (simp add: add.assoc)
    qed
    then show "\<exists>u'. waitForDriftDetection u driftDetectionId
                    = Some ((dst,
                        if dst = StackDriftDetectionStatusDetectionComplete then None
                        else Some (Errorf (''drift detection failed: '' @ ToString dreason))), u')
               \<and> calls u' = calls u
                     @ map (\<lambda>t. (t, DescribeStackDriftDetectionStatusInput driftDetectionId))
                         (instants (now u + waitForDriftDetection_interval)
                            waitForDriftDetection_interval (Suc (length pend)))
               \<and> script u' = rest
               \<and> now u' = now u + Suc (length pend) * waitForDriftDetection_interval + l"
      by (simp add: waitForDriftDetection_def detection_result_def add.assoc)
  qed
  show ?thesis
    by (intro conjI p1 p2 p3 p4 c p5 p6)
qed

text \<open>
  The three kinds of detection status on the first poll of detection \<open>d-1\<close>, and the two
  whole runs: three requests, at 5, 10 and 15 seconds, before detection-complete is
  returned, and two before detection-failed is returned with its reason.
\<close>

theorem waitForDriftDetection_status_outcomes_witness:
  "(\<exists>w2. waitForDriftDetection_iter (drift_poll_example ''DETECTION_COMPLETE'' None) ''d-1''
            (600 * Second) (5 * Second)
            = Some (Return (''DETECTION_COMPLETE'', None), w2)
        \<and> calls w2 = [(5 * Second, DescribeStackDriftDetectionStatusInput ''d-1'')])
   \<and> (\<exists>w2. waitForDriftDetection_iter
              (drift_poll_example ''DETECTION_FAILED'' (Some ''access denied'')) ''d-1''
              (600 * Second) (5 * Second)
            = Some (Return (''DETECTION_FAILED'',
                 Some (Errorf ''drift detection failed: access denied'')), w2))
   \<and> (\<exists>w2. waitForDriftDetection_iter (drift_poll_example ''DETECTION_IN_PROGRESS'' None) ''d-1''
              (600 * Second) (5 * Second)
            = Some (Continue (10 * Second), w2)
        \<and> waitForDriftDetection_loop (drift_poll_example ''DETECTION_IN_PROGRESS'' None) ''d-1''
              (600 * Second) (5 * Second)
            = waitForDriftDetection_loop w2 ''d-1'' (600 * Second) (10 * Second))
   \<and> (\<exists>u' used l reason ts.
         waitForDriftDetection detection_scenario ''d-1'' = Some ((''DETECTION_COMPLETE'', None), u')
         \<and> calls u' = [(5 * Second, DescribeStackDriftDetectionStatusInput ''d-1''),
                        (10 * Second, DescribeStackDriftDetectionStatusInput ''d-1''),
                        (15 * Second, DescribeStackDriftDetectionStatusInput ''d-1'')]
         \<and> script u' = [] \<and> now u' = 15 * Second + 1
         \<and> script detection_scenario
              = used @ (l, DetectionStatus ''DETECTION_COMPLETE'' reason) # script u'
         \<and> list_all detecting used
         \<and> calls u' = calls detection_scenario
               @ map (\<lambda>t. (t, DescribeStackDriftDetectionStatusInput ''d-1'')) ts
         \<and> length ts = Suc (length used))
   \<and> (\<exists>u'. waitForDriftDetection detection_failed_scenario ''d-1''
            = Some ((''DETECTION_FAILED'',
                 Some (Errorf ''drift detection failed: access denied'')), u')
         \<and> calls u' = [(5 * Second, DescribeStackDriftDetectionStatusInput ''d-1''),
                        (10 * Second, DescribeStackDriftDetectionStatusInput ''d-1'')]
         \<and> script u' = [] \<and> now u' = 10 * Second + 1)"
proof -
  note a = waitForDriftDetection_status_outcomes
             [OF drift_poll_example_select [of "''DETECTION_COMPLETE''" None]
                 drift_poll_example_status [of "''DETECTION_COMPLETE''" None]]
  note b = waitForDriftDetection_status_outcomes
             [OF drift_poll_example_select [of "''DETECTION_FAILED''" "Some ''access denied''"]
                 drift_poll_example_status [of "''DETECTION_FAILED''" "Some ''access denied''"]]
  note c = waitForDriftDetection_status_outcomes
             [OF drift_poll_example_select [of "''DETECTION_IN_PROGRESS''" None]
                 drift_poll_example_status [of "''DETECTION_IN_PROGRESS''" None]]
  have n: "next_tick waitForDriftDetection_interval (5 * Second) (5 * Second) = 10 * Second"
    by (simp add: next_tick_def duration_defs)
  have p1: "\<exists>w2. waitForDriftDetection_iter (drift_poll_example ''DETECTION_COMPLETE'' None) ''d-1''
            (600 * Second) (5 * Second)
            = Some (Return (''DETECTION_COMPLETE'', None), w2)
        \<and> calls w2 = [(5 * Second, DescribeStackDriftDetectionStatusInput ''d-1'')]"
    using a [THEN conjunct1]
      a [THEN conjunct2, THEN conjunct2, THEN conjunct2, THEN conjunct2, THEN conjunct1]
    by (simp add: status_defs drift_poll_example_def example_world_def)
  have p2: "\<exists>w2. waitForDriftDetection_iter
              (drift_poll_example ''DETECTION_FAILED'' (Some ''access denied'')) ''d-1''
              (600 * Second) (5 * Second)
            = Some (Return (''DETECTION_FAILED'',
                 Some (Errorf ''drift detection failed: access denied'')), w2)"
    using b [THEN conjunct2, THEN conjunct1] by (simp add: status_defs ToString_def)
  have p3: "\<exists>w2. waitForDriftDetection_iter (drift_poll_example ''DETECTION_IN_PROGRESS'' None) ''d-1''
              (600 * Second) (5 * Second)
            = Some (Continue (10 * Second), w2)
        \<and> waitForDriftDetection_loop (drift_poll_example ''DETECTION_IN_PROGRESS'' None) ''d-1''
              (600 * Second) (5 * Second)
            = waitForDriftDetection_loop w2 ''d-1'' (600 * Second) (10 * Second)"
    using c [THEN conjunct2, THEN conjunct2, THEN conjunct1]
      c [THEN conjunct2, THEN conjunct2, THEN conjunct2, THEN conjunct1]
    by (simp add: status_defs n)
  note run = a [where u = detection_scenario
                  and pend = "[(1, DetectionStatus ''DETECTION_IN_PROGRESS'' None),
                               (1, DetectionStatus ''DETECTION_IN_PROGRESS'' None)]"
                  and l = 1 and dst = "''DETECTION_COMPLETE''" and dreason = None
                  and rest = "[]",
                THEN conjunct2, THEN conjunct2, THEN conjunct2, THEN conjunct2, THEN conjunct2,
                THEN conjunct2, THEN mp]
  note obs = a [THEN conjunct2, THEN conjunct2, THEN conjunct2, THEN conjunct2, THEN conjunct2,
                THEN conjunct1, THEN mp]
  have "\<exists>u'. waitForDriftDetection detection_scenario ''d-1''
            = Some ((''DETECTION_COMPLETE'', None), u')
         \<and> calls u' = [(5 * Second, DescribeStackDriftDetectionStatusInput ''d-1''),
                        (10 * Second, DescribeStackDriftDetectionStatusInput ''d-1''),
                        (15 * Second, DescribeStackDriftDetectionStatusInput ''d-1'')]
         \<and> script u' = [] \<and> now u' = 15 * Second + 1"
    using run
    by (simp add: detection_scenario_def example_world_def detecting_def status_defs
          waitForDriftDetection_interval_def waitForDriftDetection_deadline_def
          duration_defs alive_def)
  then obtain u' where
    r: "waitForDriftDetection detection_scenario ''d-1'' = Some ((''DETECTION_COMPLETE'', None), u')"
    "calls u' = [(5 * Second, DescribeStackDriftDetectionStatusInput ''d-1''),
                        (10 * Second, DescribeStackDriftDetectionStatusInput ''d-1''),
                        (15 * Second, DescribeStackDriftDetectionStatusInput ''d-1'')]"
    "script u' = []" "now u' = 15 * Second + 1"
    by blast
  from obs [of detection_scenario "''DETECTION_COMPLETE''" None u'] r(1)
  obtain used l reason ts where
    o: "script detection_scenario
          = used @ (l, DetectionStatus ''DETECTION_COMPLETE'' reason) # script u'"
    "list_all detecting used"
    "calls u' = calls detection_scenario
       @ map (\<lambda>t. (t, DescribeStackDriftDetectionStatusInput ''d-1'')) ts"
    "length ts = Suc (length used)"
    by auto
  from r o have p4: "\<exists>u' used l reason ts.
         waitForDriftDetection detection_scenario ''d-1'' = Some ((''DETECTION_COMPLETE'', None), u')
         \<and> calls u' = [(5 * Second, DescribeStackDriftDetectionStatusInput ''d-1''),
                        (10 * Second, DescribeStackDriftDetectionStatusInput ''d-1''),
                        (15 * Second, DescribeStackDriftDetectionStatusInput ''d-1'')]
         \<and> script u' = [] \<and> now u' = 15 * Second + 1
         \<and> script detection_scenario
              = used @ (l, DetectionStatus ''DETECTION_COMPLETE'' reason) # script u'
         \<and> list_all detecting used
         \<and> calls u' = calls detection_scenario
               @ map (\<lambda>t. (t, DescribeStackDriftDetectionStatusInput ''d-1'')) ts
         \<and> length ts = Suc (length used)"
    by blast
  note run2 = b [where u = detection_failed_scenario
                  and pend = "[(1, DetectionStatus ''DETECTION_IN_PROGRESS'' None)]"
                  and l = 1 and dst = "''DETECTION_FAILED''"
                  and dreason = "Some ''access denied''" and rest = "[]",
                THEN conjunct2, THEN conjunct2, THEN conjunct2, THEN conjunct2, THEN conjunct2,
                THEN conjunct2, THEN mp]
  have p5: "\<exists>u'. waitForDriftDetection detection_failed_scenario ''d-1''
            = Some ((''DETECTION_FAILED'',
                 Some (Errorf ''drift detection failed: access denied'')), u')
         \<and> calls u' = [(5 * Second, DescribeStackDriftDetectionStatusInput ''d-1''),
                        (10 * Second, DescribeStackDriftDetectionStatusInput ''d-1'')]
         \<and> script u' = [] \<and> now u' = 10 * Second + 1"
    using run2
    by (simp add: detection_failed_scenario_def example_world_def detecting_def status_defs
          waitForDriftDetection_interval_def waitForDriftDetection_deadline_def
          duration_defs alive_def ToString_def)
  show ?thesis
    by (intro conjI p1 p2 p3 p4 p5)
qed

section \<open>A client call under a context\<close>

text \<open>
  A client call takes the head of the script: it returns its answer, or, when the
  context is cancelled before the answer has come, the error of the cancelled call.
\<close>

lemma call_answer:
  assumes "script w = (l, a) # rest"
  shows "call w rq
     = Some (if aborted w l then Fails (canceled w rq) else a,
         w\<lparr>now := returns_at w l, script := rest, calls := calls w @ [(now w, rq)]\<rparr>)"
  using assms by (simp add: call_def)

lemma DescribeStacks_answer:
  assumes "script w = (l, a) # rest"
  shows "DescribeStacks w n =
     (case (if aborted w l then Fails (canceled w (DescribeStacksInput n)) else a) of
        Fails err \<Rightarrow> Some (Inl err, w\<lparr>now := returns_at w l, script := rest,
                                    calls := calls w @ [(now w, DescribeStacksInput n)]\<rparr>)
      | Stacks ss \<Rightarrow> Some (Inr ss, w\<lparr>now := returns_at w l, script := rest,
                                    calls := calls w @ [(now w, DescribeStacksInput n)]\<rparr>)
      | _ \<Rightarrow> None)"
  by (simp add: DescribeStacks_def call_answer [OF assms] split: answer.splits)

section \<open>Poll intervals and deadlines\<close>

text \<open>
  C3, as the spec states it, fails: measured in the unit in which the poll interval of
  \<open>waitForStack\<close> is 10 (the second), its deadline is not 30; measured in the unit in
  which the poll interval of \<open>waitForDriftDetection\<close> is 5, its deadline is not 10.
\<close>

theorem deadlines_not_in_interval_unit:
  "waitForStack_interval = 10 * Second \<and> waitForStack_deadline \<noteq> 30 * Second
   \<and> waitForDriftDetection_interval = 5 * Second
   \<and> waitForDriftDetection_deadline \<noteq> 10 * Second"
  by (simp add: duration_defs)

text \<open>
  C3, amended: \<open>waitForStack\<close> polls every 10 seconds under a deadline of 30 minutes,
  which is 1800 seconds or 180 poll intervals after entry; \<open>waitForDriftDetection\<close> polls
  every 5 seconds under a deadline of 10 minutes, which is 600 seconds or 120 poll
  intervals after entry. A tick received on time is followed by the next one interval
  later.
\<close>

theorem poll_intervals_and_deadlines:
  "waitForStack w stackName =
     waitForStack_loop w stackName (now w + 1800 * Second) (now w + 10 * Second)
   \<and> next_tick waitForStack_interval ntk ntk = ntk + 10 * Second
   \<and> waitForStack_deadline = 30 * Minute
   \<and> waitForStack_deadline = 180 * waitForStack_interval
   \<and> waitForDriftDetection w driftDetectionId =
       waitForDriftDetection_loop w driftDetectionId (now w + 600 * Second) (now w + 5 * Second)
   \<and> next_tick waitForDriftDetection_interval ntk ntk = ntk + 5 * Second
   \<and> waitForDriftDetection_deadline = 10 * Minute
   \<and> waitForDriftDetection_deadline = 120 * waitForDriftDetection_interval"
  by (simp add: waitForStack_def waitForDriftDetection_def next_tick_def duration_defs)

section \<open>Stack outputs\<close>

text \<open>
  C7. When the describe call of \<open>getStackOutputs\<close> answers with no stack and no error,
  the function returns the nil slice and no error, where \<open>getStackStatus\<close> and
  \<open>getDriftResults\<close> return the error \<^verbatim>\<open>stack ... not found\<close> for the same answer.
\<close>

theorem getStackOutputs_no_stack_no_error:
  "(case getStackOutputs (example_world [(5, Stacks [])]) ''Net'' of
      None \<Rightarrow> False
    | Some ((outputs, err), w') \<Rightarrow> outputs = None \<and> err = None)
   \<and> (case getStackStatus (example_world [(5, Stacks [])]) ''Net'' of
        None \<Rightarrow> False
      | Some ((status, err), w') \<Rightarrow> err = Some (Errorf ''stack Net not found''))
   \<and> (case getDriftResults (example_world [(5, Stacks [])]) ''Net'' of
        None \<Rightarrow> False
      | Some (r, w') \<Rightarrow> r = Inl (Errorf ''stack Net not found''))"
  by (simp add: getStackOutputs_def getStackStatus_def getDriftResults_def
        DescribeStacks_answer aborted_def example_world_def)

text \<open>
  What \<open>getStackOutputs\<close> returns for each answer of the describe call: nothing and no
  error for a stack with no outputs and for no stack at all, the wrapped error when
  the call fails.
\<close>

lemma getStackOutputs_cases:
  assumes "script w = (l, a) # rest" and "\<not> aborted w l"
  shows "(\<forall>s ss. a = Stacks (s # ss) \<and> Stack.Outputs s = [] \<longrightarrow>
            (\<exists>outputs w'. getStackOutputs w stackName = Some ((outputs, None), w') \<and> len outputs = 0))
       \<and> (a = Stacks [] \<longrightarrow>
            (\<exists>outputs w'. getStackOutputs w stackName = Some ((outputs, None), w') \<and> len outputs = 0))
       \<and> (\<forall>err. a = Fails err \<longrightarrow>
            (\<exists>w'. getStackOutputs w stackName =
                     Some ((None, Some (Wrapf ''failed to describe stack: '' err)), w')))"
  using assms
  by (simp add: getStackOutputs_def DescribeStacks_answer len_def elems_def)

lemma Deploy_steps:
  assumes "Deploy v stackName = Some (Inr r, v')"
  shows "\<exists>templateBody exists v1 v2 v3.
       GetTemplateBody v stackName = Inr templateBody
       \<and> stackExists v stackName = Some ((exists, None), v1)
       \<and> (if exists then updateStack v1 stackName templateBody
           else createStack v1 stackName templateBody)
           = Some ((DeployResult.StackID r, None), v2)
       \<and> waitForStack v2 stackName = Some ((DeployResult.Status r, None), v3)
       \<and> getStackOutputs v3 stackName = Some ((DeployResult.Outputs r, None), v')
       \<and> DeployResult.StackName r = stackName"
proof -
  from assms obtain templateBody where t: "GetTemplateBody v stackName = Inr templateBody"
    by (auto simp: Deploy_def split: sum.splits)
  from assms t obtain exists v1 where e: "stackExists v stackName = Some ((exists, None), v1)"
    by (auto simp: Deploy_def split: option.splits prod.splits)
  let ?c = "if exists then updateStack v1 stackName templateBody
            else createStack v1 stackName templateBody"
  from assms t e obtain stackID v2 where c: "?c = Some ((stackID, None), v2)"
    by (auto simp: Deploy_def split: option.splits prod.splits)
  from assms t e c obtain status v3 where
    s: "waitForStack v2 stackName = Some ((status, None), v3)"
    by (auto simp: Deploy_def split: option.splits prod.splits)
  from assms t e c s obtain outputs where
    "getStackOutputs v3 stackName = Some ((outputs, None), v')"
    and "r = \<lparr>DeployResult.StackName = stackName, StackID = stackID,
               Status = status, Outputs = outputs\<rparr>"
    by (auto simp: Deploy_def split: option.splits prod.splits)
  with t e c s show ?thesis
    by simp
qed

text \<open>
  C9, amended. The outputs that \<open>getStackOutputs\<close> returns, when its describe call is
  not aborted by the context, are those of the first stack described, key for key and
  value for value (a nil key or value reads as the empty string), in the same order;
  when that stack has no outputs, the result is the nil slice, of length 0, and not an
  allocated empty slice. When the call is aborted, it returns the wrapped error of the
  call and no outputs. A successful \<open>Deploy\<close> has read the template, asked for the
  stack, created or updated it, waited for the status it reports, and its \<open>Outputs\<close>
  field is what \<open>getStackOutputs\<close> returned after the wait.
\<close>

theorem Deploy_outputs_round_trip:
  "(script w = (l, Stacks (st # ss)) # rest \<and> \<not> aborted w l \<longrightarrow>
      (\<exists>outputs w'. getStackOutputs w stackName = Some ((outputs, None), w')
         \<and> elems outputs =
             map (\<lambda>out. \<lparr>Key = ToString (OutputKey out), Value = ToString (OutputValue out)\<rparr>)
               (Stack.Outputs st)
         \<and> (outputs = None) = (Stack.Outputs st = [])))
   \<and> (script w = (l, a) # rest \<and> aborted w l \<longrightarrow>
        (\<exists>w'. getStackOutputs w stackName
                 = Some ((None, Some (Wrapf ''failed to describe stack: ''
                                        (canceled w (DescribeStacksInput stackName)))), w')))
   \<and> (Deploy v stackName = Some (Inr r, v') \<longrightarrow>
        (\<exists>templateBody exists v1 v2 v3.
           GetTemplateBody v stackName = Inr templateBody
           \<and> stackExists v stackName = Some ((exists, None), v1)
           \<and> (if exists then updateStack v1 stackName templateBody
               else createStack v1 stackName templateBody)
               = Some ((DeployResult.StackID r, None), v2)
           \<and> waitForStack v2 stackName = Some ((DeployResult.Status r, None), v3)
           \<and> getStackOutputs v3 stackName = Some ((DeployResult.Outputs r, None), v')
           \<and> DeployResult.StackName r = stackName))"
proof (intro conjI impI)
  assume s: "script w = (l, Stacks (st # ss)) # rest \<and> \<not> aborted w l"
  have "(\<lambda>out. \<lparr>Key = ToString (OutputKey out), Value = ToString (OutputValue out)\<rparr>) = stackOutput"
    by (rule ext) (simp add: stackOutput_def)
  then show "\<exists>outputs w'. getStackOutputs w stackName = Some ((outputs, None), w')
         \<and> elems outputs =
             map (\<lambda>out. \<lparr>Key = ToString (OutputKey out), Value = ToString (OutputValue out)\<rparr>)
               (Stack.Outputs st)
         \<and> (outputs = None) = (Stack.Outputs st = [])"
    using s
    by (simp add: getStackOutputs_def DescribeStacks_answer elems_foldl_append_slice
          foldl_append_slice_nil)
next
  assume "script w = (l, a) # rest \<and> aborted w l"
  then show "\<exists>w'. getStackOutputs w stackName
                 = Some ((None, Some (Wrapf ''failed to describe stack: ''
                                        (canceled w (DescribeStacksInput stackName)))), w')"
    by (simp add: getStackOutputs_def DescribeStacks_answer)
next
  assume "Deploy v stackName = Some (Inr r, v')"
  then show "\<exists>templateBody exists v1 v2 v3.
           GetTemplateBody v stackName = Inr templateBody
           \<and> stackExists v stackName = Some ((exists, None), v1)
           \<and> (if exists then updateStack v1 stackName templateBody
               else createStack v1 stackName templateBody)
               = Some ((DeployResult.StackID r, None), v2)
           \<and> waitForStack v2 stackName = Some ((DeployResult.Status r, None), v3)
           \<and> getStackOutputs v3 stackName = Some ((DeployResult.Outputs r, None), v')
           \<and> DeployResult.StackName r = stackName"
    by (rule Deploy_steps)
qed

lemma Deploy_deploy_example:
  "\<exists>w'. Deploy deploy_example ''Net'' =
     Some (Inr \<lparr>DeployResult.StackName = ''Net'', StackID = ''arn:stack/Net'',
                 Status = ''CREATE_COMPLETE'',
                 Outputs = Some [\<lparr>Key = ''K1'', Value = ''V1''\<rparr>, \<lparr>Key = ''K2'', Value = ''V2''\<rparr>]\<rparr>, w')"
  by (simp add: deploy_example_def eval_defs)


text \<open>
  The two outputs of stack \<open>Net\<close> come back in order, from \<open>getStackOutputs\<close> and in the
  result of \<open>Deploy\<close>, which has created the stack and waited for it; and a describe
  call that the context cancels after one of its five nanoseconds gives the error of
  the call.
\<close>

theorem Deploy_outputs_round_trip_witness:
  "(\<exists>outputs w'.
      getStackOutputs
        (example_world
          [(1, Stacks [\<lparr>StackStatus = ''CREATE_COMPLETE'',
                       Outputs = [\<lparr>OutputKey = Some ''K1'', OutputValue = Some ''V1''\<rparr>,
                                  \<lparr>OutputKey = Some ''K2'', OutputValue = Some ''V2''\<rparr>],
                       DriftInformation = None\<rparr>])]) ''Net'' = Some ((outputs, None), w')
      \<and> elems outputs = [\<lparr>Key = ''K1'', Value = ''V1''\<rparr>, \<lparr>Key = ''K2'', Value = ''V2''\<rparr>]
      \<and> outputs \<noteq> None)
   \<and> (\<exists>w'. getStackOutputs (example_world [(5, Stacks [])]\<lparr>cancel_at := Some 1\<rparr>) ''Net''
          = Some ((None,
              Some (Wrapf ''failed to describe stack: ''
                (Wrapf ''operation error CloudFormation: DescribeStacks, ''
                  (Wrapf ''canceled, '' Canceled)))), w'))
   \<and> (\<exists>templateBody v1 v2 v3 w1.
        Deploy deploy_example ''Net'' =
          Some (Inr \<lparr>DeployResult.StackName = ''Net'', StackID = ''arn:stack/Net'',
                      Status = ''CREATE_COMPLETE'',
                      Outputs = Some [\<lparr>Key = ''K1'', Value = ''V1''\<rparr>,
                                      \<lparr>Key = ''K2'', Value = ''V2''\<rparr>]\<rparr>, w1)
        \<and> GetTemplateBody deploy_example ''Net'' = Inr templateBody
        \<and> stackExists deploy_example ''Net'' = Some ((False, None), v1)
        \<and> createStack v1 ''Net'' templateBody = Some ((''arn:stack/Net'', None), v2)
        \<and> waitForStack v2 ''Net'' = Some ((''CREATE_COMPLETE'', None), v3)
        \<and> getStackOutputs v3 ''Net''
            = Some ((Some [\<lparr>Key = ''K1'', Value = ''V1''\<rparr>, \<lparr>Key = ''K2'', Value = ''V2''\<rparr>], None), w1))"
proof -
  let ?r = "\<lparr>DeployResult.StackName = ''Net'', StackID = ''arn:stack/Net'',
                      Status = ''CREATE_COMPLETE'',
                      Outputs = Some [\<lparr>Key = ''K1'', Value = ''V1''\<rparr>,
                                      \<lparr>Key = ''K2'', Value = ''V2''\<rparr>]\<rparr>"
  let ?st = "\<lparr>StackStatus = ''CREATE_COMPLETE'',
                       Outputs = [\<lparr>OutputKey = Some ''K1'', OutputValue = Some ''V1''\<rparr>,
                                  \<lparr>OutputKey = Some ''K2'', OutputValue = Some ''V2''\<rparr>],
                       DriftInformation = None\<rparr>"
  let ?c = "example_world [(5, Stacks [])]\<lparr>cancel_at := Some 1\<rparr>"
  obtain w1 where d: "Deploy deploy_example ''Net'' = Some (Inr ?r, w1)"
    using Deploy_deploy_example by blast
  have a: "script (example_world [(1, Stacks [?st])]) = (1, Stacks (?st # [])) # []
      \<and> \<not> aborted (example_world [(1, Stacks [?st])]) 1"
    by (simp add: example_world_def aborted_def)
  have b: "script ?c = (5, Stacks []) # [] \<and> aborted ?c 5"
    by (simp add: example_world_def aborted_def)
  have e: "stackExists deploy_example ''Net'' = Some ((exists, None), v1) \<Longrightarrow> \<not> exists"
    for exists v1
    by (simp add: deploy_example_def example_world_def stackExists_def DescribeStacks_def
          call_def aborted_def returns_at_def)
  have p1: "\<exists>outputs w'.
      getStackOutputs (example_world [(1, Stacks [?st])]) ''Net'' = Some ((outputs, None), w')
      \<and> elems outputs = [\<lparr>Key = ''K1'', Value = ''V1''\<rparr>, \<lparr>Key = ''K2'', Value = ''V2''\<rparr>]
      \<and> outputs \<noteq> None"
    using Deploy_outputs_round_trip
         [where w = "example_world [(1, Stacks [?st])]" and l = 1 and st = ?st and ss = "[]"
            and rest = "[]" and stackName = "''Net''", THEN conjunct1, THEN mp, OF a]
    by (simp add: ToString_def)
  have p2: "\<exists>w'. getStackOutputs ?c ''Net''
          = Some ((None,
              Some (Wrapf ''failed to describe stack: ''
                (Wrapf ''operation error CloudFormation: DescribeStacks, ''
                  (Wrapf ''canceled, '' Canceled)))), w')"
    using Deploy_outputs_round_trip
         [where w = ?c and l = 5 and a = "Stacks []" and rest = "[]" and stackName = "''Net''",
          THEN conjunct2, THEN conjunct1, THEN mp, OF b]
    by (simp add: canceled_def ctx_Err_def example_world_def)
  from Deploy_outputs_round_trip
         [where v = deploy_example and stackName = "''Net''" and r = ?r and v' = w1,
          THEN conjunct2, THEN conjunct2, THEN mp, OF d]
  obtain templateBody exists v1 v2 v3 where
    s: "GetTemplateBody deploy_example ''Net'' = Inr templateBody"
    "stackExists deploy_example ''Net'' = Some ((exists, None), v1)"
    "(if exists then updateStack v1 ''Net'' templateBody
      else createStack v1 ''Net'' templateBody) = Some ((''arn:stack/Net'', None), v2)"
    "waitForStack v2 ''Net'' = Some ((''CREATE_COMPLETE'', None), v3)"
    "getStackOutputs v3 ''Net''
       = Some ((Some [\<lparr>Key = ''K1'', Value = ''V1''\<rparr>, \<lparr>Key = ''K2'', Value = ''V2''\<rparr>], None), w1)"
    by auto
  from e [OF s(2)] s d have p3: "\<exists>templateBody v1 v2 v3 w1.
        Deploy deploy_example ''Net'' = Some (Inr ?r, w1)
        \<and> GetTemplateBody deploy_example ''Net'' = Inr templateBody
        \<and> stackExists deploy_example ''Net'' = Some ((False, None), v1)
        \<and> createStack v1 ''Net'' templateBody = Some ((''arn:stack/Net'', None), v2)
        \<and> waitForStack v2 ''Net'' = Some ((''CREATE_COMPLETE'', None), v3)
        \<and> getStackOutputs v3 ''Net''
            = Some ((Some [\<lparr>Key = ''K1'', Value = ''V1''\<rparr>, \<lparr>Key = ''K2'', Value = ''V2''\<rparr>], None), w1)"
    by auto
  show ?thesis
    by (intro conjI p1 p2 p3)
qed

text \<open>
  C9, as the spec states it, fails for a stack with no outputs: the \<open>Outputs\<close> field of
  the result is the nil slice, not an allocated empty one.
\<close>

theorem Deploy_no_outputs_nil:
  "(case Deploy
           (example_world
             [(1, Fails (Remote ''Stack with id Net does not exist'')),
              (1, StackId (Some ''arn:stack/Net'')),
              (1, Stacks [\<lparr>StackStatus = ''CREATE_COMPLETE'', Outputs = [],
                           DriftInformation = None\<rparr>]),
              (1, Stacks [\<lparr>StackStatus = ''CREATE_COMPLETE'', Outputs = [],
                           DriftInformation = None\<rparr>])]) ''Net'' of
      Some (Inr r, w') \<Rightarrow> DeployResult.Outputs r = None \<and> DeployResult.Outputs r \<noteq> Some []
    | _ \<Rightarrow> False)"
  by (simp add: eval_defs)

section \<open>Drift results\<close>

lemma DriftStatus_driftedResource [simp]:
  "DriftedResource.DriftStatus (driftedResource rd) = StackResourceDriftStatus rd"
  by (simp add: driftedResource_def)

text \<open>
  C5. \<open>getDriftResults\<close> asks for the drift records whose status is modified, deleted
  or not-checked, and, the context live until its two calls have returned, of the
  records of the stack exactly those have an entry in
  \<open>DriftedResources\<close>, in the order reported: a record with any other status, in-sync
  among them, has none, and every entry carries one of the three statuses. Each entry
  holds the property differences of its record in the order reported.
\<close>

theorem getDriftResults_drifted_resources:
  assumes "script w = (l1, Stacks (stack # others)) # (l2, ResourceDrifts rds) # rest"
      and "DriftInformation stack = Some di"
      and "alive w (now w + l1 + l2)"
  shows "\<exists>r w'. getDriftResults w stackName = Some (Inr r, w')
     \<and> calls w' = calls w @
          [(now w, DescribeStacksInput stackName),
           (now w + l1, DescribeStackResourceDriftsInput stackName
              [StackResourceDriftStatusModified, StackResourceDriftStatusDeleted,
               StackResourceDriftStatusNotChecked])]
     \<and> elems (DriftedResources r)
         = map driftedResource
             (filter (\<lambda>rd. StackResourceDriftStatus rd = StackResourceDriftStatusModified
                         \<or> StackResourceDriftStatus rd = StackResourceDriftStatusDeleted
                         \<or> StackResourceDriftStatus rd = StackResourceDriftStatusNotChecked) rds)
     \<and> (\<forall>rd \<in> set rds.
           (driftedResource rd \<in> set (elems (DriftedResources r)))
           = (StackResourceDriftStatus rd = StackResourceDriftStatusModified
              \<or> StackResourceDriftStatus rd = StackResourceDriftStatusDeleted
              \<or> StackResourceDriftStatus rd = StackResourceDriftStatusNotChecked))
     \<and> (\<forall>e \<in> set (elems (DriftedResources r)).
           DriftedResource.DriftStatus e = StackResourceDriftStatusModified
           \<or> DriftedResource.DriftStatus e = StackResourceDriftStatusDeleted
           \<or> DriftedResource.DriftStatus e = StackResourceDriftStatusNotChecked)
     \<and> (\<forall>rd. elems (PropertyDiffs (driftedResource rd))
           = map propertyDiff (PropertyDifferences rd))"
proof -
  let ?fs = "[StackResourceDriftStatusModified, StackResourceDriftStatusDeleted,
               StackResourceDriftStatusNotChecked]"
  let ?q = "\<lambda>rd. StackResourceDriftStatus rd = StackResourceDriftStatusModified
                         \<or> StackResourceDriftStatus rd = StackResourceDriftStatusDeleted
                         \<or> StackResourceDriftStatus rd = StackResourceDriftStatusNotChecked"
  let ?r = "\<lparr>DriftResult.StackName = stackName, DriftStatus = StackDriftStatus di,
             DriftedResources = foldl (\<lambda>rs rd. append_slice rs (driftedResource rd)) None
                (filter (\<lambda>rd. StackResourceDriftStatus rd \<in> set ?fs) rds)\<rparr>"
  have q: "(\<lambda>rd. StackResourceDriftStatus rd \<in> set ?fs) = ?q"
    by (rule ext) auto
  have g: "\<exists>w'. getDriftResults w stackName = Some (Inr ?r, w')
     \<and> calls w' = calls w @
          [(now w, DescribeStacksInput stackName),
           (now w + l1, DescribeStackResourceDriftsInput stackName ?fs)]"
  proof -
    let ?w1 = "w\<lparr>now := now w + l1, script := (l2, ResourceDrifts rds) # rest,
                 calls := calls w @ [(now w, DescribeStacksInput stackName)]\<rparr>"
    let ?w2 = "?w1\<lparr>now := now ?w1 + l2, script := rest,
                 calls := calls ?w1 @ [(now ?w1, DescribeStackResourceDriftsInput stackName ?fs)]\<rparr>"
    have a1: "alive w (now w + l1)"
      using assms(3) by (rule alive_mono) simp
    have a2: "alive ?w1 (now ?w1 + l2)"
      using assms(3) by (simp add: alive_def)
    have d1: "DescribeStacks w stackName = Some (Inr (stack # others), ?w1)"
      using DescribeStacks_script [OF assms(1) a1, of stackName] by simp
    have d2: "DescribeStackResourceDrifts ?w1 stackName ?fs
        = Some (Inr (filter (\<lambda>rd. StackResourceDriftStatus rd \<in> set ?fs) rds), ?w2)"
      by (rule trans [OF DescribeStackResourceDrifts_script
                [where l = l2 and a = "ResourceDrifts rds" and rest = rest, OF _ a2]])
         (simp_all del: set_simps)
    have "getDriftResults w stackName = Some (Inr ?r, ?w2)"
      using assms(2) d1 d2 by (simp add: getDriftResults_def del: set_simps)
    moreover have "calls ?w2 = calls w @
          [(now w, DescribeStacksInput stackName),
           (now w + l1, DescribeStackResourceDriftsInput stackName ?fs)]"
      by simp
    ultimately show ?thesis by blast
  qed
  have e: "elems (DriftedResources ?r) = map driftedResource (filter ?q rds)"
    by (simp only: q [symmetric]) (simp add: elems_foldl_append_slice)
  have m: "\<forall>rd \<in> set rds. (driftedResource rd \<in> set (map driftedResource (filter ?q rds))) = ?q rd"
  proof
    fix rd assume rd: "rd \<in> set rds"
    show "(driftedResource rd \<in> set (map driftedResource (filter ?q rds))) = ?q rd"
    proof
      assume "driftedResource rd \<in> set (map driftedResource (filter ?q rds))"
      then obtain rd' where "?q rd'" and "driftedResource rd = driftedResource rd'"
        by auto
      then have "StackResourceDriftStatus rd = StackResourceDriftStatus rd'"
        by (metis DriftStatus_driftedResource)
      with \<open>?q rd'\<close> show "?q rd" by simp
    next
      assume "?q rd" with rd show "driftedResource rd \<in> set (map driftedResource (filter ?q rds))"
        by auto
    qed
  qed
  have s: "\<forall>e \<in> set (map driftedResource (filter ?q rds)).
           DriftedResource.DriftStatus e = StackResourceDriftStatusModified
           \<or> DriftedResource.DriftStatus e = StackResourceDriftStatusDeleted
           \<or> DriftedResource.DriftStatus e = StackResourceDriftStatusNotChecked"
    by auto
  have p: "\<forall>rd. elems (PropertyDiffs (driftedResource rd)) = map propertyDiff (PropertyDifferences rd)"
    by (simp add: driftedResource_def elems_foldl_append_slice)
  from g obtain w' where g1: "getDriftResults w stackName = Some (Inr ?r, w')"
    and g2: "calls w' = calls w @
          [(now w, DescribeStacksInput stackName),
           (now w + l1, DescribeStackResourceDriftsInput stackName ?fs)]"
    by blast
  show ?thesis
    using g1 g2 e m s p by (intro exI [of _ ?r] exI [of _ w']) (simp only: simp_thms)
qed


text \<open>
  On the example only the modified function has an entry, with its one property
  difference; the bucket, in sync, has none.
\<close>

theorem getDriftResults_drifted_resources_witness:
  "\<exists>r w'. getDriftResults drift_example ''Net'' = Some (Inr r, w')
     \<and> elems (DriftedResources r) =
         [\<lparr>LogicalID = ''Fn'', PhysicalID = ''fn-1'', ResourceType = ''AWS::Lambda::Function'',
           DriftStatus = ''MODIFIED'',
           PropertyDiffs = Some [\<lparr>PropertyPath = ''Properties.Timeout'', ExpectedValue = ''30'',
                                  ActualValue = ''60'', DifferenceType = ''NOT_EQUAL''\<rparr>]\<rparr>]"
proof -
  let ?stack = "\<lparr>StackStatus = ''UPDATE_COMPLETE'', Outputs = [],
                     DriftInformation = Some \<lparr>StackDriftStatus = ''DRIFTED''\<rparr>\<rparr>"
  let ?fn = "\<lparr>LogicalResourceId = Some ''Fn'', PhysicalResourceId = Some ''fn-1'',
                StackResourceDrift.ResourceType = Some ''AWS::Lambda::Function'',
                StackResourceDriftStatus = ''MODIFIED'',
                PropertyDifferences =
                  [\<lparr>PropertyDifference.PropertyPath = Some ''Properties.Timeout'',
                    PropertyDifference.ExpectedValue = Some ''30'',
                    PropertyDifference.ActualValue = Some ''60'',
                    PropertyDifference.DifferenceType = ''NOT_EQUAL''\<rparr>]\<rparr>"
  let ?bucket = "\<lparr>LogicalResourceId = Some ''Bucket'', PhysicalResourceId = Some ''bucket-1'',
                StackResourceDrift.ResourceType = Some ''AWS::S3::Bucket'',
                StackResourceDriftStatus = ''IN_SYNC'',
                PropertyDifferences = []\<rparr>"
  have a: "script drift_example = (1, Stacks (?stack # [])) # (1, ResourceDrifts [?fn, ?bucket]) # []"
    by (simp add: drift_example_def example_world_def)
  have b: "DriftInformation ?stack = Some \<lparr>StackDriftStatus = ''DRIFTED''\<rparr>"
    by simp
  have c: "alive drift_example (now drift_example + 1 + 1)"
    by (simp add: drift_example_def example_world_def alive_def)
  from getDriftResults_drifted_resources [OF a b c, of "''Net''"]
  obtain r w' where g: "getDriftResults drift_example ''Net'' = Some (Inr r, w')"
    and e: "elems (DriftedResources r)
         = map driftedResource
             (filter (\<lambda>rd. StackResourceDriftStatus rd = StackResourceDriftStatusModified
                         \<or> StackResourceDriftStatus rd = StackResourceDriftStatusDeleted
                         \<or> StackResourceDriftStatus rd = StackResourceDriftStatusNotChecked)
                [?fn, ?bucket])"
    by blast
  from e have "elems (DriftedResources r) =
         [\<lparr>LogicalID = ''Fn'', PhysicalID = ''fn-1'', ResourceType = ''AWS::Lambda::Function'',
           DriftStatus = ''MODIFIED'',
           PropertyDiffs = Some [\<lparr>PropertyPath = ''Properties.Timeout'', ExpectedValue = ''30'',
                                  ActualValue = ''60'', DifferenceType = ''NOT_EQUAL''\<rparr>]\<rparr>]"
    by (simp add: status_defs driftedResource_def propertyDiff_def ToString_def append_slice_def)
  with g show ?thesis by blast
qed

section \<open>Facts about the batch loops\<close>

lemma DeployAll_loop_batch:
  "DeployAll_loop w results stacks = batch_loop Deploy ''failed to deploy stack '' w results stacks"
  by (induction stacks arbitrary: w results) (auto split: option.splits sum.splits)

lemma DetectDriftAll_loop_batch:
  "DetectDriftAll_loop w results stacks
     = batch_loop DetectDrift ''failed to detect drift for stack '' w results stacks"
  by (induction stacks arbitrary: w results) (auto split: option.splits sum.splits)

lemma slice_of_eq: "slice_of xs = (if xs = [] then None else Some xs)"
  using foldl_append_slice [of "\<lambda>x. x" None xs] by (simp add: slice_of_def elems_def)

lemma batch_loop_prefix:
  "all_succeed f w pre = Some (rs, w1) \<Longrightarrow>
     batch_loop f msg w results (pre @ rest)
       = batch_loop f msg w1 (foldl append_slice results rs) rest"
proof (induction pre arbitrary: w results rs)
  case Nil
  then show ?case by simp
next
  case (Cons n ns)
  from Cons.prems obtain r w0 rs' where f: "f w n = Some (Inr r, w0)"
    and a: "all_succeed f w0 ns = Some (rs', w1)" and rs: "rs = r # rs'"
    by (auto split: option.splits sum.splits)
  show ?case
    using f rs Cons.IH [OF a, of "append_slice results r"] by simp
qed

lemma batch_loop_success:
  "batch_loop f msg w results stacks = Some ((res, None), w') \<Longrightarrow>
     \<exists>rs. all_succeed f w stacks = Some (rs, w') \<and> res = foldl append_slice results rs"
proof (induction stacks arbitrary: w results)
  case Nil
  then show ?case by simp
next
  case (Cons n ns)
  from Cons.prems obtain r w0 where f: "f w n = Some (Inr r, w0)"
    and b: "batch_loop f msg w0 (append_slice results r) ns = Some ((res, None), w')"
    by (auto split: option.splits sum.splits)
  from Cons.IH [OF b] obtain rs where "all_succeed f w0 ns = Some (rs, w')"
    and "res = foldl append_slice (append_slice results r) rs"
    by blast
  with f have "all_succeed f w (n # ns) = Some (r # rs, w')
      \<and> res = foldl append_slice results (r # rs)"
    by simp
  then show ?case by blast
qed

lemma batch_loop_failure:
  "batch_loop f msg w results stacks = Some ((res, Some err), w') \<Longrightarrow>
     \<exists>pre b post rs w1 e. stacks = pre @ b # post \<and> all_succeed f w pre = Some (rs, w1)
        \<and> f w1 b = Some (Inl e, w') \<and> res = foldl append_slice results rs
        \<and> err = Wrapf (msg @ b @ '': '') e"
proof (induction stacks arbitrary: w results)
  case Nil
  then show ?case by simp
next
  case (Cons n ns)
  show ?case
  proof (cases "f w n")
    case None
    with Cons.prems show ?thesis by simp
  next
    case (Some p)
    obtain x w0 where p: "p = (x, w0)" by (cases p)
    show ?thesis
    proof (cases x)
      case (Inl e)
      with Some p Cons.prems have "w' = w0" and "res = results"
        and "err = Wrapf (msg @ n @ '': '') e"
        by simp_all
      with Some p Inl have "n # ns = [] @ n # ns \<and> all_succeed f w [] = Some ([], w)
        \<and> f w n = Some (Inl e, w') \<and> res = foldl append_slice results []
        \<and> err = Wrapf (msg @ n @ '': '') e"
        by simp
      then show ?thesis by blast
    next
      case (Inr r)
      with Some p Cons.prems
      have "batch_loop f msg w0 (append_slice results r) ns = Some ((res, Some err), w')"
        by simp
      from Cons.IH [OF this] obtain pre b post rs w1 e where
        "ns = pre @ b # post" and "all_succeed f w0 pre = Some (rs, w1)"
        and "f w1 b = Some (Inl e, w')" and "res = foldl append_slice (append_slice results r) rs"
        and "err = Wrapf (msg @ b @ '': '') e"
        by blast
      with Some p Inr have "n # ns = (n # pre) @ b # post
        \<and> all_succeed f w (n # pre) = Some (r # rs, w1)
        \<and> f w1 b = Some (Inl e, w') \<and> res = foldl append_slice results (r # rs)
        \<and> err = Wrapf (msg @ b @ '': '') e"
        by simp
      then show ?thesis by blast
    qed
  qed
qed

lemma Deploy_StackName:
  "Deploy w n = Some (Inr r, w') \<Longrightarrow> DeployResult.StackName r = n"
  by (auto simp: Deploy_def split: sum.splits option.splits prod.splits if_splits)

lemma getDriftResults_StackName:
  "getDriftResults w n = Some (Inr r, w') \<Longrightarrow> DriftResult.StackName r = n"
  by (auto simp: getDriftResults_def split: sum.splits option.splits list.splits)

lemma DetectDrift_StackName:
  "DetectDrift w n = Some (Inr r, w') \<Longrightarrow> DriftResult.StackName r = n"
  by (auto simp: DetectDrift_def split: sum.splits option.splits prod.splits if_splits
           dest: getDriftResults_StackName)

lemma all_succeed_names:
  assumes "\<And>w n r w'. f w n = Some (Inr r, w') \<Longrightarrow> name r = n"
  shows "all_succeed f w ns = Some (rs, w') \<Longrightarrow> map name rs = ns"
proof (induction ns arbitrary: w rs)
  case Nil
  then show ?case by simp
next
  case (Cons n ns)
  from Cons.prems obtain r w0 rs' where "f w n = Some (Inr r, w0)"
    and "all_succeed f w0 ns = Some (rs', w')" and "rs = r # rs'"
    by (auto split: option.splits sum.splits)
  with assms Cons.IH show ?case by simp
qed

lemma batch_characterisation:
  "(all_succeed f w pre = Some (rs, w1) \<and> f w1 b = Some (Inl e, w2) \<longrightarrow>
      batch_loop f msg w None (pre @ b # post)
        = Some ((slice_of rs, Some (Wrapf (msg @ b @ '': '') e)), w2))
   \<and> (batch_loop f msg v None stacks = Some ((results, None), v')
        = (\<exists>rs. all_succeed f v stacks = Some (rs, v') \<and> results = slice_of rs))
   \<and> (batch_loop f msg v None stacks = Some ((results, Some err), v')
        = (\<exists>pre b post rs w1 e. stacks = pre @ b # post \<and> all_succeed f v pre = Some (rs, w1)
             \<and> f w1 b = Some (Inl e, v') \<and> results = slice_of rs
             \<and> err = Wrapf (msg @ b @ '': '') e))"
proof (intro conjI impI)
  assume "all_succeed f w pre = Some (rs, w1) \<and> f w1 b = Some (Inl e, w2)"
  then show "batch_loop f msg w None (pre @ b # post)
        = Some ((slice_of rs, Some (Wrapf (msg @ b @ '': '') e)), w2)"
    by (simp add: batch_loop_prefix slice_of_def)
next
  show "batch_loop f msg v None stacks = Some ((results, None), v')
        = (\<exists>rs. all_succeed f v stacks = Some (rs, v') \<and> results = slice_of rs)"
  proof
    assume "batch_loop f msg v None stacks = Some ((results, None), v')"
    from batch_loop_success [OF this] show "\<exists>rs. all_succeed f v stacks = Some (rs, v') \<and> results = slice_of rs"
      by (simp add: slice_of_def)
  next
    assume "\<exists>rs. all_succeed f v stacks = Some (rs, v') \<and> results = slice_of rs"
    then obtain rs where a: "all_succeed f v stacks = Some (rs, v')" and "results = slice_of rs"
      by blast
    with batch_loop_prefix [OF a, of msg None "[]"]
    show "batch_loop f msg v None stacks = Some ((results, None), v')"
      by (simp add: slice_of_def)
  qed
next
  show "batch_loop f msg v None stacks = Some ((results, Some err), v')
        = (\<exists>pre b post rs w1 e. stacks = pre @ b # post \<and> all_succeed f v pre = Some (rs, w1)
             \<and> f w1 b = Some (Inl e, v') \<and> results = slice_of rs
             \<and> err = Wrapf (msg @ b @ '': '') e)"
  proof
    assume "batch_loop f msg v None stacks = Some ((results, Some err), v')"
    from batch_loop_failure [OF this]
    show "\<exists>pre b post rs w1 e. stacks = pre @ b # post \<and> all_succeed f v pre = Some (rs, w1)
             \<and> f w1 b = Some (Inl e, v') \<and> results = slice_of rs
             \<and> err = Wrapf (msg @ b @ '': '') e"
      by (simp add: slice_of_def)
  next
    assume "\<exists>pre b post rs w1 e. stacks = pre @ b # post \<and> all_succeed f v pre = Some (rs, w1)
             \<and> f w1 b = Some (Inl e, v') \<and> results = slice_of rs
             \<and> err = Wrapf (msg @ b @ '': '') e"
    then obtain pre b post rs w1 e where "stacks = pre @ b # post"
      and a: "all_succeed f v pre = Some (rs, w1)"
      and "f w1 b = Some (Inl e, v')" and "results = slice_of rs"
      and "err = Wrapf (msg @ b @ '': '') e"
      by blast
    with batch_loop_prefix [OF a, of msg None "b # post"]
    show "batch_loop f msg v None stacks = Some ((results, Some err), v')"
      by (simp add: slice_of_def)
  qed
qed

text \<open>The message of the error of a batch names the stack that failed.\<close>

lemma batch_error_message:
  "Error (Wrapf (msg @ stackName @ '': '') err) = msg @ stackName @ '': '' @ Error err"
  by simp

lemmas drift_flow_defs = DetectDrift_def stackExists_def DetectStackDrift_def getDriftResults_def
  DescribeStacks_def DescribeStackResourceDrifts_def drift_eval_defs

lemma batch_example_runs:
  "\<exists>w1 w2. all_succeed Deploy batch_example [''A'']
       = Some ([\<lparr>DeployResult.StackName = ''A'', StackID = ''arn:stack/A'',
                  Status = ''CREATE_COMPLETE'', Outputs = None\<rparr>], w1)
     \<and> Deploy w1 ''B''
         = Some (Inl (Wrapf ''failed to create stack: '' (Remote ''Template format error'')), w2)
     \<and> script w2 = [(1, Fails (Remote ''Stack with id C does not exist''))]
     \<and> length (calls w2) = 6"
  by (simp add: batch_example_def eval_defs)

lemma drift_batch_example_runs:
  "\<exists>w1 w2. all_succeed DetectDrift drift_batch_example [''A'']
       = Some ([\<lparr>DriftResult.StackName = ''A'', DriftStatus = ''IN_SYNC'',
                  DriftedResources = None\<rparr>], w1)
     \<and> DetectDrift w1 ''B'' = Some (Inl (Errorf ''stack B does not exist''), w2)
     \<and> script w2 = [(1, Stacks [\<lparr>StackStatus = ''CREATE_COMPLETE'', Outputs = [],
                                   DriftInformation = None\<rparr>])]
     \<and> length (calls w2) = 6"
  by (simp add: drift_batch_example_def drift_flow_defs)

section \<open>The batch coordinator\<close>

text \<open>
  C2. \<open>DeployAll\<close> and \<open>DetectDriftAll\<close> run the workflows in list order, each from the
  world the one before left. When the identifiers before \<open>b\<close> all succeed and the
  workflow of \<open>b\<close> fails, the batch returns the outcomes of the identifiers before \<open>b\<close>, in
  order, with the error of \<open>b\<close> wrapped in a message naming \<open>b\<close>, and it ends in the
  world in which the workflow of \<open>b\<close> ended: nothing is run for the identifiers after \<open>b\<close>.
  The batch returns no error exactly when every identifier succeeds, and it returns an
  error only in the way just described.
\<close>

theorem batch_fail_fast_keep_partial:
  "(all_succeed Deploy w pre = Some (rs, w1) \<and> Deploy w1 b = Some (Inl e, w2) \<longrightarrow>
      DeployAll w (pre @ b # post)
        = Some ((slice_of rs, Some (Wrapf (''failed to deploy stack '' @ b @ '': '') e)), w2)
      \<and> map DeployResult.StackName rs = pre)
   \<and> (DeployAll v stacks = Some ((results, None), v')
        = (\<exists>rs. all_succeed Deploy v stacks = Some (rs, v') \<and> results = slice_of rs))
   \<and> (DeployAll v stacks = Some ((results, Some err), v')
        = (\<exists>pre b post rs w1 e. stacks = pre @ b # post
             \<and> all_succeed Deploy v pre = Some (rs, w1)
             \<and> Deploy w1 b = Some (Inl e, v') \<and> results = slice_of rs
             \<and> err = Wrapf (''failed to deploy stack '' @ b @ '': '') e))
   \<and> (all_succeed DetectDrift dw dpre = Some (drs, dw1) \<and> DetectDrift dw1 db = Some (Inl de, dw2)
        \<longrightarrow>
      DetectDriftAll dw (dpre @ db # dpost)
        = Some ((slice_of drs,
                 Some (Wrapf (''failed to detect drift for stack '' @ db @ '': '') de)), dw2)
      \<and> map DriftResult.StackName drs = dpre)
   \<and> (DetectDriftAll dv dstacks = Some ((dresults, None), dv')
        = (\<exists>rs. all_succeed DetectDrift dv dstacks = Some (rs, dv') \<and> dresults = slice_of rs))
   \<and> (DetectDriftAll dv dstacks = Some ((dresults, Some derr), dv')
        = (\<exists>pre b post rs w1 e. dstacks = pre @ b # post
             \<and> all_succeed DetectDrift dv pre = Some (rs, w1)
             \<and> DetectDrift w1 b = Some (Inl e, dv') \<and> dresults = slice_of rs
             \<and> derr = Wrapf (''failed to detect drift for stack '' @ b @ '': '') e))"
proof -
  note a = batch_characterisation
    [of Deploy w pre rs w1 b e w2 "''failed to deploy stack ''" post v stacks results v' err,
     folded DeployAll_loop_batch DeployAll_def]
  note d = batch_characterisation
    [of DetectDrift dw dpre drs dw1 db de dw2 "''failed to detect drift for stack ''" dpost
        dv dstacks dresults dv' derr,
     folded DetectDriftAll_loop_batch DetectDriftAll_def]
  have n: "all_succeed Deploy w pre = Some (rs, w1) \<longrightarrow> map DeployResult.StackName rs = pre"
    using all_succeed_names [of Deploy DeployResult.StackName w pre rs w1] Deploy_StackName
    by blast
  have m: "all_succeed DetectDrift dw dpre = Some (drs, dw1)
      \<longrightarrow> map DriftResult.StackName drs = dpre"
    using all_succeed_names [of DetectDrift DriftResult.StackName dw dpre drs dw1]
      DetectDrift_StackName
    by blast
  have a1: "all_succeed Deploy w pre = Some (rs, w1) \<and> Deploy w1 b = Some (Inl e, w2) \<longrightarrow>
      DeployAll w (pre @ b # post)
        = Some ((slice_of rs, Some (Wrapf (''failed to deploy stack '' @ b @ '': '') e)), w2)
      \<and> map DeployResult.StackName rs = pre"
    using a [THEN conjunct1] n by blast
  have d1: "all_succeed DetectDrift dw dpre = Some (drs, dw1)
        \<and> DetectDrift dw1 db = Some (Inl de, dw2) \<longrightarrow>
      DetectDriftAll dw (dpre @ db # dpost)
        = Some ((slice_of drs,
                 Some (Wrapf (''failed to detect drift for stack '' @ db @ '': '') de)), dw2)
      \<and> map DriftResult.StackName drs = dpre"
    using d [THEN conjunct1] m by blast
  show ?thesis
    by (intro conjI a1 d1 a [THEN conjunct2, THEN conjunct1] a [THEN conjunct2, THEN conjunct2]
          d [THEN conjunct2, THEN conjunct1] d [THEN conjunct2, THEN conjunct2])
qed

text \<open>
  On the examples the batch over \<open>A\<close>, \<open>B\<close>, \<open>C\<close> returns the outcome of \<open>A\<close> and the error
  of \<open>B\<close>; the answer held ready for \<open>C\<close> is still in the script, and six requests
  were sent, all for \<open>A\<close> and \<open>B\<close>.
\<close>

theorem batch_fail_fast_keep_partial_witness:
  "(\<exists>w2. DeployAll batch_example [''A'', ''B'', ''C'']
       = Some ((Some [\<lparr>DeployResult.StackName = ''A'', StackID = ''arn:stack/A'',
                         Status = ''CREATE_COMPLETE'', Outputs = None\<rparr>],
                Some (Wrapf ''failed to deploy stack B: ''
                        (Wrapf ''failed to create stack: '' (Remote ''Template format error'')))),
               w2)
      \<and> script w2 = [(1, Fails (Remote ''Stack with id C does not exist''))]
      \<and> length (calls w2) = 6)
   \<and> (\<exists>w2. DetectDriftAll drift_batch_example [''A'', ''B'', ''C'']
       = Some ((Some [\<lparr>DriftResult.StackName = ''A'', DriftStatus = ''IN_SYNC'',
                         DriftedResources = None\<rparr>],
                Some (Wrapf ''failed to detect drift for stack B: ''
                        (Errorf ''stack B does not exist''))),
               w2)
      \<and> script w2 = [(1, Stacks [\<lparr>StackStatus = ''CREATE_COMPLETE'', Outputs = [],
                                    DriftInformation = None\<rparr>])]
      \<and> length (calls w2) = 6)"
proof -
  let ?rA = "\<lparr>DeployResult.StackName = ''A'', StackID = ''arn:stack/A'',
                  Status = ''CREATE_COMPLETE'', Outputs = None\<rparr>"
  let ?eB = "Wrapf ''failed to create stack: '' (Remote ''Template format error'')"
  let ?dA = "\<lparr>DriftResult.StackName = ''A'', DriftStatus = ''IN_SYNC'',
                  DriftedResources = None\<rparr>"
  let ?fB = "Errorf ''stack B does not exist''"
  from batch_example_runs obtain w1 w2 where
    a: "all_succeed Deploy batch_example [''A''] = Some ([?rA], w1)"
    and b: "Deploy w1 ''B'' = Some (Inl ?eB, w2)"
    and c: "script w2 = [(1, Fails (Remote ''Stack with id C does not exist''))]"
           "length (calls w2) = 6"
    by blast
  from drift_batch_example_runs obtain dw1 dw2 where
    da: "all_succeed DetectDrift drift_batch_example [''A''] = Some ([?dA], dw1)"
    and db: "DetectDrift dw1 ''B'' = Some (Inl ?fB, dw2)"
    and dc: "script dw2 = [(1, Stacks [\<lparr>StackStatus = ''CREATE_COMPLETE'', Outputs = [],
                                   DriftInformation = None\<rparr>])]"
           "length (calls dw2) = 6"
    by blast
  note t = batch_fail_fast_keep_partial
    [where w = batch_example and pre = "[''A'']" and rs = "[?rA]" and ?w1.0 = w1
       and b = "''B''" and e = ?eB and ?w2.0 = w2 and post = "[''C'']"
       and dw = drift_batch_example and dpre = "[''A'']" and drs = "[?dA]" and ?dw1.0 = dw1
       and db = "''B''" and de = ?fB and ?dw2.0 = dw2 and dpost = "[''C'']"]
  from t a b have "DeployAll batch_example [''A'', ''B'', ''C'']
       = Some ((Some [?rA], Some (Wrapf ''failed to deploy stack B: '' ?eB)), w2)"
    by (simp add: slice_of_eq)
  moreover from t da db have "DetectDriftAll drift_batch_example [''A'', ''B'', ''C'']
       = Some ((Some [?dA], Some (Wrapf ''failed to detect drift for stack B: '' ?fB)), dw2)"
    by (simp add: slice_of_eq)
  ultimately show ?thesis using c dc by blast
qed

section \<open>The existence check\<close>

text \<open>
  C6. When the describe call of \<open>stackExists\<close> fails, with any error, the function
  returns false and no error: the result and the world it leaves do not depend on the
  error. \<open>Deploy\<close>, with a template to apply, then sends a create request as its next
  request, at the instant the describe call returned, whatever it returns in the end.
  A describe call that the context aborts fails too, whatever the answer would have
  been, and \<open>stackExists\<close> returns false and no error.
\<close>

theorem stackExists_failure_means_create:
  assumes "script w = (l, Fails err) # rest"
  shows "stackExists w stackName
           = Some ((False, None),
               w\<lparr>now := returns_at w l, script := rest,
                 calls := calls w @ [(now w, DescribeStacksInput stackName)]\<rparr>)
       \<and> (readFile w (outputDir w) (stackName @ ''.template.json'') = Inr templateBody
            \<and> Deploy w stackName = Some (r, w') \<longrightarrow>
          prefix (calls w @
                    [(now w, DescribeStacksInput stackName),
                     (returns_at w l, CreateStackInput stackName templateBody
                        [CapabilityCapabilityIam, CapabilityCapabilityNamedIam,
                         CapabilityCapabilityAutoExpand] OnFailureRollback)])
            (calls w'))
       \<and> (alive w (now w + l) \<longrightarrow> returns_at w l = now w + l)
       \<and> (script v = (k, a) # others \<and> aborted v k \<longrightarrow>
            stackExists v stackName
              = Some ((False, None),
                  v\<lparr>now := returns_at v k, script := others,
                    calls := calls v @ [(now v, DescribeStacksInput stackName)]\<rparr>))"
proof (intro conjI impI)
  let ?w1 = "w\<lparr>now := returns_at w l, script := rest,
                 calls := calls w @ [(now w, DescribeStacksInput stackName)]\<rparr>"
  show e: "stackExists w stackName = Some ((False, None), ?w1)"
    using assms by (simp add: stackExists_def DescribeStacks_answer)
  show "returns_at w l = now w + l" if "alive w (now w + l)"
    using that by (rule alive_call)
  show "stackExists v stackName
              = Some ((False, None),
                  v\<lparr>now := returns_at v k, script := others,
                    calls := calls v @ [(now v, DescribeStacksInput stackName)]\<rparr>)"
    if "script v = (k, a) # others \<and> aborted v k"
    using that by (simp add: stackExists_def DescribeStacks_answer)
  assume "readFile w (outputDir w) (stackName @ ''.template.json'') = Inr templateBody
            \<and> Deploy w stackName = Some (r, w')"
  then have t: "GetTemplateBody w stackName = Inr templateBody"
    and d: "Deploy w stackName = Some (r, w')"
    by (simp_all add: GetTemplateBody_def)
  from d t e obtain q w2 where c: "createStack ?w1 stackName templateBody = Some (q, w2)"
    and p: "prefix (calls w2) (calls w')"
    by (auto simp: Deploy_def split: option.splits prod.splits
             dest!: waitForStack_calls_prefix getStackOutputs_calls_prefix
             intro: prefix_order.trans)
  from createStack_calls [OF c] p
  show "prefix (calls w @
                    [(now w, DescribeStacksInput stackName),
                     (returns_at w l, CreateStackInput stackName templateBody
                        [CapabilityCapabilityIam, CapabilityCapabilityNamedIam,
                         CapabilityCapabilityAutoExpand] OnFailureRollback)])
            (calls w')"
    by simp
qed

text \<open>
  On the example the describe call fails, \<open>stackExists\<close> returns false, and the second
  request of \<open>Deploy\<close> is the create request. And \<open>stackExists\<close> returns false for a
  stack that exists, when the context is cancelled after one of the five nanoseconds
  that the answer takes.
\<close>

theorem stackExists_failure_means_create_witness:
  "(\<exists>w1. stackExists deploy_example ''Net'' = Some ((False, None), w1))
   \<and> (\<exists>r w'. Deploy deploy_example ''Net'' = Some (Inr r, w')
        \<and> prefix [(0, DescribeStacksInput ''Net''),
                   (1, CreateStackInput ''Net'' ''{}''
                        [''CAPABILITY_IAM'', ''CAPABILITY_NAMED_IAM'', ''CAPABILITY_AUTO_EXPAND'']
                        ''ROLLBACK'')]
            (calls w'))
   \<and> returns_at deploy_example 1 = 1
   \<and> (\<exists>w1. stackExists
              (example_world
                 [(5, Stacks [\<lparr>StackStatus = ''CREATE_COMPLETE'', Outputs = [],
                               DriftInformation = None\<rparr>])]\<lparr>cancel_at := Some 1\<rparr>) ''Net''
             = Some ((False, None), w1) \<and> now w1 = 1)"
proof -
  let ?c = "example_world
                 [(5, Stacks [\<lparr>StackStatus = ''CREATE_COMPLETE'', Outputs = [],
                               DriftInformation = None\<rparr>])]\<lparr>cancel_at := Some 1\<rparr>"
  from Deploy_deploy_example obtain r w' where d: "Deploy deploy_example ''Net'' = Some (Inr r, w')"
    by blast
  have s: "script deploy_example
      = (1, Fails (Remote ''Stack with id Net does not exist'')) # tl (script deploy_example)"
    by (simp add: deploy_example_def example_world_def)
  have f: "readFile deploy_example (outputDir deploy_example) (''Net'' @ ''.template.json'')
      = Inr ''{}''"
    by (simp add: deploy_example_def example_world_def)
  have al: "alive deploy_example (now deploy_example + 1)"
    by (simp add: deploy_example_def example_world_def alive_def)
  have ab: "script ?c = (5, Stacks [\<lparr>StackStatus = ''CREATE_COMPLETE'', Outputs = [],
                               DriftInformation = None\<rparr>]) # [] \<and> aborted ?c 5"
    by (simp add: example_world_def aborted_def)
  note t = stackExists_failure_means_create
             [OF s, where stackName = "''Net''" and templateBody = "''{}''" and r = "Inr r"
                and w' = w' and v = ?c and k = 5 and others = "[]"
                and a = "Stacks [\<lparr>StackStatus = ''CREATE_COMPLETE'', Outputs = [],
                               DriftInformation = None\<rparr>]"]
  have r1: "returns_at deploy_example 1 = 1"
    using t [THEN conjunct2, THEN conjunct2, THEN conjunct1, THEN mp, OF al]
    by (simp add: deploy_example_def example_world_def)
  have p1: "\<exists>w1. stackExists deploy_example ''Net'' = Some ((False, None), w1)"
    using t [THEN conjunct1] by simp
  have "prefix [(0, DescribeStacksInput ''Net''),
                   (1, CreateStackInput ''Net'' ''{}''
                        [''CAPABILITY_IAM'', ''CAPABILITY_NAMED_IAM'', ''CAPABILITY_AUTO_EXPAND'']
                        ''ROLLBACK'')]
            (calls w')"
    using t [THEN conjunct2, THEN conjunct1, THEN mp, OF conjI [OF f d]] r1
    by (simp add: deploy_example_def example_world_def CapabilityCapabilityIam_def
          CapabilityCapabilityNamedIam_def CapabilityCapabilityAutoExpand_def OnFailureRollback_def)
  with d have p2: "\<exists>r w'. Deploy deploy_example ''Net'' = Some (Inr r, w')
        \<and> prefix [(0, DescribeStacksInput ''Net''),
                   (1, CreateStackInput ''Net'' ''{}''
                        [''CAPABILITY_IAM'', ''CAPABILITY_NAMED_IAM'', ''CAPABILITY_AUTO_EXPAND'']
                        ''ROLLBACK'')]
            (calls w')"
    by blast
  have p3: "\<exists>w1. stackExists ?c ''Net'' = Some ((False, None), w1) \<and> now w1 = 1"
    using t [THEN conjunct2, THEN conjunct2, THEN conjunct2, THEN mp, OF ab]
    by (simp add: example_world_def returns_at_def)
  show ?thesis
    by (intro conjI p1 p2 r1 p3)
qed

section \<open>The first poll\<close>

text \<open>
  C10. A call of either poller sends status requests only, and none before one poll
  interval (10 seconds for \<open>waitForStack\<close>, 5 for \<open>waitForDriftDetection\<close>) has passed since
  entry; a call that returns before that returns the cancellation cause, having sent
  nothing, so no status, success or failure, is returned earlier. When the context is
  cancelled before the first interval has passed, the call returns the cancellation
  cause at that instant (at once when the context was cancelled before entry). The first
  \<^verbatim>\<open>select\<close> waits on the deadline as well: whenever it takes a case other than the tick,
  the call returns the cancellation cause or the timeout error, having sent nothing.
\<close>

theorem pollers_first_poll_after_one_interval:
  "(waitForStack w stackName = Some ((status, err), w') \<longrightarrow>
      (\<exists>ts. calls w' = calls w @ map (\<lambda>t. (t, DescribeStacksInput stackName)) ts
         \<and> list_all (\<lambda>t. now w + waitForStack_interval \<le> t) ts)
      \<and> (now w' < now w + waitForStack_interval \<longrightarrow>
           status = [] \<and> err = Some (ctx_Err w) \<and> calls w' = calls w))
   \<and> (cancel_at w = Some c \<and> c < now w + waitForStack_interval \<longrightarrow>
        waitForStack w stackName
          = Some (([], Some (ctx_Err w)), w\<lparr>now := max (now w) c, nsel := Suc (nsel w)\<rparr>))
   \<and> (select_chan w (now w + waitForStack_deadline) (now w + waitForStack_interval) = (ch, w1)
        \<and> ch \<noteq> Ticker \<longrightarrow>
        waitForStack w stackName
          = Some (([], Some (if ch = CtxDone then ctx_Err w
                             else Errorf (''timeout waiting for stack '' @ stackName))), w1)
        \<and> calls w1 = calls w)
   \<and> (waitForDriftDetection v driftDetectionId = Some ((dstatus, derr), v') \<longrightarrow>
      (\<exists>ts. calls v' = calls v
                @ map (\<lambda>t. (t, DescribeStackDriftDetectionStatusInput driftDetectionId)) ts
         \<and> list_all (\<lambda>t. now v + waitForDriftDetection_interval \<le> t) ts)
      \<and> (now v' < now v + waitForDriftDetection_interval \<longrightarrow>
           dstatus = [] \<and> derr = Some (ctx_Err v) \<and> calls v' = calls v))
   \<and> (cancel_at v = Some d \<and> d < now v + waitForDriftDetection_interval \<longrightarrow>
        waitForDriftDetection v driftDetectionId
          = Some (([], Some (ctx_Err v)), v\<lparr>now := max (now v) d, nsel := Suc (nsel v)\<rparr>))
   \<and> (select_chan v (now v + waitForDriftDetection_deadline)
          (now v + waitForDriftDetection_interval) = (dch, v1)
        \<and> dch \<noteq> Ticker \<longrightarrow>
        waitForDriftDetection v driftDetectionId
          = Some (([], Some (if dch = CtxDone then ctx_Err v
                             else Errorf ''timeout waiting for drift detection'')), v1)
        \<and> calls v1 = calls v)"
proof (intro conjI impI)
  assume a: "waitForStack w stackName = Some ((status, err), w')"
  then have l: "waitForStack_loop w stackName (now w + waitForStack_deadline)
      (now w + waitForStack_interval) = Some ((status, err), w')"
    by (simp add: waitForStack_def)
  from waitForStack_loop_polls [OF l]
  show "\<exists>ts. calls w' = calls w @ map (\<lambda>t. (t, DescribeStacksInput stackName)) ts
         \<and> list_all (\<lambda>t. now w + waitForStack_interval \<le> t) ts"
    by (simp add: polls_from_def)
  assume "now w' < now w + waitForStack_interval"
  with waitForStack_loop_early [OF l] interval_le_deadline(1)
  show "status = []" and "err = Some (ctx_Err w)" and "calls w' = calls w"
    by simp_all
next
  assume "cancel_at w = Some c \<and> c < now w + waitForStack_interval"
  then show "waitForStack w stackName
          = Some (([], Some (ctx_Err w)), w\<lparr>now := max (now w) c, nsel := Suc (nsel w)\<rparr>)"
    by (simp add: waitForStack_cancelled_early)
next
  assume "select_chan w (now w + waitForStack_deadline) (now w + waitForStack_interval) = (ch, w1)
        \<and> ch \<noteq> Ticker"
  then show "waitForStack w stackName
          = Some (([], Some (if ch = CtxDone then ctx_Err w
                             else Errorf (''timeout waiting for stack '' @ stackName))), w1)"
    and "calls w1 = calls w"
    using waitForStack_first_wait [of w ch w1 stackName] by simp_all
next
  assume a: "waitForDriftDetection v driftDetectionId = Some ((dstatus, derr), v')"
  then have l: "waitForDriftDetection_loop v driftDetectionId (now v + waitForDriftDetection_deadline)
      (now v + waitForDriftDetection_interval) = Some ((dstatus, derr), v')"
    by (simp add: waitForDriftDetection_def)
  from waitForDriftDetection_loop_polls [OF l]
  show "\<exists>ts. calls v' = calls v
                @ map (\<lambda>t. (t, DescribeStackDriftDetectionStatusInput driftDetectionId)) ts
         \<and> list_all (\<lambda>t. now v + waitForDriftDetection_interval \<le> t) ts"
    by (simp add: polls_from_def)
  assume "now v' < now v + waitForDriftDetection_interval"
  with waitForDriftDetection_loop_early [OF l] interval_le_deadline(2)
  show "dstatus = []" and "derr = Some (ctx_Err v)" and "calls v' = calls v"
    by simp_all
next
  assume "cancel_at v = Some d \<and> d < now v + waitForDriftDetection_interval"
  then show "waitForDriftDetection v driftDetectionId
          = Some (([], Some (ctx_Err v)), v\<lparr>now := max (now v) d, nsel := Suc (nsel v)\<rparr>)"
    by (simp add: waitForDriftDetection_cancelled_early)
next
  assume "select_chan v (now v + waitForDriftDetection_deadline)
          (now v + waitForDriftDetection_interval) = (dch, v1)
        \<and> dch \<noteq> Ticker"
  then show "waitForDriftDetection v driftDetectionId
          = Some (([], Some (if dch = CtxDone then ctx_Err v
                             else Errorf ''timeout waiting for drift detection'')), v1)"
    and "calls v1 = calls v"
    using waitForDriftDetection_first_wait [of v dch v1 driftDetectionId] by simp_all
qed

text \<open>
  On the examples the status, already terminal, is returned with a single poll sent at
  the first tick; with a cancellation at 3 seconds both pollers return the cancellation
  cause at 3 seconds and send nothing.
\<close>

theorem pollers_first_poll_after_one_interval_witness:
  "(\<exists>w' ts. waitForStack (poll_example ''CREATE_COMPLETE'') ''Net''
              = Some ((''CREATE_COMPLETE'', None), w')
        \<and> calls w' = map (\<lambda>t. (t, DescribeStacksInput ''Net'')) ts
        \<and> list_all (\<lambda>t. 10 * Second \<le> t) ts)
   \<and> waitForStack (poll_example ''CREATE_COMPLETE''\<lparr>cancel_at := Some (3 * Second)\<rparr>) ''Net''
       = Some (([], Some Canceled),
           poll_example ''CREATE_COMPLETE''
             \<lparr>cancel_at := Some (3 * Second), now := 3 * Second, nsel := 1\<rparr>)
   \<and> (\<exists>v' ts. waitForDriftDetection (drift_poll_example ''DETECTION_COMPLETE'' None) ''d-1''
              = Some ((''DETECTION_COMPLETE'', None), v')
        \<and> calls v' = map (\<lambda>t. (t, DescribeStackDriftDetectionStatusInput ''d-1'')) ts
        \<and> list_all (\<lambda>t. 5 * Second \<le> t) ts)
   \<and> waitForDriftDetection
         (drift_poll_example ''DETECTION_COMPLETE'' None\<lparr>cancel_at := Some (3 * Second)\<rparr>) ''d-1''
       = Some (([], Some Canceled),
           drift_poll_example ''DETECTION_COMPLETE'' None
             \<lparr>cancel_at := Some (3 * Second), now := 3 * Second, nsel := 1\<rparr>)
   \<and> select_chan (poll_example ''CREATE_COMPLETE''\<lparr>cancel_at := Some (3 * Second)\<rparr>)
         (1800 * Second) (10 * Second)
       = (CtxDone, poll_example ''CREATE_COMPLETE''
                     \<lparr>cancel_at := Some (3 * Second), now := 3 * Second, nsel := 1\<rparr>)
   \<and> calls (poll_example ''CREATE_COMPLETE''
               \<lparr>cancel_at := Some (3 * Second), now := 3 * Second, nsel := 1\<rparr>)
       = calls (poll_example ''CREATE_COMPLETE''\<lparr>cancel_at := Some (3 * Second)\<rparr>)
   \<and> select_chan (drift_poll_example ''DETECTION_COMPLETE'' None\<lparr>cancel_at := Some (3 * Second)\<rparr>)
         (600 * Second) (5 * Second)
       = (CtxDone, drift_poll_example ''DETECTION_COMPLETE'' None
                     \<lparr>cancel_at := Some (3 * Second), now := 3 * Second, nsel := 1\<rparr>)
   \<and> calls (drift_poll_example ''DETECTION_COMPLETE'' None
               \<lparr>cancel_at := Some (3 * Second), now := 3 * Second, nsel := 1\<rparr>)
       = calls (drift_poll_example ''DETECTION_COMPLETE'' None\<lparr>cancel_at := Some (3 * Second)\<rparr>)"
proof -
  let ?W1 = "poll_example ''CREATE_COMPLETE''"
  let ?W2 = "poll_example ''CREATE_COMPLETE''\<lparr>cancel_at := Some (3 * Second)\<rparr>"
  let ?V1 = "drift_poll_example ''DETECTION_COMPLETE'' None"
  let ?V2 = "drift_poll_example ''DETECTION_COMPLETE'' None\<lparr>cancel_at := Some (3 * Second)\<rparr>"
  from poll_example_run obtain w' where
    a: "waitForStack ?W1 ''Net'' = Some ((''CREATE_COMPLETE'', None), w')" ..
  from drift_poll_example_run obtain v' where
    b: "waitForDriftDetection ?V1 ''d-1'' = Some ((''DETECTION_COMPLETE'', None), v')" ..
  have c: "cancel_at ?W2 = Some (3 * Second) \<and> 3 * Second < now ?W2 + waitForStack_interval"
    "cancel_at ?V2 = Some (3 * Second) \<and> 3 * Second < now ?V2 + waitForDriftDetection_interval"
    by (simp_all add: poll_example_def drift_poll_example_def example_world_def duration_defs)
  have n: "now ?W1 = 0" "calls ?W1 = []" "now ?V1 = 0" "calls ?V1 = []"
    "now ?W2 = 0" "nsel ?W2 = 0" "ctx_Err ?W2 = Canceled"
    "now ?V2 = 0" "nsel ?V2 = 0" "ctx_Err ?V2 = Canceled"
    by (simp_all add: poll_example_def drift_poll_example_def example_world_def ctx_Err_def)
  note t1 = pollers_first_poll_after_one_interval
    [where w = ?W1 and stackName = "''Net''" and status = "''CREATE_COMPLETE''" and err = None
       and w' = w' and v = ?V1 and driftDetectionId = "''d-1''"
       and dstatus = "''DETECTION_COMPLETE''" and derr = None and v' = v']
  note t2 = pollers_first_poll_after_one_interval
    [where w = ?W2 and stackName = "''Net''" and c = "3 * Second"
       and v = ?V2 and driftDetectionId = "''d-1''" and d = "3 * Second"]
  from t1 [THEN conjunct1, THEN mp, OF a, THEN conjunct1]
  have "\<exists>ts. calls w' = map (\<lambda>t. (t, DescribeStacksInput ''Net'')) ts
        \<and> list_all (\<lambda>t. 10 * Second \<le> t) ts"
    by (simp add: n waitForStack_interval_def)
  with a have p1: "\<exists>w' ts. waitForStack ?W1 ''Net'' = Some ((''CREATE_COMPLETE'', None), w')
        \<and> calls w' = map (\<lambda>t. (t, DescribeStacksInput ''Net'')) ts
        \<and> list_all (\<lambda>t. 10 * Second \<le> t) ts"
    by blast
  from t1 [THEN conjunct2, THEN conjunct2, THEN conjunct2, THEN conjunct1, THEN mp, OF b,
            THEN conjunct1]
  have "\<exists>ts. calls v' = map (\<lambda>t. (t, DescribeStackDriftDetectionStatusInput ''d-1'')) ts
        \<and> list_all (\<lambda>t. 5 * Second \<le> t) ts"
    by (simp add: n waitForDriftDetection_interval_def)
  with b have p3: "\<exists>v' ts. waitForDriftDetection ?V1 ''d-1''
              = Some ((''DETECTION_COMPLETE'', None), v')
        \<and> calls v' = map (\<lambda>t. (t, DescribeStackDriftDetectionStatusInput ''d-1'')) ts
        \<and> list_all (\<lambda>t. 5 * Second \<le> t) ts"
    by blast
  from t2 [THEN conjunct2, THEN conjunct1, THEN mp, OF c(1)] have p2: "waitForStack ?W2 ''Net''
       = Some (([], Some Canceled), ?W2\<lparr>now := 3 * Second, nsel := 1\<rparr>)"
    by (simp add: n)
  from t2 [THEN conjunct2, THEN conjunct2, THEN conjunct2, THEN conjunct2, THEN conjunct1,
            THEN mp, OF c(2)]
  have p4: "waitForDriftDetection ?V2 ''d-1''
       = Some (([], Some Canceled), ?V2\<lparr>now := 3 * Second, nsel := 1\<rparr>)"
    by (simp add: n)
  have s1: "select_chan ?W2 (1800 * Second) (10 * Second)
      = (CtxDone, ?W2\<lparr>now := 3 * Second, nsel := 1\<rparr>)"
    and s2: "select_chan ?V2 (600 * Second) (5 * Second)
      = (CtxDone, ?V2\<lparr>now := 3 * Second, nsel := 1\<rparr>)"
    by (simp_all add: poll_example_def drift_poll_example_def example_world_def
          select_chan_def wake_def duration_defs)
  have k: "now ?W2 + waitForStack_deadline = 1800 * Second"
    "now ?W2 + waitForStack_interval = 10 * Second"
    "now ?V2 + waitForDriftDetection_deadline = 600 * Second"
    "now ?V2 + waitForDriftDetection_interval = 5 * Second"
    by (simp_all add: poll_example_def drift_poll_example_def example_world_def duration_defs)
  note t3 = pollers_first_poll_after_one_interval
    [where w = ?W2 and stackName = "''Net''" and ch = CtxDone
       and ?w1.0 = "?W2\<lparr>now := 3 * Second, nsel := 1\<rparr>"
       and status = "[]" and err = "Some Canceled" and w' = "?W2\<lparr>now := 3 * Second, nsel := 1\<rparr>"
       and v = ?V2 and driftDetectionId = "''d-1''" and dch = CtxDone
       and ?v1.0 = "?V2\<lparr>now := 3 * Second, nsel := 1\<rparr>"
       and dstatus = "[]" and derr = "Some Canceled"
       and v' = "?V2\<lparr>now := 3 * Second, nsel := 1\<rparr>"]
  have "select_chan ?W2 (now ?W2 + waitForStack_deadline) (now ?W2 + waitForStack_interval)
        = (CtxDone, ?W2\<lparr>now := 3 * Second, nsel := 1\<rparr>) \<and> CtxDone \<noteq> Ticker"
    by (simp only: k s1) simp
  from t3 [THEN conjunct2, THEN conjunct2, THEN conjunct1, THEN mp, OF this]
  have p5: "calls (?W2\<lparr>now := 3 * Second, nsel := 1\<rparr>) = calls ?W2"
    by (rule conjunct2)
  have "select_chan ?V2 (now ?V2 + waitForDriftDetection_deadline)
          (now ?V2 + waitForDriftDetection_interval)
        = (CtxDone, ?V2\<lparr>now := 3 * Second, nsel := 1\<rparr>) \<and> CtxDone \<noteq> Ticker"
    by (simp only: k s2) simp
  from t3 [THEN conjunct2, THEN conjunct2, THEN conjunct2, THEN conjunct2, THEN conjunct2,
           THEN mp, OF this]
  have p6: "calls (?V2\<lparr>now := 3 * Second, nsel := 1\<rparr>) = calls ?V2"
    by (rule conjunct2)
  from p1 p2 p3 p4 s1 s2 p5 p6 show ?thesis by (simp only: simp_thms)
qed

section \<open>Deadline and cancellation\<close>

lemma waitForStack_iter_preempted:
  assumes "waitForStack_iter w n tmo ntk = Some (Return (st, Some e), w')"
    and "e = Errorf (''timeout waiting for stack '' @ n) \<or> e = Canceled \<or> e = DeadlineExceeded"
  shows "st = [] \<and> script w' = script w
       \<and> (e = Errorf (''timeout waiting for stack '' @ n) \<longrightarrow> tmo \<le> now w')
       \<and> (e \<noteq> Errorf (''timeout waiting for stack '' @ n) \<longrightarrow>
            e = ctx_Err w \<and> (\<exists>c. cancel_at w = Some c \<and> c \<le> now w'))"
  using assms(1)
proof (cases rule: waitForStack_iter_cases)
  case (ctx c)
  then show ?thesis by (auto simp: ctx_Err_def split: cause.splits)
next
  case timeout
  then show ?thesis by auto
next
  case (tick r)
  from getStackStatus_facts(5) [OF tick(2)]
  consider err where "r = ([], Some (Wrapf ''failed to describe stack: '' err))"
    | "r = ([], Some (Errorf (''stack '' @ n @ '' not found'')))"
    | st0 where "r = (st0, None)"
    by auto
  then have False
  proof cases
    case 1
    with tick(3) assms(2) show False
      by (auto simp: waitForStack_switch_def)
  next
    case 2
    with tick(3) assms(2) show False
      by (auto simp: waitForStack_switch_def)
  next
    case 3
    with tick(3) assms(2) show False
      by (auto simp: waitForStack_switch_def split: if_splits)
  qed
  then show ?thesis ..
qed

lemma waitForStack_loop_preempted:
  "waitForStack_loop w n tmo ntk = Some ((st, Some e), w') \<Longrightarrow>
   e = Errorf (''timeout waiting for stack '' @ n) \<or> e = Canceled \<or> e = DeadlineExceeded \<Longrightarrow>
     st = [] \<and> (\<exists>used. script w = used @ script w' \<and> list_all pending used)
     \<and> (e = Errorf (''timeout waiting for stack '' @ n) \<longrightarrow> tmo \<le> now w')
     \<and> (e \<noteq> Errorf (''timeout waiting for stack '' @ n) \<longrightarrow>
          e = ctx_Err w \<and> (\<exists>c. cancel_at w = Some c \<and> c \<le> now w'))"
proof (induction w n tmo ntk rule: waitForStack_loop.induct)
  case (1 w n tmo ntk)
  show ?case
  proof (cases "waitForStack_iter w n tmo ntk")
    case None
    with "1.prems" show ?thesis by simp
  next
    case (Some p)
    obtain x w1 where p: "p = (x, w1)" by (cases p)
    with Some have it: "waitForStack_iter w n tmo ntk = Some (x, w1)" by simp
    show ?thesis
    proof (cases x)
      case (Return q)
      with it "1.prems"(1) have "waitForStack_iter w n tmo ntk = Some (Return (st, Some e), w')"
        by simp
      from waitForStack_iter_preempted [OF this "1.prems"(2)]
      have "st = []" and s: "script w' = script w"
        and "e = Errorf (''timeout waiting for stack '' @ n) \<longrightarrow> tmo \<le> now w'"
        and "e \<noteq> Errorf (''timeout waiting for stack '' @ n) \<longrightarrow>
            e = ctx_Err w \<and> (\<exists>c. cancel_at w = Some c \<and> c \<le> now w')"
        by simp_all
      moreover from s have "script w = [] @ script w' \<and> list_all pending []"
        by simp
      then have "\<exists>used. script w = used @ script w' \<and> list_all pending used" ..
      ultimately show ?thesis by (intro conjI)
    next
      case (Continue k)
      with it "1.prems"(1) have l: "waitForStack_loop w1 n tmo k = Some ((st, Some e), w')"
        by simp
      from Some p Continue l "1.prems"(2)
      have ih: "st = [] \<and> (\<exists>used. script w1 = used @ script w' \<and> list_all pending used)
         \<and> (e = Errorf (''timeout waiting for stack '' @ n) \<longrightarrow> tmo \<le> now w')
         \<and> (e \<noteq> Errorf (''timeout waiting for stack '' @ n) \<longrightarrow>
              e = ctx_Err w1 \<and> (\<exists>c. cancel_at w1 = Some c \<and> c \<le> now w'))"
        by (intro "1.IH") simp_all
      from it Continue obtain la where s: "script w = la # script w1" and pl: "pending la"
        using waitForStack_iter_Continue_observed by blast
      from ih obtain used where u: "script w1 = used @ script w'" and pu: "list_all pending used"
        by blast
      from s u pl pu have "script w = (la # used) @ script w' \<and> list_all pending (la # used)"
        by simp
      then have "\<exists>used. script w = used @ script w' \<and> list_all pending used" ..
      moreover from waitForStack_iter_polls [OF it]
      have "cancel_at w1 = cancel_at w" and "ctx_Err w1 = ctx_Err w"
        by (simp_all add: polls_from_def ctx_Err_def)
      ultimately show ?thesis using ih by simp
    qed
  qed
qed


text \<open>
  A cancellation that fires while the query of a tick is in flight: the query is given
  up at that instant, and the pass returns its error, which wraps the cause.
\<close>

lemma waitForStack_iter_in_flight:
  assumes "select_chan w tmo ntk = (Ticker, w1)" and "script w = (l, a) # rest"
    and "cancel_at w = Some c" and "now w1 < c" and "c < now w1 + l"
  shows "waitForStack_iter w n tmo ntk
      = Some (Return ([], Some (Wrapf ''failed to describe stack: ''
                                  (canceled w (DescribeStacksInput n)))),
              w1\<lparr>now := c, script := rest,
                 calls := calls w @ [(now w1, DescribeStacksInput n)]\<rparr>)"
proof -
  note f = select_chan_facts(1) [OF assms(1)]
  from f assms(2,3) have s: "script w1 = (l, a) # rest" and c: "cancel_at w1 = Some c"
    and e: "ctx_cause w1 = ctx_cause w" and k: "calls w1 = calls w"
    by simp_all
  from c assms(4,5) have ab: "aborted w1 l" and r: "returns_at w1 l = c"
    by (simp_all add: aborted_def returns_at_def)
  have "canceled w1 (DescribeStacksInput n) = canceled w (DescribeStacksInput n)"
    using e by (simp add: canceled_def ctx_Err_def)
  then have "getStackStatus w1 n
      = Some (([], Some (Wrapf ''failed to describe stack: ''
                           (canceled w (DescribeStacksInput n)))),
              w1\<lparr>now := c, script := rest,
                 calls := calls w @ [(now w1, DescribeStacksInput n)]\<rparr>)"
    using ab r k by (simp add: getStackStatus_def DescribeStacks_answer [OF s])
  then show ?thesis
    by (simp add: waitForStack_iter_Ticker [OF assms(1)] waitForStack_switch_def)
qed

lemma timeout_example_run:
  "\<exists>w'. waitForStack timeout_example ''Net''
      = Some (([], Some (Errorf ''timeout waiting for stack Net'')), w')"
  by (simp add: timeout_example_def eval_defs)

text \<open>
  C4, as the spec states it, fails for the deadline. In the run below the deadline, 1800
  seconds after entry, passes while the poll sent at 1790 seconds is in flight, strictly
  before the terminal status is seen at 1805 seconds, and \<open>waitForStack\<close> returns that
  status and no timeout error.
\<close>

theorem waitForStack_deadline_in_flight_loses:
  "(case waitForStack late_status_example ''Net'' of
      None \<Rightarrow> False
    | Some ((st, err), w') \<Rightarrow>
        st = ''CREATE_COMPLETE'' \<and> err = None
        \<and> now late_status_example + waitForStack_deadline = 1800 * Second
        \<and> now w' = 1805 * Second
        \<and> now late_status_example + waitForStack_deadline < now w')"
proof -
  let ?ip = "Stacks [\<lparr>StackStatus = ''CREATE_IN_PROGRESS'', Outputs = [], DriftInformation = None\<rparr>]"
  let ?cc = "\<lparr>StackStatus = ''CREATE_COMPLETE'', Outputs = [], DriftInformation = None\<rparr>"
  let ?w = late_status_example
  let ?pend = "replicate 178 (200 * Millisecond, ?ip)"
  have p: "list_all (\<lambda>la. pending la \<and> fst la < waitForStack_interval) ?pend"
    by (simp add: list_all_iff pending_def success_statuses_def failure_statuses_def
          status_defs waitForStack_interval_def duration_defs)
  have t: "StackStatus ?cc \<in> success_statuses \<union> failure_statuses"
    by (simp add: success_statuses_def status_defs)
  have s: "script ?w = ?pend @ (15 * Second, Stacks (?cc # [])) # []"
    and n: "now ?w = 0" and c: "cancel_at ?w = None"
    by (simp_all add: late_status_example_def example_world_def)
  have n1: "now ?w < 10 * Second"
    by (simp add: n duration_defs)
  have n2: "10 * Second + length ?pend * waitForStack_interval < 1800 * Second"
    by (simp add: waitForStack_interval_def duration_defs)
  have al: "alive ?w (10 * Second + length ?pend * waitForStack_interval + 15 * Second)"
    by (simp add: alive_def c)
  from waitForStack_loop_polls_until_terminal [OF p t s n1 n2 al, of "''Net''"]
  obtain w' where
    r: "waitForStack_loop ?w ''Net'' (1800 * Second) (10 * Second)
          = Some (status_result (StackStatus ?cc), w')"
    and m: "now w' = 10 * Second + length ?pend * waitForStack_interval + 15 * Second"
    by blast
  have "waitForStack ?w ''Net'' = waitForStack_loop ?w ''Net'' (1800 * Second) (10 * Second)"
    by (simp add: waitForStack_def n duration_defs)
  with r have "waitForStack ?w ''Net'' = Some ((''CREATE_COMPLETE'', None), w')"
    by (simp add: status_result_def success_statuses_def status_defs)
  moreover from m have "now w' = 1805 * Second"
    by (simp add: waitForStack_interval_def duration_defs)
  ultimately show ?thesis
    by (simp add: n duration_defs)
qed

text \<open>
  C4, amended. \<open>waitForStack\<close> returns the timeout error only when its deadline has
  passed at the moment it returns, and the cancellation cause only when the context has
  been cancelled by then; in both cases every status it has seen was neither a success
  nor a failure status. When, at a wait, the deadline is ready and neither a tick nor
  the cancellation is, the timeout error is returned; when the cancellation is ready
  and neither the deadline nor a tick is, the cancellation cause is returned. When the
  cancellation fires while the status query of a tick is in flight, the query is given
  up and \<open>waitForStack\<close> returns at that instant, with no status, the error of the query,
  which wraps the cancellation cause. (A deadline that passes while a status query is in
  flight does not decide the result: the answer to the query does.)
\<close>

theorem waitForStack_timeout_and_cancellation:
  "(waitForStack w stackName
      = Some ((st, Some (Errorf (''timeout waiting for stack '' @ stackName))), w') \<longrightarrow>
      st = [] \<and> now w + waitForStack_deadline \<le> now w'
      \<and> (\<exists>used. script w = used @ script w' \<and> list_all pending used))
   \<and> (waitForStack w stackName = Some ((st, Some e), w')
        \<and> (e = Canceled \<or> e = DeadlineExceeded) \<longrightarrow>
      st = [] \<and> e = ctx_Err w \<and> (\<exists>c. cancel_at w = Some c \<and> c \<le> now w')
      \<and> (\<exists>used. script w = used @ script w' \<and> list_all pending used))
   \<and> (max (now v) tmo < ntk
        \<and> (cancel_at v = None \<or> (\<exists>c. cancel_at v = Some c \<and> max (now v) tmo < c)) \<longrightarrow>
      waitForStack_iter v stackName tmo ntk
        = Some (Return ([], Some (Errorf (''timeout waiting for stack '' @ stackName))),
                v\<lparr>now := max (now v) tmo, nsel := Suc (nsel v)\<rparr>))
   \<and> (cancel_at v = Some c \<and> max (now v) c < tmo \<and> max (now v) c < ntk \<longrightarrow>
      waitForStack_iter v stackName tmo ntk
        = Some (Return ([], Some (ctx_Err v)), v\<lparr>now := max (now v) c, nsel := Suc (nsel v)\<rparr>))
   \<and> (select_chan u tmo' ntk' = (Ticker, u1) \<and> script u = (l, a) # rest
        \<and> cancel_at u = Some d \<and> now u1 < d \<and> d < now u1 + l \<longrightarrow>
      waitForStack_loop u stackName tmo' ntk'
        = Some (([], Some (Wrapf ''failed to describe stack: ''
                             (Wrapf ''operation error CloudFormation: DescribeStacks, ''
                                (Wrapf ''canceled, '' (ctx_Err u))))),
                u1\<lparr>now := d, script := rest,
                   calls := calls u @ [(now u1, DescribeStacksInput stackName)]\<rparr>))"
proof (intro conjI impI)
  assume a: "select_chan u tmo' ntk' = (Ticker, u1) \<and> script u = (l, a) # rest
        \<and> cancel_at u = Some d \<and> now u1 < d \<and> d < now u1 + l"
  then have a1: "select_chan u tmo' ntk' = (Ticker, u1)" and a2: "script u = (l, a) # rest"
    and a3: "cancel_at u = Some d" and a4: "now u1 < d" and a5: "d < now u1 + l"
    by blast+
  have "waitForStack_iter u stackName tmo' ntk'
      = Some (Return ([], Some (Wrapf ''failed to describe stack: ''
                                  (canceled u (DescribeStacksInput stackName)))),
              u1\<lparr>now := d, script := rest,
                 calls := calls u @ [(now u1, DescribeStacksInput stackName)]\<rparr>)"
    by (rule waitForStack_iter_in_flight [OF a1 a2 a3 a4 a5])
  then show "waitForStack_loop u stackName tmo' ntk'
        = Some (([], Some (Wrapf ''failed to describe stack: ''
                             (Wrapf ''operation error CloudFormation: DescribeStacks, ''
                                (Wrapf ''canceled, '' (ctx_Err u))))),
                u1\<lparr>now := d, script := rest,
                   calls := calls u @ [(now u1, DescribeStacksInput stackName)]\<rparr>)"
    by (simp add: canceled_def)
next
  assume "waitForStack w stackName
      = Some ((st, Some (Errorf (''timeout waiting for stack '' @ stackName))), w')"
  then have "waitForStack_loop w stackName (now w + waitForStack_deadline)
      (now w + waitForStack_interval)
      = Some ((st, Some (Errorf (''timeout waiting for stack '' @ stackName))), w')"
    by (simp add: waitForStack_def)
  from waitForStack_loop_preempted [OF this]
  show "st = []" and "now w + waitForStack_deadline \<le> now w'"
    and "\<exists>used. script w = used @ script w' \<and> list_all pending used"
    by simp_all
next
  assume a: "waitForStack w stackName = Some ((st, Some e), w')
        \<and> (e = Canceled \<or> e = DeadlineExceeded)"
  then have "waitForStack_loop w stackName (now w + waitForStack_deadline)
      (now w + waitForStack_interval) = Some ((st, Some e), w')"
    by (simp add: waitForStack_def)
  from waitForStack_loop_preempted [OF this] a
  show "st = []" and "e = ctx_Err w" and "\<exists>c. cancel_at w = Some c \<and> c \<le> now w'"
    and "\<exists>used. script w = used @ script w' \<and> list_all pending used"
    by auto
next
  assume "max (now v) tmo < ntk
        \<and> (cancel_at v = None \<or> (\<exists>c. cancel_at v = Some c \<and> max (now v) tmo < c))"
  then have "select_chan v tmo ntk
      = (Timeout, v\<lparr>now := max (now v) tmo, nsel := Suc (nsel v)\<rparr>)"
    by (intro select_chan_timed_out) simp_all
  then show "waitForStack_iter v stackName tmo ntk
        = Some (Return ([], Some (Errorf (''timeout waiting for stack '' @ stackName))),
                v\<lparr>now := max (now v) tmo, nsel := Suc (nsel v)\<rparr>)"
    by (simp add: waitForStack_iter_def)
next
  assume "cancel_at v = Some c \<and> max (now v) c < tmo \<and> max (now v) c < ntk"
  then have "select_chan v tmo ntk
      = (CtxDone, v\<lparr>now := max (now v) c, nsel := Suc (nsel v)\<rparr>)"
    by (intro select_chan_cancelled) simp_all
  then show "waitForStack_iter v stackName tmo ntk
        = Some (Return ([], Some (ctx_Err v)), v\<lparr>now := max (now v) c, nsel := Suc (nsel v)\<rparr>)"
    by (simp add: waitForStack_iter_def ctx_Err_def)
qed


text \<open>
  A run that ends in the timeout error after the deadline, a run that ends in the
  cancellation cause, a wait at which the deadline, or the cancellation, is the only
  signal ready, and a run in which the context is cancelled 100 milliseconds after the
  first query is sent, 100 milliseconds before its answer is due.
\<close>

theorem waitForStack_timeout_and_cancellation_witness:
  "(\<exists>w'. waitForStack timeout_example ''Net''
            = Some (([], Some (Errorf ''timeout waiting for stack Net'')), w')
        \<and> 1800 * Second \<le> now w')
   \<and> (\<exists>w' c. waitForStack (poll_example ''CREATE_COMPLETE''\<lparr>cancel_at := Some (3 * Second)\<rparr>) ''Net''
            = Some (([], Some Canceled), w')
        \<and> cancel_at (poll_example ''CREATE_COMPLETE''\<lparr>cancel_at := Some (3 * Second)\<rparr>) = Some c
        \<and> c \<le> now w')
   \<and> waitForStack_iter (example_world []\<lparr>now := 1801 * Second\<rparr>) ''Net''
        (1800 * Second) (1810 * Second)
       = Some (Return ([], Some (Errorf ''timeout waiting for stack Net'')),
           example_world []\<lparr>now := 1801 * Second, nsel := 1\<rparr>)
   \<and> waitForStack_iter (poll_example ''CREATE_COMPLETE''\<lparr>cancel_at := Some (3 * Second)\<rparr>) ''Net''
        (1800 * Second) (10 * Second)
       = Some (Return ([], Some Canceled),
           poll_example ''CREATE_COMPLETE''
             \<lparr>cancel_at := Some (3 * Second), now := 3 * Second, nsel := 1\<rparr>)
   \<and> waitForStack cancel_in_flight_example ''Net''
       = Some (([], Some (Wrapf ''failed to describe stack: ''
                            (Wrapf ''operation error CloudFormation: DescribeStacks, ''
                               (Wrapf ''canceled, '' Canceled)))),
           cancel_in_flight_example
             \<lparr>now := 10 * Second + 100 * Millisecond, nsel := 1, script := [],
              calls := [(10 * Second, DescribeStacksInput ''Net'')]\<rparr>)"
proof -
  let ?C = cancel_in_flight_example
  let ?cc = "Stacks [\<lparr>StackStatus = ''CREATE_COMPLETE'', Outputs = [], DriftInformation = None\<rparr>]"
  have cs: "select_chan ?C (1800 * Second) (10 * Second)
              = (Ticker, ?C\<lparr>now := 10 * Second, nsel := 1\<rparr>)
        \<and> script ?C = (200 * Millisecond, ?cc) # []
        \<and> cancel_at ?C = Some (10 * Second + 100 * Millisecond)
        \<and> now (?C\<lparr>now := 10 * Second, nsel := 1\<rparr>) < 10 * Second + 100 * Millisecond
        \<and> 10 * Second + 100 * Millisecond
            < now (?C\<lparr>now := 10 * Second, nsel := 1\<rparr>) + 200 * Millisecond"
    by (simp add: cancel_in_flight_example_def example_world_def select_chan_def wake_def
          duration_defs)
  have cw: "waitForStack ?C ''Net'' = waitForStack_loop ?C ''Net'' (1800 * Second) (10 * Second)"
    by (simp add: waitForStack_def cancel_in_flight_example_def example_world_def duration_defs)
  have p5: "waitForStack ?C ''Net''
       = Some (([], Some (Wrapf ''failed to describe stack: ''
                            (Wrapf ''operation error CloudFormation: DescribeStacks, ''
                               (Wrapf ''canceled, '' Canceled)))),
           ?C\<lparr>now := 10 * Second + 100 * Millisecond, nsel := 1, script := [],
              calls := [(10 * Second, DescribeStacksInput ''Net'')]\<rparr>)"
    unfolding cw
    using waitForStack_timeout_and_cancellation
      [where u = ?C and tmo' = "1800 * Second" and ntk' = "10 * Second"
         and ?u1.0 = "?C\<lparr>now := 10 * Second, nsel := 1\<rparr>"
         and l = "200 * Millisecond" and a = ?cc and rest = "[]"
         and d = "10 * Second + 100 * Millisecond" and stackName = "''Net''",
       THEN conjunct2, THEN conjunct2, THEN conjunct2, THEN conjunct2, THEN mp, OF cs]
    by (simp add: cancel_in_flight_example_def example_world_def ctx_Err_def)
  let ?W2 = "poll_example ''CREATE_COMPLETE''\<lparr>cancel_at := Some (3 * Second)\<rparr>"
  let ?V = "example_world []\<lparr>now := 1801 * Second\<rparr>"
  from timeout_example_run obtain w' where
    a: "waitForStack timeout_example ''Net''
      = Some (([], Some (Errorf (''timeout waiting for stack '' @ ''Net''))), w')"
    by auto
  have n: "now timeout_example = 0" "now ?W2 = 0" "nsel ?W2 = 0" "ctx_Err ?W2 = Canceled"
    "cancel_at ?W2 = Some (3 * Second)" "now ?V = 1801 * Second" "nsel ?V = 0"
    "cancel_at ?V = None" "nsel (example_world []) = 0" "cancel_at (example_world []) = None"
    "now (poll_example ''CREATE_COMPLETE'') = 0" "nsel (poll_example ''CREATE_COMPLETE'') = 0"
    by (simp_all add: timeout_example_def poll_example_def example_world_def ctx_Err_def)
  have b: "waitForStack ?W2 ''Net'' = Some (([], Some Canceled), ?W2\<lparr>now := 3 * Second, nsel := 1\<rparr>)"
    using waitForStack_cancelled_early [of ?W2 "3 * Second" "''Net''"]
    by (simp add: poll_example_def example_world_def ctx_Err_def duration_defs)
  note t1 = waitForStack_timeout_and_cancellation
    [where w = timeout_example and stackName = "''Net''" and st = "[]" and w' = w'
       and v = ?V and tmo = "1800 * Second" and ntk = "1810 * Second"]
  note t2 = waitForStack_timeout_and_cancellation
    [where w = ?W2 and stackName = "''Net''" and st = "[]" and e = Canceled
       and w' = "?W2\<lparr>now := 3 * Second, nsel := 1\<rparr>"
       and v = ?W2 and tmo = "1800 * Second" and ntk = "10 * Second" and c = "3 * Second"]
  from t1 [THEN conjunct1, THEN mp, OF a]
  have "1800 * Second \<le> now w'"
    by (simp add: n duration_defs)
  with a have p1: "\<exists>w'. waitForStack timeout_example ''Net''
            = Some (([], Some (Errorf ''timeout waiting for stack Net'')), w')
        \<and> 1800 * Second \<le> now w'"
    by auto
  from t2 [THEN conjunct2, THEN conjunct1, THEN mp] b
  have "\<exists>c. cancel_at ?W2 = Some c \<and> c \<le> now (?W2\<lparr>now := 3 * Second, nsel := 1\<rparr>)"
    by blast
  with b have p2: "\<exists>w' c. waitForStack ?W2 ''Net'' = Some (([], Some Canceled), w')
        \<and> cancel_at ?W2 = Some c \<and> c \<le> now w'"
    by blast
  have "max (now ?V) (1800 * Second) < 1810 * Second
        \<and> (cancel_at ?V = None
           \<or> (\<exists>c. cancel_at ?V = Some c \<and> max (now ?V) (1800 * Second) < c))"
    by (simp add: n duration_defs)
  from t1 [THEN conjunct2, THEN conjunct2, THEN conjunct1, THEN mp, OF this]
  have p3: "waitForStack_iter ?V ''Net'' (1800 * Second) (1810 * Second)
       = Some (Return ([], Some (Errorf ''timeout waiting for stack Net'')),
           example_world []\<lparr>now := 1801 * Second, nsel := 1\<rparr>)"
    by (simp add: n duration_defs)
  have "cancel_at ?W2 = Some (3 * Second) \<and> max (now ?W2) (3 * Second) < 1800 * Second
        \<and> max (now ?W2) (3 * Second) < 10 * Second"
    by (simp add: n duration_defs)
  from t2 [THEN conjunct2, THEN conjunct2, THEN conjunct2, THEN conjunct1, THEN mp, OF this]
  have p4: "waitForStack_iter ?W2 ''Net'' (1800 * Second) (10 * Second)
       = Some (Return ([], Some Canceled), ?W2\<lparr>now := 3 * Second, nsel := 1\<rparr>)"
    by (simp add: n)
  show ?thesis
    by (intro conjI p1 p2 p3 p4 p5)
qed

end
